(* ===== verification/Prelude.thy ===== *)
theory Prelude
  imports Main "HOL-Library.Word"
begin

text \<open>
  Shared vocabulary of the development: the collections the component proofs use, the types that
  name Go's data (a Go string and a byte slice are both byte sequences, here lists of 8-bit
  characters), 64-bit wrap-around, tables as lists of rows with the row operations SQL statements
  are made of, and the error-and-state monad in which service operations are written. An operation
  that ends in an error keeps the statements it has already executed; only
  \<open>in_transaction\<close> (Go's \<open>BeginTx\<close>, deferred \<open>Rollback\<close>, \<open>Commit\<close>) undoes them.
\<close>

named_theorems tx_simps \<open>how the operations of the error-and-state monad compute\<close>
named_theorems tx_inv \<open>what a successful run of a monadic operation went through\<close>
named_theorems tx_err \<open>how a run of a monadic operation can end in an error\<close>
named_theorems table_simps \<open>how row updates act on tables\<close>

section \<open>Types\<close>

type_synonym bytes = string
type_synonym 'a result = "string + 'a"
type_synonym ('s, 'a) tx = "'s \<Rightarrow> 'a result \<times> 's"

text \<open>Which of an operation's calls into the database driver report an error, by call number.\<close>

type_synonym faults = "nat \<Rightarrow> bool"

abbreviation no_faults :: faults where
  "no_faults \<equiv> (\<lambda>_. False)"

section \<open>Go's int64\<close>

definition wrap64 :: "int \<Rightarrow> int" where
  "wrap64 x = (x + 2 ^ 63) mod 2 ^ 64 - 2 ^ 63"

definition int64_range :: "int \<Rightarrow> bool" where
  "int64_range x = (- (2 ^ 63) \<le> x \<and> x < 2 ^ 63)"

lemma wrap64_range: "int64_range (wrap64 x)"
  by (simp add: wrap64_def int64_range_def)

lemma wrap64_id [simp]: "int64_range x \<Longrightarrow> wrap64 x = x"
  by (simp add: wrap64_def int64_range_def)

lemma int64_word_inj:
  assumes "int64_range x" "int64_range y" "(word_of_int x :: 64 word) = word_of_int y"
  shows "x = y"
proof -
  from assms(3) have "sint (word_of_int x :: 64 word) = sint (word_of_int y :: 64 word)"
    by simp
  with assms(1,2) show ?thesis
    by (simp add: int64_range_def signed_of_int signed_take_bit_int_eq_self)
qed

lemma of_char_int [simp]: "0 \<le> (of_char c :: int)" "(of_char c :: int) < 256"
proof -
  have "(of_char c :: int) = int (of_char c)" by (simp only: of_nat_of_char)
  moreover have "(of_char c :: nat) < 256" by simp
  ultimately show "0 \<le> (of_char c :: int)" "(of_char c :: int) < 256" by linarith+
qed

section \<open>Tables\<close>

definition update_where :: "('r \<Rightarrow> bool) \<Rightarrow> ('r \<Rightarrow> 'r) \<Rightarrow> 'r list \<Rightarrow> 'r list" where
  "update_where P f t = map (\<lambda>r. if P r then f r else r) t"

definition affected :: "('r \<Rightarrow> bool) \<Rightarrow> 'r list \<Rightarrow> nat" where
  "affected P t = length (filter P t)"

lemma update_where_Nil [simp]: "update_where P f [] = []"
  by (simp add: update_where_def)

lemma update_where_Cons [simp]:
  "update_where P f (r # t) = (if P r then f r else r) # update_where P f t"
  by (simp add: update_where_def)

lemma set_update_where [table_simps]:
  "set (update_where P f t) = (\<lambda>r. if P r then f r else r) ` set t"
  by (simp add: update_where_def)

lemma update_whereE:
  assumes "r' \<in> set (update_where P f t)"
  obtains (updated) r where "r \<in> set t" "P r" "r' = f r" | (kept) "r' \<in> set t" "\<not> P r'"
  using assms by (auto simp: set_update_where split: if_splits)

lemma map_update_where [table_simps]:
  assumes "\<And>r. P r \<Longrightarrow> k (f r) = k r"
  shows "map k (update_where P f t) = map k t"
  using assms by (simp add: update_where_def)

lemma update_where_none:
  "affected P t = 0 \<Longrightarrow> update_where P f t = t"
  by (induction t) (auto simp: affected_def split: if_splits)

lemma update_where_rel:
  assumes "\<And>r. K r r" and "\<And>r. P r \<Longrightarrow> K r (f r)"
  shows "\<forall>r\<in>set t. \<exists>r'\<in>set (update_where P f t). K r r'"
  using assms by (induction t) auto

lemma affected_0_iff: "affected P t = 0 \<longleftrightarrow> (\<forall>r\<in>set t. \<not> P r)"
  by (auto simp: affected_def filter_empty_conv)

lemma affected_pos_iff [simp]: "0 < affected P t \<longleftrightarrow> (\<exists>r\<in>set t. P r)"
  using affected_0_iff [of P t] by auto

text \<open>A condition that fixes the primary key matches at most one row.\<close>

lemma affected_key_le_1:
  assumes "distinct (map k t)" and "\<And>r. P r \<Longrightarrow> k r = x"
  shows "affected P t \<le> 1"
  using assms
proof (induction t)
  case Nil
  then show ?case by (simp add: affected_def)
next
  case (Cons r t)
  show ?case
  proof (cases "P r")
    case True
    have "\<not> P q" if "q \<in> set t" for q
      using Cons.prems True that by (metis distinct.simps(2) image_eqI image_set list.simps(9))
    then have "filter P t = []"
      by (simp add: filter_empty_conv)
    then show ?thesis by (simp add: affected_def)
  next
    case False
    with Cons show ?thesis by (simp add: affected_def)
  qed
qed

lemma affected_key_eq_1:
  assumes "distinct (map k t)" and "\<And>r. P r \<Longrightarrow> k r = x"
  shows "affected P t = 1 \<longleftrightarrow> (\<exists>r\<in>set t. P r)"
proof -
  have "affected P t \<le> 1" by (rule affected_key_le_1 [of k]) (use assms in auto)
  with affected_pos_iff [of P t] show ?thesis by linarith
qed

lemma key_unique:
  "distinct (map k t) \<Longrightarrow> r \<in> set t \<Longrightarrow> q \<in> set t \<Longrightarrow> k r = k q \<Longrightarrow> r = q"
  by (metis distinct_map inj_onD)

lemma update_where_unique:
  assumes "distinct (map k xs)" "\<exists>x\<in>set xs. P x" "\<And>y. P y \<Longrightarrow> k y = a"
  shows "update_where P f xs = map (\<lambda>y. if k y = a then f y else y) xs"
proof -
  have "P y \<longleftrightarrow> k y = a" if "y \<in> set xs" for y
    using that assms by (metis key_unique)
  then show ?thesis by (simp add: update_where_def)
qed

lemma find_Some_in: "find P t = Some r \<Longrightarrow> r \<in> set t \<and> P r"
  by (induction t) (auto split: if_splits)

lemma find_None_out: "find P t = None \<longleftrightarrow> (\<forall>r\<in>set t. \<not> P r)"
  by (auto simp: find_None_iff)

lemma find_key:
  assumes "distinct (map k t)" "r \<in> set t" "k r = x" and "\<And>q. P q \<Longrightarrow> k q = x" "P r"
  shows "find P t = Some r"
proof (cases "find P t")
  case None
  with assms show ?thesis by (auto simp: find_None_iff)
next
  case (Some q)
  then have "q \<in> set t" "P q" by (auto dest: find_Some_in)
  with assms key_unique [of k t q r] Some show ?thesis by metis
qed

lemma find_append_other: "\<not> P r \<Longrightarrow> find P (t @ [r]) = find P t"
  by (induction t) auto

text \<open>Looking a row up by a condition its update keeps finds the updated row.\<close>

lemma find_updated:
  assumes "\<exists>r\<in>set t. P r" and "\<And>r. P r \<Longrightarrow> P (f r)"
  shows "\<exists>r. find P (update_where P f t) = Some (f r) \<and> r \<in> set t \<and> P r"
  using assms by (induction t) auto

section \<open>The error-and-state monad\<close>

definition tx_ret :: "'a \<Rightarrow> ('s, 'a) tx" where
  "tx_ret x = (\<lambda>s. (Inr x, s))"

definition tx_fail :: "string \<Rightarrow> ('s, 'a) tx" where
  "tx_fail e = (\<lambda>s. (Inl e, s))"

definition tx_bind :: "('s, 'a) tx \<Rightarrow> ('a \<Rightarrow> ('s, 'b) tx) \<Rightarrow> ('s, 'b) tx" where
  "tx_bind m f = (\<lambda>s. case m s of (Inl e, s') \<Rightarrow> (Inl e, s') | (Inr x, s') \<Rightarrow> f x s')"

definition tx_guard :: "bool \<Rightarrow> string \<Rightarrow> ('s, 'a) tx \<Rightarrow> ('s, 'a) tx" where
  "tx_guard b e m = (if b then m else tx_fail e)"

text \<open>One call into the driver: it reports an error, which the code turns into the code
  \<open>e\<close>, or it runs the statement.\<close>

definition tx_call :: "bool \<Rightarrow> string \<Rightarrow> ('s, 'a) tx \<Rightarrow> ('s, 'a) tx" where
  "tx_call fault e m = (if fault then tx_fail e else m)"

text \<open>Pure results and optional values as operations.\<close>

definition tx_lift :: "'a result \<Rightarrow> ('s, 'a) tx" where
  "tx_lift r = (\<lambda>s. (r, s))"

definition tx_some :: "string \<Rightarrow> 'a option \<Rightarrow> ('s, 'a) tx" where
  "tx_some e v = (case v of None \<Rightarrow> tx_fail e | Some x \<Rightarrow> tx_ret x)"

definition tx_query :: "('s \<Rightarrow> 'a) \<Rightarrow> ('s, 'a) tx" where
  "tx_query q = (\<lambda>s. (Inr (q s), s))"

text \<open>A statement that changes the state and returns a value, or violates a constraint
  (\<open>None\<close>), which the code turns into \<open>e\<close>.\<close>

definition tx_exec :: "string \<Rightarrow> ('s \<Rightarrow> ('a \<times> 's) option) \<Rightarrow> ('s, 'a) tx" where
  "tx_exec e f = (\<lambda>s. case f s of None \<Rightarrow> (Inl e, s) | Some (x, s') \<Rightarrow> (Inr x, s'))"

text \<open>An operation with a handler for its error.\<close>

definition tx_catch :: "('s, 'a) tx \<Rightarrow> ('s, 'a) tx \<Rightarrow> ('s, 'a) tx" where
  "tx_catch m h = (\<lambda>s. case m s of (Inl e, s') \<Rightarrow> h s' | (Inr x, s') \<Rightarrow> (Inr x, s'))"

definition in_transaction :: "bool \<Rightarrow> bool \<Rightarrow> ('s, 'a) tx \<Rightarrow> ('s, 'a) tx" where
  "in_transaction begin_fails commit_fails m = (\<lambda>s.
     if begin_fails then (Inl ''internal_error'', s)
     else case m s of
       (Inl e, s') \<Rightarrow> (Inl e, s)
     | (Inr x, s') \<Rightarrow> if commit_fails then (Inl ''internal_error'', s) else (Inr x, s'))"

lemma tx_run [tx_simps]:
  "tx_ret x s = (Inr x, s)"
  "tx_fail e s = (Inl e, s)"
  "tx_query q s = (Inr (q s), s)"
  "tx_lift r s = (r, s)"
  "tx_some e v s = (case v of None \<Rightarrow> (Inl e, s) | Some x \<Rightarrow> (Inr x, s))"
  "tx_guard b e m s = (if b then m s else (Inl e, s))"
  "tx_call c e m s = (if c then (Inl e, s) else m s)"
  "tx_exec e f s = (case f s of None \<Rightarrow> (Inl e, s) | Some (y, s') \<Rightarrow> (Inr y, s'))"
  by (simp_all add: tx_ret_def tx_fail_def tx_query_def tx_lift_def tx_some_def tx_guard_def
      tx_call_def tx_exec_def split: option.splits)

lemma tx_bind_run [tx_simps]:
  "tx_bind m f s = (case m s of (Inl e, s') \<Rightarrow> (Inl e, s') | (Inr x, s') \<Rightarrow> f x s')"
  by (simp add: tx_bind_def)

lemma tx_bind_Inr [tx_inv]:
  "tx_bind m f s = (Inr y, s') \<longleftrightarrow> (\<exists>x s1. m s = (Inr x, s1) \<and> f x s1 = (Inr y, s'))"
  by (auto simp: tx_bind_def split: prod.splits sum.splits)

lemma tx_guard_Inr [tx_inv]:
  "tx_guard b e m s = (Inr y, s') \<longleftrightarrow> b \<and> m s = (Inr y, s')"
  by (simp add: tx_guard_def tx_fail_def)

lemma tx_call_Inr [tx_inv]:
  "tx_call b e m s = (Inr y, s') \<longleftrightarrow> \<not> b \<and> m s = (Inr y, s')"
  by (simp add: tx_call_def tx_fail_def)

lemma tx_ret_Inr [tx_inv]: "tx_ret x s = (Inr y, s') \<longleftrightarrow> y = x \<and> s' = s"
  by (auto simp: tx_ret_def)

lemma tx_fail_Inr [tx_inv]: "tx_fail e s = (Inr y, s') \<longleftrightarrow> False"
  by (simp add: tx_fail_def)

lemma tx_lift_Inr [tx_inv]: "tx_lift r s = (Inr y, s') \<longleftrightarrow> r = Inr y \<and> s' = s"
  by (auto simp: tx_lift_def)

lemma tx_some_Inr [tx_inv]: "tx_some e v s = (Inr y, s') \<longleftrightarrow> v = Some y \<and> s' = s"
  by (auto simp: tx_some_def tx_fail_def tx_ret_def split: option.splits)

lemma tx_query_Inr [tx_inv]: "tx_query q s = (Inr y, s') \<longleftrightarrow> y = q s \<and> s' = s"
  by (auto simp: tx_query_def)

lemma tx_exec_Inr [tx_inv]: "tx_exec e f s = (Inr y, s') \<longleftrightarrow> f s = Some (y, s')"
  by (auto simp: tx_exec_def split: option.splits)

lemma in_transaction_Inr [tx_inv]:
  "in_transaction b c m s = (Inr y, s') \<longleftrightarrow> \<not> b \<and> \<not> c \<and> m s = (Inr y, s')"
  by (auto simp: in_transaction_def split: prod.splits sum.splits)

lemma tx_catch_Inr [tx_inv]:
  "tx_catch m h s = (Inr y, s') \<longleftrightarrow>
   m s = (Inr y, s') \<or> (\<exists>e s1. m s = (Inl e, s1) \<and> h s1 = (Inr y, s'))"
  by (auto simp: tx_catch_def split: prod.splits sum.splits)

text \<open>Pure code that returns a value or an error: the early return, and a check with its error.\<close>

definition res_bind :: "'a result \<Rightarrow> ('a \<Rightarrow> 'b result) \<Rightarrow> 'b result" where
  "res_bind r f = (case r of Inl e \<Rightarrow> Inl e | Inr x \<Rightarrow> f x)"

definition res_check :: "bool \<Rightarrow> string \<Rightarrow> unit result" where
  "res_check b e = (if b then Inr () else Inl e)"

lemma res_bind_run [tx_simps]: "res_bind (Inr x) f = f x" "res_bind (Inl e) f = Inl e"
  by (simp_all add: res_bind_def)

lemma res_bind_Inr [tx_inv]: "res_bind r f = Inr y \<longleftrightarrow> (\<exists>x. r = Inr x \<and> f x = Inr y)"
  by (cases r) (simp_all add: res_bind_def)

lemma res_check_Inr [tx_inv]: "res_check b e = Inr u \<longleftrightarrow> b"
  by (simp add: res_check_def)

lemma if_Inl_Inr [tx_inv]: "(if b then Inl e else r) = Inr y \<longleftrightarrow> \<not> b \<and> r = Inr y"
  by simp

lemma some_Inr [tx_inv]:
  "(case v of None \<Rightarrow> Inl e | Some x \<Rightarrow> f x) = Inr y \<longleftrightarrow> (\<exists>x. v = Some x \<and> f x = Inr y)"
  by (cases v) simp_all

text \<open>How a run can end in an error.\<close>

lemma tx_catch_Inl [tx_err]:
  "tx_catch m h s = (Inl e, s') \<longleftrightarrow> (\<exists>e1 s1. m s = (Inl e1, s1) \<and> h s1 = (Inl e, s'))"
  by (auto simp: tx_catch_def split: prod.splits sum.splits)

lemma tx_bind_Inl [tx_err]:
  "tx_bind m f s = (Inl e, s') \<longleftrightarrow>
   m s = (Inl e, s') \<or> (\<exists>x s1. m s = (Inr x, s1) \<and> f x s1 = (Inl e, s'))"
  by (auto simp: tx_bind_def split: prod.splits sum.splits)

lemma tx_guard_Inl [tx_err]:
  "tx_guard b c m s = (Inl e, s') \<longleftrightarrow> \<not> b \<and> e = c \<and> s' = s \<or> b \<and> m s = (Inl e, s')"
  by (auto simp: tx_guard_def tx_fail_def)

lemma tx_call_Inl [tx_err]:
  "tx_call b c m s = (Inl e, s') \<longleftrightarrow> b \<and> e = c \<and> s' = s \<or> \<not> b \<and> m s = (Inl e, s')"
  by (auto simp: tx_call_def tx_fail_def)

lemma tx_basic_Inl [tx_err]:
  "tx_ret x s = (Inl e, s') \<longleftrightarrow> False"
  "tx_fail c s = (Inl e, s') \<longleftrightarrow> e = c \<and> s' = s"
  "tx_query q s = (Inl e, s') \<longleftrightarrow> False"
  "tx_lift r s = (Inl e, s') \<longleftrightarrow> r = Inl e \<and> s' = s"
  "tx_some c v s = (Inl e, s') \<longleftrightarrow> v = None \<and> e = c \<and> s' = s"
  "tx_exec c f s = (Inl e, s') \<longleftrightarrow> f s = None \<and> e = c \<and> s' = s"
  by (auto simp: tx_ret_def tx_fail_def tx_query_def tx_lift_def tx_some_def tx_exec_def
      split: option.splits)

text \<open>What a transaction promises: an error leaves no trace.\<close>

lemma in_transaction_Inl:
  "in_transaction b c m s = (Inl e, s') \<Longrightarrow> s' = s"
  by (auto simp: in_transaction_def split: prod.splits sum.splits if_splits)

text \<open>
  Contracts on single steps: a reflexive and transitive relation between the states before and
  after. When every statement of an operation obeys it, every run of the operation does, whether it
  succeeds, fails or is rolled back. A state invariant is the relation "if before, then after".
\<close>

locale tx_order =
  fixes R :: "'s \<Rightarrow> 's \<Rightarrow> bool"
  assumes refl: "R s s"
    and trans: "R s t \<Longrightarrow> R t u \<Longrightarrow> R s u"
begin

definition obeys :: "('s, 'a) tx \<Rightarrow> bool" where
  "obeys m \<longleftrightarrow> (\<forall>s r s'. m s = (r, s') \<longrightarrow> R s s')"

lemma obeysD: "obeys m \<Longrightarrow> m s = (r, s') \<Longrightarrow> R s s'"
  by (auto simp: obeys_def)

lemma obeys_state: "obeys m \<Longrightarrow> R s (snd (m s))"
  by (cases "m s") (auto simp: obeys_def)

lemma obeys_still:
  "obeys (tx_ret x)" "obeys (tx_fail e)" "obeys (tx_query q)" "obeys (tx_lift r)" "obeys (tx_some e v)"
  by (auto simp: obeys_def tx_simps refl split: option.splits)

lemma obeys_bind: "obeys m \<Longrightarrow> (\<And>x. obeys (f x)) \<Longrightarrow> obeys (tx_bind m f)"
  by (auto simp: obeys_def tx_bind_def split: prod.splits sum.splits) (blast intro: trans)+

lemma obeys_guard: "obeys m \<Longrightarrow> obeys (tx_guard b e m)"
  by (auto simp: obeys_def tx_simps refl split: if_splits)

lemma obeys_call: "obeys m \<Longrightarrow> obeys (tx_call b e m)"
  by (auto simp: obeys_def tx_simps refl split: if_splits)

lemma obeys_exec: "(\<And>s x s'. f s = Some (x, s') \<Longrightarrow> R s s') \<Longrightarrow> obeys (tx_exec e f)"
  by (auto simp: obeys_def tx_simps refl split: option.splits)

lemma obeys_catch: "obeys m \<Longrightarrow> obeys h \<Longrightarrow> obeys (tx_catch m h)"
  by (auto simp: obeys_def tx_catch_def split: prod.splits sum.splits) (blast intro: trans)+

lemma obeys_transaction: "obeys m \<Longrightarrow> obeys (in_transaction b c m)"
  by (auto simp: obeys_def in_transaction_def refl split: if_splits prod.splits sum.splits)

lemma obeys_if: "obeys m \<Longrightarrow> obeys n \<Longrightarrow> obeys (if b then m else n)"
  by simp

lemma obeys_option: "obeys m \<Longrightarrow> (\<And>x. obeys (f x)) \<Longrightarrow> obeys (case v of None \<Rightarrow> m | Some x \<Rightarrow> f x)"
  by (cases v) simp_all

lemmas obeys_rules = obeys_still obeys_bind obeys_guard obeys_call obeys_exec obeys_catch
  obeys_transaction  obeys_if obeys_option

end

end
