(* ===== verification/GoStrings.thy ===== *)
theory GoStrings
  imports Prelude
begin

text \<open>
  What the relay uses of Go's packages \<open>strings\<close>, \<open>unicode\<close> and \<open>strconv\<close>. A Go string is a
  byte sequence; white space is Unicode's, so that it is recognised by its UTF-8 encoding: UTF-8 is
  self-synchronising, hence a white-space rune stands at the front (at the end, anywhere) of a
  string exactly where one of these byte sequences stands there.
\<close>

section \<open>White space\<close>

definition space_runes :: "string list" where
  "space_runes =
     [[CHR 0x09], [CHR 0x0A], [CHR 0x0B], [CHR 0x0C], [CHR 0x0D], [CHR 0x20],
      [CHR 0xC2, CHR 0x85], [CHR 0xC2, CHR 0xA0], [CHR 0xE1, CHR 0x9A, CHR 0x80]] @
     map (\<lambda>n. [CHR 0xE2, CHR 0x80, char_of (n + 0x80 :: nat)])
       [0, 1, 2, 3, 4, 5, 6, 7, 8, 9, 10, 0x28, 0x29, 0x2F] @
     [[CHR 0xE2, CHR 0x81, CHR 0x9F], [CHR 0xE3, CHR 0x80, CHR 0x80]]"

definition HasPrefix :: "string \<Rightarrow> string \<Rightarrow> bool" where
  "HasPrefix s p = (take (length p) s = p)"

lemma HasPrefix_append: "HasPrefix s p \<longleftrightarrow> (\<exists>r. s = p @ r)"
  by (metis HasPrefix_def append_eq_conv_conj append_take_drop_id)

function strip_front :: "string list \<Rightarrow> string \<Rightarrow> string" where
  "strip_front ws s =
     (case find (\<lambda>w. w \<noteq> [] \<and> HasPrefix s w) ws of
        None \<Rightarrow> s
      | Some w \<Rightarrow> strip_front ws (drop (length w) s))"
  by pat_completeness auto
termination
proof (relation "measure (\<lambda>(ws, s). length s)", simp)
  fix ws s w
  assume "find (\<lambda>w. w \<noteq> [] \<and> HasPrefix s w) ws = Some w"
  then have "w \<noteq> []" "HasPrefix s w" by (auto dest: find_Some_in)
  then show "((ws, drop (length w) s), ws, s) \<in> measure (\<lambda>(ws, s). length s)"
    by (auto simp: HasPrefix_append)
qed

declare strip_front.simps [simp del]

definition strip_back :: "string list \<Rightarrow> string \<Rightarrow> string" where
  "strip_back ws s = rev (strip_front (map rev ws) (rev s))"

definition TrimSpace :: "string \<Rightarrow> string" where
  "TrimSpace s = strip_back space_runes (strip_front space_runes s)"

text \<open>\<open>strings.IndexFunc(s, unicode.IsSpace) >= 0\<close>\<close>

fun contains_space :: "string \<Rightarrow> bool" where
  "contains_space [] = False"
| "contains_space (c # s) = (list_ex (HasPrefix (c # s)) space_runes \<or> contains_space s)"

text \<open>A string is clean at its front when none of the words starts it.\<close>

definition front_clean :: "string list \<Rightarrow> string \<Rightarrow> bool" where
  "front_clean ws s = (find (\<lambda>w. w \<noteq> [] \<and> HasPrefix s w) ws = None)"

lemma front_clean_iff: "front_clean ws s \<longleftrightarrow> (\<forall>w\<in>set ws. w \<noteq> [] \<longrightarrow> \<not> HasPrefix s w)"
  by (auto simp: front_clean_def find_None_out)

lemma strip_front_clean: "front_clean ws (strip_front ws s)"
proof (induction ws s rule: strip_front.induct)
  case (1 ws s)
  show ?case
  proof (cases "find (\<lambda>w. w \<noteq> [] \<and> HasPrefix s w) ws")
    case None
    then show ?thesis by (simp add: strip_front.simps [of ws s] front_clean_def)
  next
    case (Some w)
    with 1 show ?thesis by (simp add: strip_front.simps [of ws s])
  qed
qed

lemma strip_front_id: "front_clean ws s \<Longrightarrow> strip_front ws s = s"
  by (simp add: strip_front.simps [of ws s] front_clean_def)

lemma strip_front_suffix: "\<exists>p. s = p @ strip_front ws s"
proof (induction ws s rule: strip_front.induct)
  case (1 ws s)
  show ?case
  proof (cases "find (\<lambda>w. w \<noteq> [] \<and> HasPrefix s w) ws")
    case None
    then show ?thesis by (simp add: strip_front.simps [of ws s])
  next
    case (Some w)
    with 1 obtain p where "drop (length w) s = p @ strip_front ws (drop (length w) s)" by auto
    then have "s = (take (length w) s @ p) @ strip_front ws (drop (length w) s)"
      by (metis append.assoc append_take_drop_id)
    moreover from Some have "strip_front ws s = strip_front ws (drop (length w) s)"
      by (simp add: strip_front.simps [of ws s])
    ultimately show ?thesis by metis
  qed
qed

lemma strip_back_prefix: "\<exists>q. s = strip_back ws s @ q"
  unfolding strip_back_def
  using strip_front_suffix [of "rev s" "map rev ws"] by (metis rev_append rev_rev_ident)

lemma front_clean_prefix: "front_clean ws (p @ q) \<Longrightarrow> front_clean ws p"
  by (auto simp: front_clean_iff HasPrefix_append)

lemma strip_back_id: "front_clean (map rev ws) (rev s) \<Longrightarrow> strip_back ws s = s"
  by (simp add: strip_back_def strip_front_id)

lemma TrimSpace_front: "front_clean space_runes (TrimSpace s)"
  using strip_back_prefix [of "strip_front space_runes s" space_runes]
    strip_front_clean [of space_runes s]
  unfolding TrimSpace_def by (metis front_clean_prefix)

lemma TrimSpace_back: "front_clean (map rev space_runes) (rev (TrimSpace s))"
  by (simp add: TrimSpace_def strip_back_def strip_front_clean)

lemma TrimSpace_id:
  "front_clean space_runes s \<Longrightarrow> front_clean (map rev space_runes) (rev s) \<Longrightarrow> TrimSpace s = s"
  by (simp add: TrimSpace_def strip_front_id strip_back_id)

lemma TrimSpace_idem [simp]: "TrimSpace (TrimSpace s) = TrimSpace s"
  by (rule TrimSpace_id [OF TrimSpace_front TrimSpace_back])

lemma TrimSpace_part: "\<exists>p q. s = p @ TrimSpace s @ q"
  unfolding TrimSpace_def
  using strip_front_suffix [of s space_runes]
    strip_back_prefix [of "strip_front space_runes s" space_runes]
  by metis

lemma length_TrimSpace: "length (TrimSpace s) \<le> length s"
  using TrimSpace_part [of s] by (metis le_add2 length_append le_add1 le_trans)

section \<open>Splitting, joining and numbers\<close>

text \<open>\<open>strings.Split\<close> with a one-byte separator.\<close>

fun Split :: "char \<Rightarrow> string \<Rightarrow> string list" where
  "Split c [] = [[]]"
| "Split c (x # s) =
     (if x = c then [] # Split c s
      else case Split c s of [] \<Rightarrow> [[x]] | p # ps \<Rightarrow> (x # p) # ps)"

fun Join :: "char \<Rightarrow> string list \<Rightarrow> string" where
  "Join c [] = []"
| "Join c [p] = p"
| "Join c (p # ps) = p @ c # Join c ps"

lemma Split_nonempty [simp]: "Split c s \<noteq> []"
  by (induction s) (auto split: list.splits)

lemma Join_Split: "Join c (Split c s) = s"
proof (induction s)
  case Nil
  then show ?case by simp
next
  case (Cons x s)
  obtain p ps where "Split c s = p # ps"
    by (cases "Split c s") auto
  with Cons show ?case by (cases ps) auto
qed

lemma Split_no_sep: "c \<notin> set s \<Longrightarrow> Split c s = [s]"
  by (induction s) auto

lemma Split_append_sep: "c \<notin> set p \<Longrightarrow> Split c (p @ c # s) = p # Split c s"
  by (induction p) auto

lemma Split_Join:
  "ps \<noteq> [] \<Longrightarrow> (\<And>p. p \<in> set ps \<Longrightarrow> c \<notin> set p) \<Longrightarrow> Split c (Join c ps) = ps"
  by (induction ps rule: Join.induct [of _ c]) (auto simp: Split_no_sep Split_append_sep)

text \<open>\<open>strconv.Itoa\<close> and the decimal digits it is made of.\<close>

function decimal :: "int \<Rightarrow> string" where
  "decimal n = (if n < 10 then [char_of (n + 48)] else decimal (n div 10) @ [char_of (n mod 10 + 48)])"
  by pat_completeness auto
termination
  by (relation "measure nat") auto

declare decimal.simps [simp del]

definition Itoa :: "int \<Rightarrow> string" where
  "Itoa i = (if i < 0 then CHR ''-'' # decimal (- i) else decimal i)"

definition is_digit :: "char \<Rightarrow> bool" where
  "is_digit c = (48 \<le> (of_char c :: int) \<and> (of_char c :: int) \<le> 57)"

text \<open>The value of a string of decimal digits, most significant first.\<close>

definition digits_value :: "string \<Rightarrow> int" where
  "digits_value s = foldl (\<lambda>n c. 10 * n + (of_char c - 48)) 0 s"

lemma digits_value_append [simp]:
  "digits_value (s @ [c]) = 10 * digits_value s + (of_char c - 48)"
  by (simp add: digits_value_def)

lemma of_char_digit:
  "0 \<le> d \<Longrightarrow> d < 10 \<Longrightarrow> (of_char (char_of (d + 48 :: int) :: char) :: int) = d + 48"
  by simp

lemma digits_value_decimal: "0 \<le> n \<Longrightarrow> digits_value (decimal n) = n"
proof (induction n rule: decimal.induct)
  case (1 n)
  show ?case
  proof (cases "n < 10")
    case True
    with 1 show ?thesis by (simp add: decimal.simps [of n] digits_value_def of_char_digit)
  next
    case False
    with 1 show ?thesis by (simp add: decimal.simps [of n] of_char_digit)
  qed
qed

lemma decimal_digits: "0 \<le> n \<Longrightarrow> c \<in> set (decimal n) \<Longrightarrow> is_digit c"
proof (induction n rule: decimal.induct)
  case (1 n)
  show ?case
  proof (cases "n < 10")
    case True
    with 1 show ?thesis by (simp add: decimal.simps [of n] is_digit_def of_char_digit)
  next
    case False
    moreover have "is_digit (char_of (n mod 10 + 48))"
      by (simp add: is_digit_def of_char_digit)
    ultimately show ?thesis using 1 by (auto simp: decimal.simps [of n])
  qed
qed

lemma decimal_nonempty [simp]: "decimal n \<noteq> []"
  by (simp add: decimal.simps [of n])

text \<open>\<open>strconv.ParseInt(s, 10, 64)\<close> and \<open>strconv.ParseUint(s, 10, 64)\<close>.\<close>

definition ParseInt64 :: "string \<Rightarrow> int option" where
  "ParseInt64 s =
     (let (neg, ds) = (case s of [] \<Rightarrow> (False, []) | c # t \<Rightarrow>
            if c = CHR ''-'' then (True, t) else if c = CHR ''+'' then (False, t) else (False, s));
          v = (if neg then - digits_value ds else digits_value ds)
      in if ds = [] \<or> \<not> list_all is_digit ds \<or> \<not> int64_range v then None else Some v)"

definition ParseUint64 :: "string \<Rightarrow> int option" where
  "ParseUint64 s =
     (if s = [] \<or> \<not> list_all is_digit s \<or> 2 ^ 64 \<le> digits_value s then None else Some (digits_value s))"

lemma digits_value_nonneg: "list_all is_digit s \<Longrightarrow> 0 \<le> digits_value s"
  by (induction s rule: rev_induct) (auto simp: digits_value_def is_digit_def)

lemma ParseInt64_digits:
  assumes "s \<noteq> []" "list_all is_digit s"
  shows "ParseInt64 s = (if digits_value s < 2 ^ 63 then Some (digits_value s) else None)"
proof -
  have "hd s \<noteq> CHR ''-'' \<and> hd s \<noteq> CHR ''+''"
    using assms by (cases s) (auto simp: is_digit_def)
  with assms digits_value_nonneg [OF assms(2)] show ?thesis
    by (cases s) (auto simp: ParseInt64_def int64_range_def)
qed

section \<open>Letters without their case\<close>

definition lower :: "char \<Rightarrow> char" where
  "lower c = (let n = (of_char c :: int) in if 65 \<le> n \<and> n \<le> 90 then char_of (n + 32) else c)"

text \<open>Folding towards lower-case ASCII, as \<open>strings.EqualFold\<close> and the field matching of
  \<open>encoding/json\<close> compare with ASCII names: the Kelvin sign folds to \<open>k\<close>, the long s to \<open>s\<close>.\<close>

fun fold_name :: "string \<Rightarrow> string" where
  "fold_name (a # b # c # s) =
     (if [a, b, c] = [CHR 0xE2, CHR 0x84, CHR 0xAA] then CHR ''k'' # fold_name s
      else if [a, b] = [CHR 0xC5, CHR 0xBF] then CHR ''s'' # fold_name (c # s)
      else lower a # fold_name (b # c # s))"
| "fold_name [a, b] = (if [a, b] = [CHR 0xC5, CHR 0xBF] then ''s'' else [lower a, lower b])"
| "fold_name [a] = [lower a]"
| "fold_name [] = []"

end
