(* ===== verification/Store.thy ===== *)
theory Store
  imports Prelude GoStrings
begin

text \<open>
  The relay's database (\<open>internal/store\<close>): one record per table of \<open>SchemaSQL\<close>, a table as the
  list of its rows in insertion order, and the SQL statements the services run, as functions on the
  state. SQLite's role is what its documentation promises of these statements: a unique primary key
  per table, the declared foreign keys (\<open>pragma foreign_keys = on\<close>), \<open>RowsAffected\<close> as the
  number of matching rows, text compared byte by byte. A violated constraint is \<open>None\<close>.
  \<open>db_inv\<close> is the integrity the schema declares.
\<close>

section \<open>Tables\<close>

record tenant_row =
  tn_tenant_id :: string
  tn_display_name :: string
  tn_enabled :: int
  tn_secret_hash :: string
  tn_created_at :: string

record host_row =
  ho_tenant_id :: string
  ho_host_id :: string
  ho_display_name :: string
  ho_signing_public_key :: string
  ho_agreement_public_key :: string
  ho_key_version :: int
  ho_enabled :: int
  ho_revoked :: int
  ho_registered_at :: string
  ho_last_seen_at :: "string option"

record device_row =
  dv_tenant_id :: string
  dv_host_id :: string
  dv_device_id :: string
  dv_signing_public_key :: string
  dv_agreement_public_key :: string
  dv_key_version :: int
  dv_binding_version :: int
  dv_revoked :: int
  dv_approved_at :: string
  dv_last_seen_at :: "string option"

record invite_row =
  iv_tenant_id :: string
  iv_host_id :: string
  iv_invite_id :: string
  iv_status :: string
  iv_created_at :: int
  iv_expires_at :: int
  iv_consumed_at :: "int option"

record claim_row =
  cl_claim_id :: string
  cl_invite_id :: string
  cl_tenant_id :: string
  cl_host_id :: string
  cl_device_id :: string
  cl_header_json :: string
  cl_nonce :: string
  cl_ciphertext :: string
  cl_access_token_hash :: bytes
  cl_status :: string
  cl_device_signing_public_key :: "string option"
  cl_device_agreement_public_key :: "string option"
  cl_device_key_version :: "int option"
  cl_binding_version :: "int option"
  cl_approval_header :: "string option"
  cl_approval_nonce :: "string option"
  cl_approval_ciphertext :: "string option"
  cl_created_at :: int
  cl_updated_at :: int
  cl_expires_at :: int
  cl_consumed_at :: "int option"

record challenge_row =
  ch_challenge_id :: string
  ch_challenge_hash :: bytes
  ch_protocol_version :: int
  ch_relay_fingerprint :: string
  ch_relay_signature :: string
  ch_subject_type :: string
  ch_subject_id :: string
  ch_tenant_id :: string
  ch_host_id :: string
  ch_device_id :: string
  ch_purpose :: string
  ch_issued_at :: int
  ch_expires_at :: int
  ch_consumed_at :: "int option"

record ticket_row =
  tk_ticket_hash :: bytes
  tk_subject_type :: string
  tk_subject_id :: string
  tk_tenant_id :: string
  tk_host_id :: string
  tk_device_id :: string
  tk_purpose :: string
  tk_issued_at :: int
  tk_expires_at :: int
  tk_consumed_at :: "int option"

record audit_row =
  au_id :: int
  au_tenant_id :: "string option"
  au_event_type :: string
  au_message :: string
  au_created_at :: string

record db =
  tenants :: "tenant_row list"
  hosts :: "host_row list"
  devices :: "device_row list"
  pairing_invites :: "invite_row list"
  pairing_claims :: "claim_row list"
  auth_challenges :: "challenge_row list"
  auth_tickets :: "ticket_row list"
  audit_events :: "audit_row list"

definition empty_db :: db where
  "empty_db = \<lparr>tenants = [], hosts = [], devices = [], pairing_invites = [], pairing_claims = [],
     auth_challenges = [], auth_tickets = [], audit_events = []\<rparr>"

text \<open>Primary keys, and the columns foreign keys refer to.\<close>

definition ho_key :: "host_row \<Rightarrow> string \<times> string" where
  "ho_key h = (ho_tenant_id h, ho_host_id h)"

definition dv_key :: "device_row \<Rightarrow> string \<times> string \<times> string" where
  "dv_key d = (dv_tenant_id d, dv_host_id d, dv_device_id d)"

definition iv_key :: "invite_row \<Rightarrow> string \<times> string \<times> string" where
  "iv_key i = (iv_tenant_id i, iv_host_id i, iv_invite_id i)"

definition cl_invite :: "claim_row \<Rightarrow> string \<times> string \<times> string" where
  "cl_invite c = (cl_tenant_id c, cl_host_id c, cl_invite_id c)"

lemmas key_defs = ho_key_def dv_key_def iv_key_def cl_invite_def

section \<open>Integrity\<close>

definition keys_distinct :: "db \<Rightarrow> bool" where
  "keys_distinct d \<longleftrightarrow>
     distinct (map tn_tenant_id (tenants d)) \<and> distinct (map ho_key (hosts d)) \<and>
     distinct (map dv_key (devices d)) \<and> distinct (map iv_key (pairing_invites d)) \<and>
     distinct (map cl_claim_id (pairing_claims d)) \<and>
     distinct (map ch_challenge_id (auth_challenges d)) \<and>
     distinct (map tk_ticket_hash (auth_tickets d))"

definition references_hold :: "db \<Rightarrow> bool" where
  "references_hold d \<longleftrightarrow>
     ho_tenant_id ` set (hosts d) \<subseteq> tn_tenant_id ` set (tenants d) \<and>
     (\<lambda>v. (dv_tenant_id v, dv_host_id v)) ` set (devices d) \<subseteq> ho_key ` set (hosts d) \<and>
     (\<lambda>i. (iv_tenant_id i, iv_host_id i)) ` set (pairing_invites d) \<subseteq> ho_key ` set (hosts d) \<and>
     cl_invite ` set (pairing_claims d) \<subseteq> iv_key ` set (pairing_invites d)"

definition db_inv :: "db \<Rightarrow> bool" where
  "db_inv d \<longleftrightarrow> keys_distinct d \<and> references_hold d"

lemma db_inv_empty [simp]: "db_inv empty_db"
  by (simp add: db_inv_def keys_distinct_def references_hold_def empty_db_def)

lemmas db_inv_defs = db_inv_def keys_distinct_def references_hold_def

section \<open>Inserts\<close>

text \<open>Each \<open>insert\<close> checks the table's primary key and its foreign keys.\<close>

definition insert_tenant :: "tenant_row \<Rightarrow> db \<Rightarrow> (unit \<times> db) option" where
  "insert_tenant r d =
     (if tn_tenant_id r \<in> set (map tn_tenant_id (tenants d)) then None
      else Some ((), d\<lparr>tenants := tenants d @ [r]\<rparr>))"

text \<open>\<open>insert into hosts ... on conflict(tenant_id, host_id) do nothing\<close>: the rows inserted.\<close>

definition insert_host_or_ignore :: "host_row \<Rightarrow> db \<Rightarrow> (nat \<times> db) option" where
  "insert_host_or_ignore r d =
     (if ho_key r \<in> set (map ho_key (hosts d)) then Some (0, d)
      else if ho_tenant_id r \<notin> set (map tn_tenant_id (tenants d)) then None
      else Some (1, d\<lparr>hosts := hosts d @ [r]\<rparr>))"

definition insert_invite :: "invite_row \<Rightarrow> db \<Rightarrow> (unit \<times> db) option" where
  "insert_invite r d =
     (if iv_key r \<in> set (map iv_key (pairing_invites d)) then None
      else if (iv_tenant_id r, iv_host_id r) \<notin> set (map ho_key (hosts d)) then None
      else Some ((), d\<lparr>pairing_invites := pairing_invites d @ [r]\<rparr>))"

definition insert_claim :: "claim_row \<Rightarrow> db \<Rightarrow> (unit \<times> db) option" where
  "insert_claim r d =
     (if cl_claim_id r \<in> set (map cl_claim_id (pairing_claims d)) then None
      else if cl_invite r \<notin> set (map iv_key (pairing_invites d)) then None
      else Some ((), d\<lparr>pairing_claims := pairing_claims d @ [r]\<rparr>))"

definition insert_challenge :: "challenge_row \<Rightarrow> db \<Rightarrow> (unit \<times> db) option" where
  "insert_challenge r d =
     (if ch_challenge_id r \<in> set (map ch_challenge_id (auth_challenges d)) then None
      else Some ((), d\<lparr>auth_challenges := auth_challenges d @ [r]\<rparr>))"

definition insert_ticket :: "ticket_row \<Rightarrow> db \<Rightarrow> (unit \<times> db) option" where
  "insert_ticket r d =
     (if tk_ticket_hash r \<in> set (map tk_ticket_hash (auth_tickets d)) then None
      else Some ((), d\<lparr>auth_tickets := auth_tickets d @ [r]\<rparr>))"

text \<open>\<open>insert into devices ... on conflict(...) do update set ... where ...\<close>: a new row, or the
  update of the row with this key when \<open>ok old\<close> holds; the rows inserted or updated.\<close>

definition upsert_device ::
  "(device_row \<Rightarrow> bool) \<Rightarrow> (device_row \<Rightarrow> device_row) \<Rightarrow> device_row \<Rightarrow> db \<Rightarrow> (nat \<times> db) option" where
  "upsert_device ok upd r d =
     (if dv_key r \<in> set (map dv_key (devices d)) then
        Some (affected (\<lambda>v. dv_key v = dv_key r \<and> ok v) (devices d),
              d\<lparr>devices := update_where (\<lambda>v. dv_key v = dv_key r \<and> ok v) upd (devices d)\<rparr>)
      else if (dv_tenant_id r, dv_host_id r) \<notin> set (map ho_key (hosts d)) then None
      else Some (1, d\<lparr>devices := devices d @ [r]\<rparr>))"

text \<open>Inserts keep the integrity.\<close>

lemma insert_tenant_inv: "insert_tenant r d = Some (u, d') \<Longrightarrow> db_inv d \<Longrightarrow> db_inv d'"
  by (clarsimp simp: insert_tenant_def db_inv_defs subset_insertI2 split: if_splits)

lemma insert_host_inv: "insert_host_or_ignore r d = Some (n, d') \<Longrightarrow> db_inv d \<Longrightarrow> db_inv d'"
  by (clarsimp simp: insert_host_or_ignore_def db_inv_defs subset_insertI2 split: if_splits)

lemma insert_invite_inv: "insert_invite r d = Some (u, d') \<Longrightarrow> db_inv d \<Longrightarrow> db_inv d'"
  by (clarsimp simp: insert_invite_def db_inv_defs subset_insertI2 split: if_splits)

lemma insert_claim_inv: "insert_claim r d = Some (u, d') \<Longrightarrow> db_inv d \<Longrightarrow> db_inv d'"
  by (clarsimp simp: insert_claim_def db_inv_defs subset_insertI2 split: if_splits)

lemma insert_challenge_inv: "insert_challenge r d = Some (u, d') \<Longrightarrow> db_inv d \<Longrightarrow> db_inv d'"
  by (clarsimp simp: insert_challenge_def db_inv_defs subset_insertI2 split: if_splits)

lemma insert_ticket_inv: "insert_ticket r d = Some (u, d') \<Longrightarrow> db_inv d \<Longrightarrow> db_inv d'"
  by (clarsimp simp: insert_ticket_def db_inv_defs subset_insertI2 split: if_splits)

section \<open>Updates\<close>

definition update_tenants :: "(tenant_row \<Rightarrow> bool) \<Rightarrow> (tenant_row \<Rightarrow> tenant_row) \<Rightarrow> db \<Rightarrow> (nat \<times> db) option" where
  "update_tenants P f d = Some (affected P (tenants d), d\<lparr>tenants := update_where P f (tenants d)\<rparr>)"

definition update_hosts :: "(host_row \<Rightarrow> bool) \<Rightarrow> (host_row \<Rightarrow> host_row) \<Rightarrow> db \<Rightarrow> (nat \<times> db) option" where
  "update_hosts P f d = Some (affected P (hosts d), d\<lparr>hosts := update_where P f (hosts d)\<rparr>)"

definition update_devices :: "(device_row \<Rightarrow> bool) \<Rightarrow> (device_row \<Rightarrow> device_row) \<Rightarrow> db \<Rightarrow> (nat \<times> db) option" where
  "update_devices P f d = Some (affected P (devices d), d\<lparr>devices := update_where P f (devices d)\<rparr>)"

definition update_invites :: "(invite_row \<Rightarrow> bool) \<Rightarrow> (invite_row \<Rightarrow> invite_row) \<Rightarrow> db \<Rightarrow> (nat \<times> db) option" where
  "update_invites P f d = Some (affected P (pairing_invites d),
     d\<lparr>pairing_invites := update_where P f (pairing_invites d)\<rparr>)"

definition update_claims :: "(claim_row \<Rightarrow> bool) \<Rightarrow> (claim_row \<Rightarrow> claim_row) \<Rightarrow> db \<Rightarrow> (nat \<times> db) option" where
  "update_claims P f d = Some (affected P (pairing_claims d),
     d\<lparr>pairing_claims := update_where P f (pairing_claims d)\<rparr>)"

definition update_challenges ::
  "(challenge_row \<Rightarrow> bool) \<Rightarrow> (challenge_row \<Rightarrow> challenge_row) \<Rightarrow> db \<Rightarrow> (nat \<times> db) option" where
  "update_challenges P f d = Some (affected P (auth_challenges d),
     d\<lparr>auth_challenges := update_where P f (auth_challenges d)\<rparr>)"

definition update_tickets :: "(ticket_row \<Rightarrow> bool) \<Rightarrow> (ticket_row \<Rightarrow> ticket_row) \<Rightarrow> db \<Rightarrow> (nat \<times> db) option" where
  "update_tickets P f d = Some (affected P (auth_tickets d),
     d\<lparr>auth_tickets := update_where P f (auth_tickets d)\<rparr>)"

lemmas table_update_defs = update_tenants_def update_hosts_def update_devices_def update_invites_def
  update_claims_def update_challenges_def update_tickets_def

text \<open>Updates that leave the key columns alone keep the integrity.\<close>

lemma image_update_where:
  assumes "\<And>r. k (f r) = k r"
  shows "k ` set (update_where P f t) = k ` set t"
  using map_update_where [of P k f t] assms by (metis list.set_map)

lemma map_update_where_key:
  assumes "\<And>r. k (f r) = k r"
  shows "map k (update_where P f t) = map k t"
  by (rule map_update_where) (rule assms)

lemma update_tenants_inv:
  "update_tenants P f d = Some (n, d') \<Longrightarrow> (\<And>r. tn_tenant_id (f r) = tn_tenant_id r) \<Longrightarrow>
   db_inv d \<Longrightarrow> db_inv d'"
  by (clarsimp simp: update_tenants_def db_inv_defs image_update_where map_update_where_key)

lemma update_hosts_inv:
  "update_hosts P f d = Some (n, d') \<Longrightarrow>
   (\<And>r. ho_tenant_id (f r) = ho_tenant_id r \<and> ho_host_id (f r) = ho_host_id r) \<Longrightarrow>
   db_inv d \<Longrightarrow> db_inv d'"
  by (clarsimp simp: update_hosts_def db_inv_defs ho_key_def image_update_where map_update_where_key)

lemma update_devices_inv:
  "update_devices P f d = Some (n, d') \<Longrightarrow>
   (\<And>r. dv_tenant_id (f r) = dv_tenant_id r \<and> dv_host_id (f r) = dv_host_id r \<and>
     dv_device_id (f r) = dv_device_id r) \<Longrightarrow>
   db_inv d \<Longrightarrow> db_inv d'"
  by (clarsimp simp: update_devices_def db_inv_defs dv_key_def image_update_where map_update_where_key)

lemma update_invites_inv:
  "update_invites P f d = Some (n, d') \<Longrightarrow>
   (\<And>r. iv_tenant_id (f r) = iv_tenant_id r \<and> iv_host_id (f r) = iv_host_id r \<and>
     iv_invite_id (f r) = iv_invite_id r) \<Longrightarrow>
   db_inv d \<Longrightarrow> db_inv d'"
  by (clarsimp simp: update_invites_def db_inv_defs iv_key_def image_update_where map_update_where_key)

lemma update_claims_inv:
  "update_claims P f d = Some (n, d') \<Longrightarrow>
   (\<And>r. cl_claim_id (f r) = cl_claim_id r \<and> cl_invite (f r) = cl_invite r) \<Longrightarrow>
   db_inv d \<Longrightarrow> db_inv d'"
  by (clarsimp simp: update_claims_def db_inv_defs image_update_where map_update_where_key)

lemma update_challenges_inv:
  "update_challenges P f d = Some (n, d') \<Longrightarrow> (\<And>r. ch_challenge_id (f r) = ch_challenge_id r) \<Longrightarrow>
   db_inv d \<Longrightarrow> db_inv d'"
  by (clarsimp simp: update_challenges_def db_inv_defs image_update_where map_update_where_key)

lemma update_tickets_inv:
  "update_tickets P f d = Some (n, d') \<Longrightarrow> (\<And>r. tk_ticket_hash (f r) = tk_ticket_hash r) \<Longrightarrow>
   db_inv d \<Longrightarrow> db_inv d'"
  by (clarsimp simp: update_tickets_def db_inv_defs image_update_where map_update_where_key)

lemma upsert_device_inv:
  "upsert_device ok upd r d = Some (n, d') \<Longrightarrow>
   (\<And>v. dv_tenant_id (upd v) = dv_tenant_id v \<and> dv_host_id (upd v) = dv_host_id v \<and>
     dv_device_id (upd v) = dv_device_id v) \<Longrightarrow>
   db_inv d \<Longrightarrow> db_inv d'"
  by (clarsimp simp: upsert_device_def db_inv_defs dv_key_def image_update_where subset_insertI2 map_update_where_key
      split: if_splits)

lemmas store_inv = insert_tenant_inv insert_host_inv insert_invite_inv insert_claim_inv
  insert_challenge_inv insert_ticket_inv update_tenants_inv update_hosts_inv update_devices_inv
  update_invites_inv update_claims_inv update_challenges_inv update_tickets_inv upsert_device_inv

text \<open>Integrity as a contract on steps.\<close>

interpretation inv: tx_order "\<lambda>d d'. db_inv d \<longrightarrow> db_inv d'"
  by unfold_locales auto

section \<open>Conditions several statements share\<close>

definition tenant_enabled :: "db \<Rightarrow> string \<Rightarrow> bool" where
  "tenant_enabled d t = list_ex (\<lambda>r. tn_tenant_id r = t \<and> tn_enabled r = 1) (tenants d)"

definition host_active :: "db \<Rightarrow> string \<Rightarrow> string \<Rightarrow> bool" where
  "host_active d t h = list_ex (\<lambda>r. ho_tenant_id r = t \<and> ho_host_id r = h \<and>
     ho_enabled r = 1 \<and> ho_revoked r = 0) (hosts d)"

end
