(* ===== verification/Base64.thy ===== *)
theory Base64
  imports GoStrings
begin

text \<open>
  Go's \<open>base64.RawURLEncoding\<close>: the URL alphabet, no padding. The decoder skips carriage returns
  and line feeds wherever they stand, also in its \<open>Strict\<close> form, which only asks in addition that
  the unused low bits of the last character are zero. The lemmas give both directions of the round
  trip: decoding an encoding returns the bytes, and a strictly decoded text without line breaks is
  the encoding of the result, so line breaks are the only way two texts can strictly decode to the
  same bytes.
\<close>

definition b64_char :: "nat \<Rightarrow> char" where
  "b64_char n = char_of
     (if n < 26 then n + 65 else if n < 52 then n + 71 else if n < 62 then n - 4
      else if n = 62 then 45 else 95)"

text \<open>The decoding table, \<open>decodeMap\<close> of the Go package.\<close>

definition b64_val :: "char \<Rightarrow> nat option" where
  "b64_val c = (let n = (of_char c :: nat) in
     if 65 \<le> n \<and> n \<le> 90 then Some (n - 65)
     else if 97 \<le> n \<and> n \<le> 122 then Some (n - 71)
     else if 48 \<le> n \<and> n \<le> 57 then Some (n + 4)
     else if n = 45 then Some 62
     else if n = 95 then Some 63
     else None)"

text \<open>Three bytes and four six-bit values are the same 24 bits.\<close>

definition sextet0 :: "char \<Rightarrow> nat" where "sextet0 a = of_char a div 4"
definition sextet1 :: "char \<Rightarrow> char \<Rightarrow> nat" where
  "sextet1 a b = of_char a mod 4 * 16 + of_char b div 16"
definition sextet2 :: "char \<Rightarrow> char \<Rightarrow> nat" where
  "sextet2 b c = of_char b mod 16 * 4 + of_char c div 64"
definition sextet3 :: "char \<Rightarrow> nat" where "sextet3 c = of_char c mod 64"

definition octet0 :: "nat \<Rightarrow> nat \<Rightarrow> char" where "octet0 a b = char_of (a * 4 + b div 16)"
definition octet1 :: "nat \<Rightarrow> nat \<Rightarrow> char" where "octet1 b c = char_of (b mod 16 * 16 + c div 4)"
definition octet2 :: "nat \<Rightarrow> nat \<Rightarrow> char" where "octet2 c d = char_of (c mod 4 * 64 + d)"

fun b64_sextets :: "bytes \<Rightarrow> nat list" where
  "b64_sextets [] = []"
| "b64_sextets [a] = [sextet0 a, sextet1 a (CHR 0x00)]"
| "b64_sextets [a, b] = [sextet0 a, sextet1 a b, sextet2 b (CHR 0x00)]"
| "b64_sextets (a # b # c # r) =
     sextet0 a # sextet1 a b # sextet2 b c # sextet3 c # b64_sextets r"

definition EncodeToString :: "bytes \<Rightarrow> string" where
  "EncodeToString bs = map b64_char (b64_sextets bs)"

fun b64_quanta :: "bool \<Rightarrow> nat list \<Rightarrow> bytes option" where
  "b64_quanta strict [] = Some []"
| "b64_quanta strict [a] = None"
| "b64_quanta strict [a, b] =
     (if strict \<and> octet1 b 0 \<noteq> CHR 0x00 then None else Some [octet0 a b])"
| "b64_quanta strict [a, b, c] =
     (if strict \<and> octet2 c 0 \<noteq> CHR 0x00 then None else Some [octet0 a b, octet1 b c])"
| "b64_quanta strict (a # b # c # d # r) =
     (case b64_quanta strict r of
        None \<Rightarrow> None
      | Some t \<Rightarrow> Some (octet0 a b # octet1 b c # octet2 c d # t))"

fun b64_vals :: "string \<Rightarrow> nat list option" where
  "b64_vals [] = Some []"
| "b64_vals (c # s) =
     (case b64_val c of
        None \<Rightarrow> None
      | Some v \<Rightarrow> (case b64_vals s of None \<Rightarrow> None | Some vs \<Rightarrow> Some (v # vs)))"

definition is_newline :: "char \<Rightarrow> bool" where
  "is_newline c = (c = CHR 0x0A \<or> c = CHR 0x0D)"

definition DecodeString :: "bool \<Rightarrow> string \<Rightarrow> bytes option" where
  "DecodeString strict s =
     (case b64_vals (filter (\<lambda>c. \<not> is_newline c) s) of
        None \<Rightarrow> None
      | Some vs \<Rightarrow> b64_quanta strict vs)"

abbreviation RawURLDecode :: "string \<Rightarrow> bytes option" where
  "RawURLDecode \<equiv> DecodeString False"

abbreviation RawURLStrictDecode :: "string \<Rightarrow> bytes option" where
  "RawURLStrictDecode \<equiv> DecodeString True"

section \<open>The alphabet\<close>

lemma b64_alphabet:
  "map b64_char [0..<64] =
     ''ABCDEFGHIJKLMNOPQRSTUVWXYZabcdefghijklmnopqrstuvwxyz0123456789-_''"
  by code_simp

lemma of_b64_char:
  "n < 64 \<Longrightarrow> (of_char (b64_char n) :: nat) =
     (if n < 26 then n + 65 else if n < 52 then n + 71 else if n < 62 then n - 4
      else if n = 62 then 45 else 95)"
  by (simp add: b64_char_def)

lemma b64_val_char [simp]: "n < 64 \<Longrightarrow> b64_val (b64_char n) = Some n"
  by (auto simp: b64_val_def of_b64_char Let_def)

lemma b64_char_not_newline [simp]: "n < 64 \<Longrightarrow> \<not> is_newline (b64_char n)"
proof -
  assume "n < 64"
  then have "(of_char (b64_char n) :: nat) \<noteq> of_char (CHR 0x0A)"
    and "(of_char (b64_char n) :: nat) \<noteq> of_char (CHR 0x0D)"
    by (auto simp: of_b64_char)
  then show ?thesis by (auto simp: is_newline_def)
qed

lemma b64_char_val:
  assumes "b64_val c = Some v"
  shows "v < 64 \<and> b64_char v = c"
proof -
  let ?n = "of_char c :: nat"
  from assms have "v < 64 \<and> of_char (b64_char v) = ?n"
    by (auto simp: b64_val_def b64_char_def Let_def split: if_splits)
  then show ?thesis by simp
qed

section \<open>Round trips\<close>

lemma of_char_div_less:
  "of_char c div 4 < (64::nat)" "of_char c div 16 < (16::nat)" "of_char c div 64 < (4::nat)"
  using nat_of_char_less_256 [of c] by (simp_all add: less_mult_imp_div_less)

lemma sextet_less [simp]:
  "sextet0 a < 64" "sextet1 a b < 64" "sextet2 b c < 64" "sextet3 c < 64"
proof -
  have "of_char a mod 4 < (4::nat)" "of_char b mod 16 < (16::nat)" by simp_all
  with of_char_div_less [of a] of_char_div_less [of b] of_char_div_less [of c]
  show "sextet0 a < 64" "sextet1 a b < 64" "sextet2 b c < 64" "sextet3 c < 64"
    unfolding sextet0_def sextet1_def sextet2_def sextet3_def by linarith+
qed

lemma octet_sextet [simp]:
  "octet0 (sextet0 a) (sextet1 a b) = a"
  "octet1 (sextet1 a b) (sextet2 b c) = b"
  "octet2 (sextet2 b c) (sextet3 c) = c"
proof -
  have d: "of_char b div 16 < (16::nat)" "of_char c div 64 < (4::nat)"
    using of_char_div_less by blast+
  then have "(of_char a div 4 * 4 + (of_char a mod 4 * 16 + of_char b div 16) div 16 :: nat)
      = of_char a"
    and "((of_char a mod 4 * 16 + of_char b div 16) mod 16 * 16 +
      (of_char b mod 16 * 4 + of_char c div 64) div 4 :: nat) = of_char b"
    and "((of_char b mod 16 * 4 + of_char c div 64) mod 4 * 64 + of_char c mod 64 :: nat)
      = of_char c"
    by simp_all
  then show "octet0 (sextet0 a) (sextet1 a b) = a" "octet1 (sextet1 a b) (sextet2 b c) = b"
    "octet2 (sextet2 b c) (sextet3 c) = c"
    by (simp_all only: octet0_def octet1_def octet2_def sextet0_def sextet1_def sextet2_def
        sextet3_def char_of_char)
qed

lemma sextet_octet:
  assumes "a < 64" "b < 64" "c < 64" "d < 64"
  shows "sextet0 (octet0 a b) = a" "sextet1 (octet0 a b) (octet1 b c) = b"
    "sextet2 (octet1 b c) (octet2 c d) = c" "sextet3 (octet2 c d) = d"
proof -
  have "a * 4 + b div 16 < 256" "b mod 16 * 16 + c div 4 < 256" "c mod 4 * 64 + d < 256"
    using assms by linarith+
  then have n: "of_char (char_of (a * 4 + b div 16) :: char) = a * 4 + b div 16"
    "of_char (char_of (b mod 16 * 16 + c div 4) :: char) = b mod 16 * 16 + c div 4"
    "of_char (char_of (c mod 4 * 64 + d) :: char) = c mod 4 * 64 + d"
    by simp_all
  have s: "b div 16 < 4" "c div 4 < 16" using assms by auto
  have q: "(a * 4 + b div 16) div 4 = a" "(a * 4 + b div 16) mod 4 = b div 16"
    "(b mod 16 * 16 + c div 4) div 16 = b mod 16" "(b mod 16 * 16 + c div 4) mod 16 = c div 4"
    "(c mod 4 * 64 + d) div 64 = c mod 4" "(c mod 4 * 64 + d) mod 64 = d"
    using s assms by auto
  show "sextet0 (octet0 a b) = a" "sextet1 (octet0 a b) (octet1 b c) = b"
    "sextet2 (octet1 b c) (octet2 c d) = c" "sextet3 (octet2 c d) = d"
    unfolding octet0_def octet1_def octet2_def sextet0_def sextet1_def sextet2_def
        sextet3_def n q by simp_all
qed

lemma zero_tails [simp]:
  "octet1 (sextet1 a (CHR 0x00)) 0 = CHR 0x00" "octet2 (sextet2 b (CHR 0x00)) 0 = CHR 0x00"
  using octet_sextet(2) [of a "CHR 0x00" "CHR 0x00"] octet_sextet(3) [of b "CHR 0x00"]
  by (simp_all add: sextet2_def sextet3_def)

lemma b64_sextets_bound: "\<forall>v\<in>set (b64_sextets bs). v < 64"
  by (induction bs rule: b64_sextets.induct) simp_all

lemma b64_vals_map: "\<forall>v\<in>set vs. v < 64 \<Longrightarrow> b64_vals (map b64_char vs) = Some vs"
  by (induction vs) auto

lemma b64_quanta_sextets: "b64_quanta strict (b64_sextets bs) = Some bs"
  by (induction bs rule: b64_sextets.induct) simp_all

theorem DecodeString_EncodeToString: "DecodeString strict (EncodeToString bs) = Some bs"
proof -
  have "filter (\<lambda>c. \<not> is_newline c) (EncodeToString bs) = EncodeToString bs"
    using b64_sextets_bound [of bs] by (auto simp: EncodeToString_def filter_id_conv)
  then show ?thesis
    by (simp add: DecodeString_def EncodeToString_def b64_vals_map b64_sextets_bound
        b64_quanta_sextets)
qed

lemma EncodeToString_no_newline: "c \<in> set (EncodeToString bs) \<Longrightarrow> \<not> is_newline c"
  using b64_sextets_bound [of bs] by (auto simp: EncodeToString_def)

lemma EncodeToString_inj: "EncodeToString a = EncodeToString b \<longleftrightarrow> a = b"
  by (metis DecodeString_EncodeToString option.inject)

lemma b64_vals_chars: "b64_vals s = Some vs \<Longrightarrow> map b64_char vs = s \<and> (\<forall>v\<in>set vs. v < 64)"
proof (induction s arbitrary: vs)
  case Nil
  then show ?case by simp
next
  case (Cons c s)
  then show ?case by (auto split: option.splits dest: b64_char_val)
qed

lemma b64_sextets_quanta:
  assumes "b64_quanta strict vs = Some bs" "strict" "\<forall>v\<in>set vs. v < 64"
  shows "b64_sextets bs = vs"
  using assms
proof (induction strict vs arbitrary: bs rule: b64_quanta.induct)
  case (3 strict a b)
  then show ?case using sextet_octet(1,2) [of a b 0 0] by (auto split: if_splits)
next
  case (4 strict a b c)
  then show ?case using sextet_octet(1,2,3) [of a b c 0] by (auto split: if_splits)
next
  case (5 strict a b c d r)
  from 5 obtain t where "b64_quanta strict r = Some t"
    and bs: "bs = octet0 a b # octet1 b c # octet2 c d # t"
    by (auto split: option.splits)
  with 5 have "b64_sextets t = r" by simp
  with 5(4) bs show ?case using sextet_octet [of a b c d] by simp
qed simp_all

theorem EncodeToString_DecodeString:
  assumes "RawURLStrictDecode s = Some bs"
  shows "EncodeToString bs = filter (\<lambda>c. \<not> is_newline c) s"
proof -
  from assms obtain vs where "b64_vals (filter (\<lambda>c. \<not> is_newline c) s) = Some vs"
    and "b64_quanta True vs = Some bs"
    by (auto simp: DecodeString_def split: option.splits)
  then show ?thesis
    by (auto simp: EncodeToString_def dest!: b64_vals_chars b64_sextets_quanta)
qed

lemma b64_quanta_lenient: "b64_quanta strict vs = Some bs \<Longrightarrow> b64_quanta False vs = Some bs"
proof (induction strict vs arbitrary: bs rule: b64_quanta.induct)
  case (5 strict a b c d r)
  then show ?case by (simp split: option.splits)
qed (simp_all split: if_splits)

lemma strict_imp_lenient: "RawURLStrictDecode s = Some bs \<Longrightarrow> RawURLDecode s = Some bs"
  by (auto simp: DecodeString_def split: option.splits dest: b64_quanta_lenient)

lemma length_sextets:
  "length (b64_sextets bs) = 4 * (length bs div 3) + (if length bs mod 3 = 0 then 0
     else length bs mod 3 + 1)"
proof (induction bs rule: b64_sextets.induct)
  case (4 a b c r)
  have l: "length (a # b # c # r) = length r + 3" by simp
  have "length (a # b # c # r) div 3 = Suc (length r div 3)"
    and "length (a # b # c # r) mod 3 = length r mod 3"
    unfolding l by simp_all
  moreover have "length (b64_sextets (a # b # c # r)) = 4 + length (b64_sextets r)" by simp
  ultimately show ?case using 4 by presburger
qed simp_all

lemma length_EncodeToString:
  "length (EncodeToString bs) = 4 * (length bs div 3) + (if length bs mod 3 = 0 then 0
     else length bs mod 3 + 1)"
  by (simp add: EncodeToString_def length_sextets)

lemma b64_no_char:
  assumes "b64_val c = None"
  shows "c \<notin> set (EncodeToString bs)"
proof
  assume "c \<in> set (EncodeToString bs)"
  then obtain v where "v < 64" "c = b64_char v"
    using b64_sextets_bound [of bs] by (auto simp: EncodeToString_def)
  with assms show False by simp
qed

end
