(* ===== verification/Canonical.thy ===== *)
theory Canonical
  imports Base64 "HOL-Library.Monad_Syntax"
begin

text \<open>
  The canonical transcript encoding and the key and signature decoding of
  \<open>internal/protocol/canonical.go\<close>. Go's \<open>encoding/binary\<close>, \<open>math/big.SetBytes\<close> and
  \<open>elliptic.Unmarshal\<close> for P-256 are modelled by what they compute; SHA-256 and the ECDSA
  verification equation are the record \<open>crypto\<close>, an argument of what uses them. A panic is
  \<open>None\<close>. The locale \<open>field_code\<close> is the contract the transcripts rest on: an encoded field can
  be split off the front of a transcript in one way only.
\<close>

section \<open>Big-endian numbers\<close>

fun be_bytes :: "nat \<Rightarrow> int \<Rightarrow> bytes" where
  "be_bytes 0 n = []"
| "be_bytes (Suc k) n = be_bytes k (n div 256) @ [char_of (n mod 256)]"

text \<open>\<open>big.Int.SetBytes\<close>\<close>

definition be_value :: "bytes \<Rightarrow> int" where
  "be_value bs = foldl (\<lambda>n c. 256 * n + of_char c) 0 bs"

definition PutUint32 :: "32 word \<Rightarrow> bytes" where
  "PutUint32 w = be_bytes 4 (uint w)"

definition PutUint64 :: "64 word \<Rightarrow> bytes" where
  "PutUint64 w = be_bytes 8 (uint w)"

lemma length_be_bytes [simp]: "length (be_bytes k n) = k"
  by (induction k n rule: be_bytes.induct) auto

lemma be_value_be_bytes: "0 \<le> n \<Longrightarrow> n < 256 ^ k \<Longrightarrow> be_value (be_bytes k n) = n"
proof (induction k n rule: be_bytes.induct)
  case (1 n)
  then show ?case by (simp add: be_value_def)
next
  case (2 k n)
  then have "n < 256 * 256 ^ k" by simp
  then have "n div 256 < 256 ^ k" by linarith
  with 2 have "be_value (be_bytes k (n div 256)) = n div 256" by simp
  then show ?case by (simp add: be_value_def)
qed

lemma be_bytes_inj:
  "0 \<le> a \<Longrightarrow> 0 \<le> b \<Longrightarrow> a < 256 ^ k \<Longrightarrow> b < 256 ^ k \<Longrightarrow>
   be_bytes k a = be_bytes k b \<longleftrightarrow> a = b"
  by (metis be_value_be_bytes)

lemma PutUint32_inj: "PutUint32 a = PutUint32 b \<longleftrightarrow> a = b"
proof -
  have "uint a < 256 ^ 4" "uint b < 256 ^ 4"
    using unsigned_less [of a] unsigned_less [of b] by simp_all
  then show ?thesis by (simp add: PutUint32_def be_bytes_inj word_uint_eq_iff)
qed

lemma PutUint64_inj: "PutUint64 a = PutUint64 b \<longleftrightarrow> a = b"
proof -
  have "uint a < 256 ^ 8" "uint b < 256 ^ 8"
    using unsigned_less [of a] unsigned_less [of b] by simp_all
  then show ?thesis by (simp add: PutUint64_def be_bytes_inj word_uint_eq_iff)
qed

lemma length_PutUint [simp]: "length (PutUint32 a) = 4" "length (PutUint64 b) = 8"
  by (simp_all add: PutUint32_def PutUint64_def)

section \<open>Transcript fields\<close>

definition MaxUint32 :: int where
  "MaxUint32 = 4294967295"

definition AppendField :: "bytes \<Rightarrow> bytes \<Rightarrow> bytes option" where
  "AppendField dst val =
     (if int (length val) > MaxUint32 then None
      else Some (dst @ PutUint32 (word_of_nat (length val)) @ val))"

definition AppendString :: "bytes \<Rightarrow> string \<Rightarrow> bytes option" where
  "AppendString dst val = AppendField dst val"

definition AppendInt64 :: "bytes \<Rightarrow> int \<Rightarrow> bytes" where
  "AppendInt64 dst val = dst @ PutUint64 (word_of_int val)"

text \<open>The bytes one field adds, and the fields that can be added.\<close>

definition field_bytes :: "bytes \<Rightarrow> bytes" where
  "field_bytes v = PutUint32 (word_of_nat (length v)) @ v"

definition int64_bytes :: "int \<Rightarrow> bytes" where
  "int64_bytes v = PutUint64 (word_of_int v)"

definition field_fits :: "bytes \<Rightarrow> bool" where
  "field_fits v = (int (length v) \<le> MaxUint32)"

lemma AppendField_eq: "AppendField dst v = (if field_fits v then Some (dst @ field_bytes v) else None)"
  by (simp add: AppendField_def field_fits_def field_bytes_def)

lemma AppendInt64_eq: "AppendInt64 dst v = dst @ int64_bytes v"
  by (simp add: AppendInt64_def int64_bytes_def)

lemmas append_field_simps = AppendField_eq AppendString_def AppendInt64_eq

locale field_code =
  fixes fits :: "'v \<Rightarrow> bool"
    and enc :: "'v \<Rightarrow> bytes"
  assumes split_off: "fits x \<Longrightarrow> fits y \<Longrightarrow> enc x @ r = enc y @ s \<Longrightarrow> x = y \<and> r = s"
begin

lemma cancel: "fits x \<Longrightarrow> fits y \<Longrightarrow> enc x @ r = enc y @ s \<longleftrightarrow> x = y \<and> r = s"
  using split_off by blast

lemma cancel_last: "fits x \<Longrightarrow> fits y \<Longrightarrow> enc x = enc y \<longleftrightarrow> x = y"
  using split_off [of x y "[]" "[]"] by auto

lemma cancel_seq:
  "length xs = length ys \<Longrightarrow> \<forall>x\<in>set xs \<union> set ys. fits x \<Longrightarrow>
   concat (map enc xs) @ r = concat (map enc ys) @ s \<longleftrightarrow> xs = ys \<and> r = s"
proof (induction xs ys rule: list_induct2)
  case Nil
  then show ?case by simp
next
  case (Cons x xs y ys)
  then show ?case by (auto simp: cancel)
qed

end

interpretation fld: field_code field_fits field_bytes
proof
  fix x y r s
  assume x: "field_fits x" and y: "field_fits y"
    and eq: "field_bytes x @ r = field_bytes y @ s"
  let ?w = "\<lambda>v. word_of_nat (length v) :: 32 word"
  from eq have "PutUint32 (?w x) @ (x @ r) = PutUint32 (?w y) @ (y @ s)"
    by (simp add: field_bytes_def)
  then have w: "?w x = ?w y" and rest: "x @ r = y @ s"
    by (simp_all add: PutUint32_inj)
  have "unat (?w x) = length x" "unat (?w y) = length y"
    using x y by (simp_all add: field_fits_def MaxUint32_def unat_of_nat)
  with w have "length x = length y" by metis
  with rest show "x = y \<and> r = s" by simp
qed

interpretation i64: field_code int64_range int64_bytes
proof
  fix x y r s
  assume "int64_range x" "int64_range y" "int64_bytes x @ r = int64_bytes y @ s"
  then show "x = y \<and> r = s"
    by (auto simp: int64_bytes_def PutUint64_inj dest: int64_word_inj)
qed

section \<open>P-256 public keys and signatures\<close>

record crypto =
  sha256 :: "bytes \<Rightarrow> bytes"
  ecdsa_verify :: "int \<times> int \<Rightarrow> bytes \<Rightarrow> int \<Rightarrow> int \<Rightarrow> bool"

definition p256_p :: int where
  "p256_p = 2 ^ 256 - 2 ^ 224 + 2 ^ 192 + 2 ^ 96 - 1"

definition p256_b :: int where
  "p256_b = 0x5ac635d8aa3a93e7b3ebbd55769886bc651d06b0cc53b0f63bce3c3e27d2604b"

text \<open>The curve equation of P-256, as \<open>elliptic.Unmarshal\<close> checks it after the range of the
  coordinates.\<close>

definition IsOnCurve :: "int \<Rightarrow> int \<Rightarrow> bool" where
  "IsOnCurve x y = ((y * y + 3 * x) mod p256_p = (x * x * x + p256_b) mod p256_p)"

definition Unmarshal :: "bytes \<Rightarrow> (int \<times> int) option" where
  "Unmarshal data =
     (if length data \<noteq> 65 \<or> hd data \<noteq> CHR 0x04 then None
      else let x = be_value (take 32 (drop 1 data)); y = be_value (drop 33 data) in
        if x \<ge> p256_p \<or> y \<ge> p256_p \<or> \<not> IsOnCurve x y then None else Some (x, y))"

definition DecodeSEC1PublicKey :: "string \<Rightarrow> (int \<times> int) result" where
  "DecodeSEC1PublicKey val =
     (case RawURLDecode val of
        None \<Rightarrow> Inl ''decode SEC1 public key''
      | Some encoded \<Rightarrow>
          if length encoded \<noteq> 65 \<or> hd encoded \<noteq> CHR 0x04
          then Inl ''SEC1 public key must be 65-byte uncompressed P-256''
          else case Unmarshal encoded of
                 None \<Rightarrow> Inl ''SEC1 public key is not a valid P-256 point''
               | Some k \<Rightarrow> Inr k)"

definition VerifyRawSignature :: "crypto \<Rightarrow> (int \<times> int) option \<Rightarrow> bytes \<Rightarrow> string \<Rightarrow> bool" where
  "VerifyRawSignature cr key transcript signature =
     (case key of
        None \<Rightarrow> False
      | Some k \<Rightarrow>
          (case RawURLDecode signature of
             None \<Rightarrow> False
           | Some encoded \<Rightarrow>
               length encoded = 64 \<and>
               ecdsa_verify cr k (sha256 cr transcript)
                 (be_value (take 32 encoded)) (be_value (drop 32 encoded))))"

lemma Unmarshal_ok:
  assumes "Unmarshal bs = Some k"
  shows "length bs = 65" "hd bs = CHR 0x04" "IsOnCurve (fst k) (snd k)" "fst k < p256_p"
    "snd k < p256_p"
  using assms unfolding Unmarshal_def Let_def by (simp_all split: if_split_asm) force+

lemma DecodeSEC1PublicKey_ok:
  assumes "DecodeSEC1PublicKey v = Inr k"
  shows "\<exists>bs. RawURLDecode v = Some bs \<and> Unmarshal bs = Some k"
  using assms unfolding DecodeSEC1PublicKey_def
  by (simp split: option.split_asm if_split_asm)

lemma VerifyRawSignature_len:
  "VerifyRawSignature cr (Some k) t s \<Longrightarrow> \<exists>bs. RawURLDecode s = Some bs \<and> length bs = 64"
  by (auto simp: VerifyRawSignature_def split: option.splits)

end
