(* ===== verification/Security.thy ===== *)
theory Security
  imports Canonical
begin

text \<open>
  Secrets, log redaction and the relay's signing identity (\<open>internal/security/secrets.go\<close>,
  \<open>relay_identity.go\<close>). \<open>crypto/rand.Read\<close> is an argument: the bytes it fills a buffer of the
  given size with, or its error. The identity's private key stays abstract: a signer is its public
  point and its signing function. The lemmas show that a hashed secret verifies against itself and,
  when SHA-256 does not collide on the two salted texts, against nothing else.
\<close>

type_synonym rand = "nat \<Rightarrow> bytes option"

text \<open>The documented contract of \<open>rand.Read\<close>: it fills the whole buffer.\<close>

definition rand_fills :: "rand \<Rightarrow> bool" where
  "rand_fills rnd \<longleftrightarrow> (\<forall>n bs. rnd n = Some bs \<longrightarrow> length bs = n)"

section \<open>Secrets\<close>

definition GenerateToken :: "rand \<Rightarrow> int \<Rightarrow> string result" where
  "GenerateToken rnd byteCount =
     (let n = (if byteCount < 16 then 16 else byteCount) in
      case rnd (nat n) of
        None \<Rightarrow> Inl ''rand''
      | Some buffer \<Rightarrow> Inr (EncodeToString buffer))"

definition HashSecret :: "crypto \<Rightarrow> rand \<Rightarrow> string \<Rightarrow> string result" where
  "HashSecret cr rnd secret =
     (if TrimSpace secret = [] then Inl ''secret cannot be empty''
      else case GenerateToken rnd 16 of
             Inl e \<Rightarrow> Inl e
           | Inr salt \<Rightarrow>
               Inr (''sha256:'' @ salt @ '':'' @ EncodeToString (sha256 cr (salt @ '':'' @ secret))))"

definition VerifySecret :: "crypto \<Rightarrow> string \<Rightarrow> string \<Rightarrow> bool" where
  "VerifySecret cr hash secret =
     (case Split (CHR '':'') hash of
        [p0, p1, p2] \<Rightarrow>
          p0 = ''sha256'' \<and> p2 = EncodeToString (sha256 cr (p1 @ '':'' @ secret))
      | _ \<Rightarrow> False)"

lemma b64_no_colon: "CHR '':'' \<notin> set (EncodeToString bs)"
  by (rule b64_no_char) (simp add: b64_val_def)

lemma GenerateToken_shape:
  "GenerateToken rnd n = Inr t \<Longrightarrow> \<exists>bs. rnd (nat (max 16 n)) = Some bs \<and> t = EncodeToString bs"
  by (auto simp: GenerateToken_def Let_def max_def split: option.splits if_splits)

lemma GenerateToken_nonblank:
  assumes "GenerateToken rnd n = Inr t" "rand_fills rnd"
  shows "t \<noteq> []"
proof -
  from assms(1) obtain bs where bs: "rnd (nat (max 16 n)) = Some bs" "t = EncodeToString bs"
    by (blast dest: GenerateToken_shape)
  with assms(2) have "length bs = nat (max 16 n)" by (auto simp: rand_fills_def)
  then have "length bs \<ge> 3" by simp
  then show ?thesis using bs by (cases bs rule: b64_sextets.cases) (auto simp: EncodeToString_def)
qed

text \<open>The stored form of a secret splits into its three parts.\<close>

lemma HashSecret_split:
  assumes "HashSecret cr rnd secret = Inr h"
  obtains salt where "Split (CHR '':'') h =
      [''sha256'', EncodeToString salt,
       EncodeToString (sha256 cr (EncodeToString salt @ '':'' @ secret))]"
proof -
  from assms obtain t where t: "GenerateToken rnd 16 = Inr t"
    and h: "h = ''sha256:'' @ t @ '':'' @ EncodeToString (sha256 cr (t @ '':'' @ secret))"
    by (auto simp: HashSecret_def split: sum.splits if_splits)
  from t obtain salt where s: "t = EncodeToString salt"
    by (blast dest: GenerateToken_shape)
  have "h = ''sha256'' @ CHR '':'' # (t @ CHR '':'' # EncodeToString (sha256 cr (t @ '':'' @ secret)))"
    by (simp add: h)
  then have "Split (CHR '':'') h = [''sha256'', t, EncodeToString (sha256 cr (t @ '':'' @ secret))]"
    by (simp only: Split_append_sep [of "CHR '':''" "''sha256''"] s b64_no_colon Split_append_sep
        Split_no_sep) (simp add: Split_append_sep Split_no_sep b64_no_colon)
  with s show thesis by (intro that) simp
qed

lemma VerifySecret_HashSecret:
  "HashSecret cr rnd secret = Inr h \<Longrightarrow> VerifySecret cr h secret"
  by (elim HashSecret_split) (simp add: VerifySecret_def)

lemma VerifySecret_other:
  assumes "HashSecret cr rnd secret = Inr h" "VerifySecret cr h guess"
  shows "\<exists>salt. sha256 cr (salt @ '':'' @ guess) = sha256 cr (salt @ '':'' @ secret)"
  using assms(1)
  by (rule HashSecret_split)
    (use assms(2) in \<open>simp add: VerifySecret_def EncodeToString_inj, metis\<close>)

section \<open>The relay's identity\<close>

record relay_identity =
  PublicKeyBase64URL :: string
  FingerprintBase64URL :: string

record signer =
  sg_public :: bytes
  sg_sign :: "bytes \<Rightarrow> bytes option"

definition Public :: "crypto \<Rightarrow> signer \<Rightarrow> relay_identity" where
  "Public cr s = \<lparr>PublicKeyBase64URL = EncodeToString (sg_public s),
     FingerprintBase64URL = EncodeToString (sha256 cr (sg_public s))\<rparr>"

definition Sign :: "crypto \<Rightarrow> signer \<Rightarrow> bytes \<Rightarrow> string result" where
  "Sign cr s transcript =
     (case sg_sign s (sha256 cr transcript) of
        None \<Rightarrow> Inl ''sign relay transcript''
      | Some signature \<Rightarrow> Inr (EncodeToString signature))"

section \<open>Redaction\<close>

text \<open>
  \<open>(?i)(tenantSecret|oneTimePairingToken|deviceToken|payload)=\S+\<close>. Under \<open>(?i)\<close> a letter matches
  its Unicode case variants, so \<open>k\<close> also matches the Kelvin sign and \<open>s\<close> the long s.
\<close>

definition case_variants :: "char \<Rightarrow> string list" where
  "case_variants l =
     (if l = CHR ''k'' then [[CHR 0xE2, CHR 0x84, CHR 0xAA]]
      else if l = CHR ''s'' then [[CHR 0xC5, CHR 0xBF]] else [])"

text \<open>Matches a word given in lower case: the text matched and the rest.\<close>

fun match_fold :: "string \<Rightarrow> string \<Rightarrow> (string \<times> string) option" where
  "match_fold [] s = Some ([], s)"
| "match_fold (l # ls) s =
     (let n = (if s \<noteq> [] \<and> lower (hd s) = l then 1
               else case find (HasPrefix s) (case_variants l) of None \<Rightarrow> 0 | Some v \<Rightarrow> length v) in
      if n = 0 then None
      else case match_fold ls (drop n s) of
             None \<Rightarrow> None
           | Some (m, r) \<Rightarrow> Some (take n s @ m, r))"

definition redact_keys :: "string list" where
  "redact_keys = [''tenantsecret'', ''onetimepairingtoken'', ''devicetoken'', ''payload'']"

definition re_space :: "char \<Rightarrow> bool" where
  "re_space c = (c \<in> {CHR 0x09, CHR 0x0A, CHR 0x0C, CHR 0x0D, CHR 0x20})"

definition redact_at :: "string \<Rightarrow> (string \<times> string) option" where
  "redact_at s =
     (case find (\<lambda>m. m \<noteq> None) (map (\<lambda>k. match_fold (k @ ''='') s) redact_keys) of
        Some (Some (m, r)) \<Rightarrow>
          if takeWhile (\<lambda>c. \<not> re_space c) r = [] then None
          else Some (m, dropWhile (\<lambda>c. \<not> re_space c) r)
      | _ \<Rightarrow> None)"

lemma match_fold_split: "match_fold ls s = Some (m, r) \<Longrightarrow> s = m @ r"
proof (induction ls s arbitrary: m r rule: match_fold.induct)
  case (2 l ls s)
  then show ?case
    by (auto simp: Let_def split: option.splits if_splits)
      (metis append_assoc append_take_drop_id | force)+
qed simp

lemma redact_at_shorter: "redact_at s = Some (m, r) \<Longrightarrow> length r < length s"
proof -
  assume "redact_at s = Some (m, r)"
  then obtain q k where f: "match_fold (k @ ''='') s = Some (m, q)"
    and n: "takeWhile (\<lambda>c. \<not> re_space c) q \<noteq> []" and r: "r = dropWhile (\<lambda>c. \<not> re_space c) q"
    by (auto simp: redact_at_def split: option.splits if_splits prod.splits dest!: find_Some_in)
      (metis option.inject prod.inject)
  have "length q = length (takeWhile (\<lambda>c. \<not> re_space c) q) + length r"
    unfolding r by (metis length_append takeWhile_dropWhile_id)
  with n have "length r < length q" by (cases "takeWhile (\<lambda>c. \<not> re_space c) q") auto
  with match_fold_split [OF f] show ?thesis by simp
qed

function Redact :: "string \<Rightarrow> string" where
  "Redact s =
     (case redact_at s of
        Some (m, r) \<Rightarrow> m @ ''<redacted>'' @ Redact r
      | None \<Rightarrow> (case s of [] \<Rightarrow> [] | c # t \<Rightarrow> c # Redact t))"
  by pat_completeness auto
termination
  by (relation "measure length") (auto dest: redact_at_shorter)

declare Redact.simps [simp del]

end
