(* ===== verification/GoTime.thy ===== *)
theory GoTime
  imports GoStrings
begin

text \<open>
  What the relay uses of Go's package \<open>time\<close>. An instant is its distance from the Unix epoch in
  nanoseconds, a duration a number of nanoseconds; both as unbounded integers (\<open>Time.Sub\<close>
  saturates, which no comparison of the relay can tell from the exact difference). The layout
  \<open>RFC3339Nano\<close> is written out for UTC, as the relay formats its timestamps; the parser reads the
  texts of that form.
\<close>

definition Millisecond :: int where "Millisecond = 1000000"
definition Second :: int where "Second = 1000000000"
definition Minute :: int where "Minute = 60 * Second"

text \<open>\<open>time.UnixMilli\<close> and \<open>Time.UnixMilli\<close>\<close>

definition from_UnixMilli :: "int \<Rightarrow> int" where
  "from_UnixMilli ms = ms * Millisecond"

definition UnixMilli :: "int \<Rightarrow> int" where
  "UnixMilli t = t div Millisecond"

lemma UnixMilli_from [simp]: "UnixMilli (from_UnixMilli ms) = ms"
  by (simp add: UnixMilli_def from_UnixMilli_def Millisecond_def)

lemma UnixMilli_mono: "s \<le> t \<Longrightarrow> UnixMilli s \<le> UnixMilli t"
  by (simp add: UnixMilli_def Millisecond_def zdiv_mono1)

lemma UnixMilli_add_ms: "UnixMilli (t + ms * Millisecond) = UnixMilli t + ms"
  by (simp add: UnixMilli_def Millisecond_def)

section \<open>The proleptic Gregorian calendar\<close>

definition civil_from_days :: "int \<Rightarrow> int \<times> int \<times> int" where
  "civil_from_days day =
     (let z = day + 719468; era = z div 146097; doe = z mod 146097;
          yoe = (doe - doe div 1460 + doe div 36524 - doe div 146096) div 365;
          doy = doe - (365 * yoe + yoe div 4 - yoe div 100);
          mp = (5 * doy + 2) div 153;
          d = doy - (153 * mp + 2) div 5 + 1;
          m = (if mp < 10 then mp + 3 else mp - 9)
      in (yoe + era * 400 + (if m \<le> 2 then 1 else 0), m, d))"

definition days_from_civil :: "int \<Rightarrow> int \<Rightarrow> int \<Rightarrow> int" where
  "days_from_civil y m d =
     (let y' = (if m \<le> 2 then y - 1 else y); era = y' div 400; yoe = y' mod 400;
          doy = (153 * (if m > 2 then m - 3 else m + 9) + 2) div 5 + d - 1;
          doe = yoe * 365 + yoe div 4 - yoe div 100 + doy
      in era * 146097 + doe - 719468)"

section \<open>RFC3339Nano\<close>

definition pad :: "nat \<Rightarrow> int \<Rightarrow> string" where
  "pad w n = (let s = decimal n in replicate (w - length s) (CHR ''0'') @ s)"

text \<open>The layout's \<open>.999999999\<close>: the fraction without trailing zeros, nothing when it is zero.\<close>

definition fraction :: "int \<Rightarrow> string" where
  "fraction ns =
     (let s = rev (dropWhile (\<lambda>c. c = CHR ''0'') (rev (pad 9 ns)))
      in if s = [] then [] else CHR ''.'' # s)"

definition RFC3339Nano :: "int \<Rightarrow> string" where
  "RFC3339Nano t =
     (let sec = t div Second; sod = sec mod 86400; (y, m, d) = civil_from_days (sec div 86400)
      in pad 4 y @ ''-'' @ pad 2 m @ ''-'' @ pad 2 d @ ''T'' @
         pad 2 (sod div 3600) @ '':'' @ pad 2 (sod div 60 mod 60) @ '':'' @ pad 2 (sod mod 60) @
         fraction (t mod Second) @ ''Z'')"

text \<open>\<open>time.Parse(time.RFC3339Nano, s)\<close> with the error dropped, as the relay calls it: the zero
  time, January 1 of year 1, for a text that is not of the form.\<close>

definition zero_time :: int where
  "zero_time = days_from_civil 1 1 1 * 86400 * Second"

definition parse_fraction :: "string \<Rightarrow> int option" where
  "parse_fraction r =
     (if r = ''Z'' then Some 0
      else if r \<noteq> [] \<and> hd r = CHR ''.'' \<and> last r = CHR ''Z'' \<and> 2 < length r then
        (let ds = butlast (tl r) in
          if list_all is_digit ds then Some (digits_value (take 9 (ds @ replicate 9 (CHR ''0''))))
          else None)
      else None)"

definition parse_RFC3339Nano :: "string \<Rightarrow> int" where
  "parse_RFC3339Nano s =
     (let num = (\<lambda>i w. digits_value (take w (drop i s))) in
      if length s \<ge> 20 \<and> s ! 4 = CHR ''-'' \<and> s ! 7 = CHR ''-'' \<and> s ! 10 = CHR ''T'' \<and>
         s ! 13 = CHR '':'' \<and> s ! 16 = CHR '':'' \<and>
         list_all is_digit (take 4 s @ take 2 (drop 5 s) @ take 2 (drop 8 s) @
           take 2 (drop 11 s) @ take 2 (drop 14 s) @ take 2 (drop 17 s))
      then (case parse_fraction (drop 19 s) of
              None \<Rightarrow> zero_time
            | Some ns \<Rightarrow>
                ((days_from_civil (num 0 4) (num 5 2) (num 8 2) * 24 + num 11 2) * 60 + num 14 2) * 60
                  * Second + num 17 2 * Second + ns)
      else zero_time)"

lemma RFC3339Nano_example: "RFC3339Nano 1700000000120000000 = ''2023-11-14T22:13:20.12Z''"
  by code_simp

lemma parse_RFC3339Nano_example: "parse_RFC3339Nano ''2023-11-14T22:13:20.12Z'' = 1700000000120000000"
  by code_simp

end
