(* ===== verification/Tenant.thy ===== *)
theory Tenant
  imports Store Security GoTime "HOL-Library.Char_ord" "HOL-Library.List_Lexorder"
    "HOL-Library.Product_Lexorder"
begin

text \<open>
  The tenant service (\<open>internal/tenant/service.go\<close>): creating a tenant with a random identifier
  and secret, reading, listing, enabling and disabling tenants, replacing their secret. The lemmas
  show that the secret \<open>Create\<close> and \<open>RotateSecret\<close> return is the one \<open>VerifySecretHash\<close>
  accepts afterwards, what each operation leaves alone, and that identifiers are 36 characters of
  hexadecimal digits and dashes.
\<close>

unbundle bit_operations_syntax

record tenant =
  TenantID :: string
  DisplayName :: string
  Enabled :: bool
  SecretHash :: string
  CreatedAt :: int

definition VerifySecretHash :: "crypto \<Rightarrow> string \<Rightarrow> string \<Rightarrow> bool" where
  "VerifySecretHash cr hash secret = VerifySecret cr hash secret"

text \<open>The verb \<open>%x\<close> on a byte slice, and the version 4 UUID text.\<close>

definition hex_digit :: "int \<Rightarrow> char" where
  "hex_digit n = char_of (if n < 10 then n + 48 else n + 87)"

definition hex :: "bytes \<Rightarrow> string" where
  "hex bs = concat (map (\<lambda>b. [hex_digit (of_char b div 16), hex_digit (of_char b mod 16)]) bs)"

definition tenant_uuid :: "bytes \<Rightarrow> string" where
  "tenant_uuid raw =
     (let u6 = raw[6 := char_of (((of_char (raw ! 6) :: int) AND 0x0f) OR 0x40)];
          u = u6[8 := char_of (((of_char (u6 ! 8) :: int) AND 0x3f) OR 0x80)]
      in hex (take 4 u) @ ''-'' @ hex (take 2 (drop 4 u)) @ ''-'' @ hex (take 2 (drop 6 u)) @ ''-'' @
         hex (take 2 (drop 8 u)) @ ''-'' @ hex (take 6 (drop 10 u)))"

definition tenant_of_row :: "tenant_row \<Rightarrow> tenant" where
  "tenant_of_row r = \<lparr>TenantID = tn_tenant_id r, DisplayName = tn_display_name r,
     Enabled = (tn_enabled r \<noteq> 0), SecretHash = tn_secret_hash r,
     CreatedAt = parse_RFC3339Nano (tn_created_at r)\<rparr>"

text \<open>The three random sources are those of the UUID, of the secret and of the hash's salt.\<close>

definition Create ::
  "crypto \<Rightarrow> rand \<Rightarrow> rand \<Rightarrow> rand \<Rightarrow> int \<Rightarrow> faults \<Rightarrow> string \<Rightarrow> (db, tenant \<times> string) tx" where
  "Create cr rnd_id rnd_secret rnd_salt now flt displayName =
     (let name = TrimSpace displayName in
      tx_guard (name \<noteq> []) ''display name cannot be empty''
        (tx_bind (tx_some ''rand'' (rnd_id 16)) (\<lambda>raw.
         let tenantID = tenant_uuid raw in
         tx_bind (tx_lift (GenerateToken rnd_secret 32)) (\<lambda>secret.
         tx_bind (tx_lift (HashSecret cr rnd_salt secret)) (\<lambda>hash.
         tx_bind (tx_call (flt 0) ''sql'' (tx_exec ''constraint failed''
            (insert_tenant \<lparr>tn_tenant_id = tenantID, tn_display_name = name,
               tn_enabled = 1, tn_secret_hash = hash, tn_created_at = RFC3339Nano now\<rparr>))) (\<lambda>_.
         tx_ret (\<lparr>TenantID = tenantID, DisplayName = name, Enabled = True,
            SecretHash = hash, CreatedAt = now\<rparr>, secret)))))))"

definition GetTenant :: "faults \<Rightarrow> string \<Rightarrow> (db, tenant) tx" where
  "GetTenant flt tenantID =
     tx_bind (tx_call (flt 0) ''sql'' (tx_query (\<lambda>d. find (\<lambda>r. tn_tenant_id r = tenantID) (tenants d))))
       (\<lambda>row. tx_bind (tx_some ''tenant_not_found'' row) (\<lambda>r. tx_ret (tenant_of_row r)))"

definition ListTenants :: "faults \<Rightarrow> (db, tenant list) tx" where
  "ListTenants flt =
     tx_call (flt 0) ''sql''
       (tx_query (\<lambda>d. map tenant_of_row
          (sort_key (\<lambda>r. (tn_created_at r, tn_tenant_id r)) (tenants d))))"

definition SetEnabled :: "faults \<Rightarrow> string \<Rightarrow> bool \<Rightarrow> (db, unit) tx" where
  "SetEnabled flt tenantID enabled =
     (let val = (if enabled then 1 else 0) in
      tx_bind (tx_call (flt 0) ''sql''
          (tx_exec ''sql'' (update_tenants (\<lambda>r. tn_tenant_id r = tenantID) (\<lambda>r. r\<lparr>tn_enabled := val\<rparr>))))
        (\<lambda>rows. tx_call (flt 1) ''sql''
          (tx_guard (rows \<noteq> 0) ''tenant_not_found'' (tx_ret ()))))"

definition RotateSecret ::
  "crypto \<Rightarrow> rand \<Rightarrow> rand \<Rightarrow> faults \<Rightarrow> string \<Rightarrow> (db, string) tx" where
  "RotateSecret cr rnd_secret rnd_salt flt tenantID =
     tx_bind (tx_lift (GenerateToken rnd_secret 32)) (\<lambda>secret.
     tx_bind (tx_lift (HashSecret cr rnd_salt secret)) (\<lambda>hash.
     tx_bind (tx_call (flt 0) ''sql''
         (tx_exec ''sql'' (update_tenants (\<lambda>r. tn_tenant_id r = tenantID)
            (\<lambda>r. r\<lparr>tn_secret_hash := hash\<rparr>)))) (\<lambda>rows.
     tx_call (flt 1) ''sql'' (tx_guard (rows \<noteq> 0) ''tenant_not_found'' (tx_ret secret)))))"

lemmas tenant_defs = Create_def GetTenant_def ListTenants_def SetEnabled_def RotateSecret_def

section \<open>Identifiers\<close>

definition is_hex :: "char \<Rightarrow> bool" where
  "is_hex c = (is_digit c \<or> 97 \<le> (of_char c :: int) \<and> (of_char c :: int) \<le> 102)"

lemma is_hex_digit: "0 \<le> n \<Longrightarrow> n < 16 \<Longrightarrow> is_hex (hex_digit n)"
  by (simp add: is_hex_def is_digit_def hex_digit_def)

lemma hex_chars: "c \<in> set (hex bs) \<Longrightarrow> is_hex c"
proof -
  have "is_hex (hex_digit (of_char b div 16))" "is_hex (hex_digit (of_char b mod 16))" for b :: char
  proof -
    have "0 \<le> (of_char b :: int)" "(of_char b :: int) < 256" by simp_all
    then show "is_hex (hex_digit (of_char b div 16))" "is_hex (hex_digit (of_char b mod 16))"
      by (intro is_hex_digit; linarith)+
  qed
  then show "c \<in> set (hex bs) \<Longrightarrow> is_hex c" by (auto simp: hex_def)
qed

lemma length_hex: "length (hex bs) = 2 * length bs"
  by (induction bs) (simp_all add: hex_def)

lemma tenant_uuid_chars: "c \<in> set (tenant_uuid raw) \<Longrightarrow> is_hex c \<or> c = CHR ''-''"
  unfolding tenant_uuid_def Let_def by (simp del: set_take_subset) (metis hex_chars)

lemma tenant_uuid_no_slash: "CHR ''/'' \<notin> set (tenant_uuid raw)"
  using tenant_uuid_chars [of "CHR ''/''" raw] by (auto simp: is_hex_def is_digit_def)

lemma length_tenant_uuid: "length raw = 16 \<Longrightarrow> length (tenant_uuid raw) = 36"
  by (simp add: tenant_uuid_def Let_def length_hex)

section \<open>What the operations do\<close>

lemma Create_result:
  assumes "Create cr r1 r2 r3 now flt name d = (Inr (t, secret), d')"
  obtains raw hash where "r1 16 = Some raw" "HashSecret cr r3 secret = Inr hash"
    "TrimSpace name \<noteq> []" "GenerateToken r2 32 = Inr secret"
    "t = \<lparr>TenantID = tenant_uuid raw, DisplayName = TrimSpace name, Enabled = True,
      SecretHash = hash, CreatedAt = now\<rparr>"
    "insert_tenant \<lparr>tn_tenant_id = tenant_uuid raw, tn_display_name = TrimSpace name,
       tn_enabled = 1, tn_secret_hash = hash, tn_created_at = RFC3339Nano now\<rparr> d = Some ((), d')"
  using assms by (auto simp: Create_def Let_def tx_inv)

lemma Create_error_state: "Create cr r1 r2 r3 now flt name d = (Inl e, d') \<Longrightarrow> d' = d"
  by (auto simp: Create_def Let_def tx_inv tx_err)

lemma GetTenant_ok:
  "GetTenant flt tid d = (Inr t, d') \<longleftrightarrow>
   \<not> flt 0 \<and> d' = d \<and> (\<exists>r. find (\<lambda>r. tn_tenant_id r = tid) (tenants d) = Some r \<and> t = tenant_of_row r)"
  by (auto simp: GetTenant_def tx_inv)

lemma GetTenant_state: "GetTenant flt tid d = (res, d') \<Longrightarrow> d' = d"
  by (auto simp: GetTenant_def tx_simps split: option.splits if_splits)

lemma find_key_snoc:
  "k r \<notin> k ` set t \<Longrightarrow> find (\<lambda>q. k q = k r) (t @ [r]) = Some r"
  by (induction t) auto

lemma update_tenants_Some [tx_inv]:
  "update_tenants P f d = Some (n, d') \<longleftrightarrow>
   n = affected P (tenants d) \<and> d' = d\<lparr>tenants := update_where P f (tenants d)\<rparr>"
  by (auto simp: update_tenants_def)

lemma affected_key_image: "0 < affected (\<lambda>r. k r = x) t \<longleftrightarrow> x \<in> k ` set t"
  by auto

lemma SetEnabled_ok:
  "SetEnabled flt tid en d = (Inr u, d') \<longleftrightarrow>
   \<not> flt 0 \<and> \<not> flt 1 \<and> tid \<in> tn_tenant_id ` set (tenants d) \<and>
   d' = d\<lparr>tenants := update_where (\<lambda>r. tn_tenant_id r = tid)
     (\<lambda>r. r\<lparr>tn_enabled := if en then 1 else 0\<rparr>) (tenants d)\<rparr>"
  by (auto simp: SetEnabled_def Let_def tx_inv)

lemma RotateSecret_ok:
  "RotateSecret cr r1 r2 flt tid d = (Inr secret, d') \<longleftrightarrow>
   \<not> flt 0 \<and> \<not> flt 1 \<and> tid \<in> tn_tenant_id ` set (tenants d) \<and> GenerateToken r1 32 = Inr secret \<and>
   (\<exists>hash. HashSecret cr r2 secret = Inr hash \<and>
     d' = d\<lparr>tenants := update_where (\<lambda>r. tn_tenant_id r = tid)
       (\<lambda>r. r\<lparr>tn_secret_hash := hash\<rparr>) (tenants d)\<rparr>)"
  by (auto simp: RotateSecret_def tx_inv)

text \<open>Every run keeps the integrity of the store.\<close>

lemma tenant_ops_inv:
  "inv.obeys (Create cr r1 r2 r3 now flt name)" "inv.obeys (GetTenant flt tid)"
  "inv.obeys (ListTenants flt)" "inv.obeys (SetEnabled flt tid en)"
  "inv.obeys (RotateSecret cr r1 r2 flt tid)"
  unfolding tenant_defs Let_def
  by (intro inv.obeys_rules; auto elim!: store_inv)+

text \<open>
  C9: A created tenant can be used at once: it is stored under a fresh 36-character identifier,
  reading it back gives the trimmed display name and the enabled flag, and the secret handed out is
  accepted by the stored hash; the other tenants are untouched.
\<close>

theorem Create_then_use:
  assumes "Create cr r1 r2 r3 now flt name d = (Inr (t, secret), d')" "rand_fills r1"
  shows "length (TenantID t) = 36 \<and> TenantID t \<notin> tn_tenant_id ` set (tenants d) \<and>
    (\<exists>t'. GetTenant no_faults (TenantID t) d' = (Inr t', d') \<and> DisplayName t' = TrimSpace name \<and>
      Enabled t' \<and> VerifySecretHash cr (SecretHash t') secret) \<and>
    (\<forall>tid. tid \<noteq> TenantID t \<longrightarrow> fst (GetTenant no_faults tid d') = fst (GetTenant no_faults tid d))"
  using assms(1)
proof (rule Create_result)
  fix raw hash
  let ?r = "\<lparr>tn_tenant_id = tenant_uuid raw, tn_display_name = TrimSpace name, tn_enabled = 1,
       tn_secret_hash = hash, tn_created_at = RFC3339Nano now\<rparr>"
  assume raw: "r1 16 = Some raw" and hash: "HashSecret cr r3 secret = Inr hash"
    and t: "t = \<lparr>TenantID = tenant_uuid raw, DisplayName = TrimSpace name, Enabled = True,
      SecretHash = hash, CreatedAt = now\<rparr>"
    and ins: "insert_tenant ?r d = Some ((), d')"
  have "length raw = 16" using raw assms(2) by (auto simp: rand_fills_def)
  then have len: "length (TenantID t) = 36" by (simp add: t length_tenant_uuid)
  have new: "tn_tenant_id ?r \<notin> tn_tenant_id ` set (tenants d)" and d': "tenants d' = tenants d @ [?r]"
    using ins by (auto simp: insert_tenant_def split: if_splits)
  have "find (\<lambda>q. tn_tenant_id q = tenant_uuid raw) (tenants d') = Some ?r"
    using find_key_snoc [OF new] by (simp add: d')
  then have get: "GetTenant no_faults (TenantID t) d' = (Inr (tenant_of_row ?r), d')"
    by (simp add: GetTenant_ok t)
  have "find (\<lambda>q. tn_tenant_id q = tid) (tenants d') = find (\<lambda>q. tn_tenant_id q = tid) (tenants d)"
    if "tid \<noteq> TenantID t" for tid
    using that by (simp add: d' t find_append_other)
  then have "fst (GetTenant no_faults tid d') = fst (GetTenant no_faults tid d)"
    if "tid \<noteq> TenantID t" for tid
    using that by (simp add: GetTenant_def tx_simps split: option.splits)
  with len new get VerifySecret_HashSecret [OF hash] show ?thesis
    by (auto simp: t tenant_of_row_def VerifySecretHash_def)
qed

text \<open>
  Rotating the secret replaces it. Afterwards the new secret is accepted, and the old one only
  if SHA-256 maps two different salted texts to one digest; nothing but that tenant's hash changes.
\<close>

lemma RotateSecret_replaces:
  assumes "db_inv d" "RotateSecret cr r1 r2 flt tid d = (Inr secret, d')"
  shows "\<exists>t'. GetTenant no_faults tid d' = (Inr t', d') \<and> VerifySecretHash cr (SecretHash t') secret \<and>
    (\<forall>old. VerifySecretHash cr (SecretHash t') old \<longrightarrow>
      (\<exists>salt. sha256 cr (salt @ '':'' @ old) = sha256 cr (salt @ '':'' @ secret))) \<and>
    map (\<lambda>r. r\<lparr>tn_secret_hash := []\<rparr>) (tenants d') = map (\<lambda>r. r\<lparr>tn_secret_hash := []\<rparr>) (tenants d) \<and>
    hosts d' = hosts d \<and> devices d' = devices d"
proof -
  obtain hash where hash: "HashSecret cr r2 secret = Inr hash" and "tid \<in> tn_tenant_id ` set (tenants d)"
    and d': "d' = d\<lparr>tenants := update_where (\<lambda>r. tn_tenant_id r = tid)
       (\<lambda>r. r\<lparr>tn_secret_hash := hash\<rparr>) (tenants d)\<rparr>"
    using assms(2) unfolding RotateSecret_ok by blast
  moreover from this have "\<exists>r\<in>set (tenants d). tn_tenant_id r = tid" by auto
  ultimately obtain r where r: "find (\<lambda>r. tn_tenant_id r = tid) (tenants d') = Some r" "tn_secret_hash r = hash"
    using find_updated [of "tenants d" "\<lambda>r. tn_tenant_id r = tid" "\<lambda>r. r\<lparr>tn_secret_hash := hash\<rparr>"]
    by auto
  then have "GetTenant no_faults tid d' = (Inr (tenant_of_row r), d')" by (simp add: GetTenant_ok)
  with r(2) hash VerifySecret_HashSecret [OF hash] VerifySecret_other [OF hash] show ?thesis
    by (intro exI [of _ "tenant_of_row r"])
      (auto simp: tenant_of_row_def VerifySecretHash_def d' update_where_def)
qed

end
