(* ===== verification/Host.thy ===== *)
theory Host
  imports Tenant
begin

text \<open>
  The host service (\<open>internal/host/service.go\<close>): enrolling a Windows host under a tenant, reading
  it and recording when it was last seen. Enrolment pins the host's identity: the first call stores
  the keys, a later call must present the same ones. \<open>host_pinned\<close> is that promise as a contract
  on steps, and the lemmas say what a successful or refused enrolment does.
\<close>

record host =
  ht_TenantID :: string
  ht_HostID :: string
  ht_DisplayName :: string
  ht_SigningPublicKey :: string
  ht_AgreementPublicKey :: string
  ht_KeyVersion :: int
  ht_Enabled :: bool
  ht_Revoked :: bool
  ht_RegisteredAt :: int
  ht_LastSeenAt :: "int option"

record enrollment =
  en_TenantID :: string
  en_HostID :: string
  en_DisplayName :: string
  en_SigningPublicKey :: string
  en_AgreementPublicKey :: string
  en_KeyVersion :: int

definition host_of_row :: "host_row \<Rightarrow> host" where
  "host_of_row r = \<lparr>ht_TenantID = ho_tenant_id r, ht_HostID = ho_host_id r,
     ht_DisplayName = ho_display_name r, ht_SigningPublicKey = ho_signing_public_key r,
     ht_AgreementPublicKey = ho_agreement_public_key r, ht_KeyVersion = ho_key_version r,
     ht_Enabled = (ho_enabled r \<noteq> 0), ht_Revoked = (ho_revoked r \<noteq> 0),
     ht_RegisteredAt = parse_RFC3339Nano (ho_registered_at r),
     ht_LastSeenAt = map_option parse_RFC3339Nano (ho_last_seen_at r)\<rparr>"

definition host_validStrictSEC1 :: "string \<Rightarrow> bool" where
  "host_validStrictSEC1 val =
     (case RawURLStrictDecode val of
        None \<Rightarrow> False
      | Some decoded \<Rightarrow>
          length decoded = 65 \<and> (case DecodeSEC1PublicKey val of Inl _ \<Rightarrow> False | Inr _ \<Rightarrow> True))"

definition GetHost :: "faults \<Rightarrow> string \<Rightarrow> string \<Rightarrow> (db, host) tx" where
  "GetHost flt tenantID hostID =
     tx_bind (tx_call (flt 0) ''sql'' (tx_query (\<lambda>d.
        find (\<lambda>r. ho_tenant_id r = tenantID \<and> ho_host_id r = hostID) (hosts d)))) (\<lambda>row.
     tx_bind (tx_some ''host_not_found'' row) (\<lambda>r. tx_ret (host_of_row r)))"

text \<open>The transaction of \<open>EnrollHost\<close>: insert, or compare with the stored identity and refresh
  the display name.\<close>

definition enroll_body ::
  "faults \<Rightarrow> string \<Rightarrow> string \<Rightarrow> string \<Rightarrow> string \<Rightarrow> enrollment \<Rightarrow> (db, unit) tx" where
  "enroll_body flt now tenantID hostID displayName request =
     tx_bind (tx_call (flt 2) ''internal_error'' (tx_exec ''internal_error''
        (insert_host_or_ignore \<lparr>ho_tenant_id = tenantID, ho_host_id = hostID,
           ho_display_name = displayName, ho_signing_public_key = en_SigningPublicKey request,
           ho_agreement_public_key = en_AgreementPublicKey request,
           ho_key_version = en_KeyVersion request, ho_enabled = 1, ho_revoked = 0,
           ho_registered_at = now, ho_last_seen_at = Some now\<rparr>))) (\<lambda>inserted.
     tx_call (flt 3) ''internal_error''
       (if inserted = 0 then
          tx_bind (tx_call (flt 4) ''internal_error'' (tx_query (\<lambda>d.
             find (\<lambda>r. ho_tenant_id r = tenantID \<and> ho_host_id r = hostID) (hosts d)))) (\<lambda>row.
          tx_bind (tx_some ''internal_error'' row) (\<lambda>r.
          tx_guard (\<not> (ho_signing_public_key r \<noteq> en_SigningPublicKey request \<or>
                      ho_agreement_public_key r \<noteq> en_AgreementPublicKey request \<or>
                      ho_key_version r \<noteq> en_KeyVersion request \<or>
                      ho_enabled r = 0 \<or> ho_revoked r \<noteq> 0))
            ''host_identity_conflict_reset_required''
            (tx_bind (tx_call (flt 5) ''internal_error'' (tx_exec ''internal_error''
               (update_hosts (\<lambda>h. ho_tenant_id h = tenantID \<and> ho_host_id h = hostID \<and>
                    ho_signing_public_key h = en_SigningPublicKey request \<and>
                    ho_agreement_public_key h = en_AgreementPublicKey request \<and>
                    ho_key_version h = en_KeyVersion request \<and> ho_enabled h = 1 \<and> ho_revoked h = 0)
                  (\<lambda>h. h\<lparr>ho_display_name := displayName, ho_last_seen_at := Some now\<rparr>)))) (\<lambda>_.
             tx_ret ()))))
        else tx_ret ()))"

definition EnrollHost :: "int \<Rightarrow> faults \<Rightarrow> enrollment \<Rightarrow> (db, host) tx" where
  "EnrollHost now flt request =
     (let tenantID = TrimSpace (en_TenantID request); hostID = TrimSpace (en_HostID request);
          displayName = TrimSpace (en_DisplayName request)
      in
      tx_guard (\<not> (tenantID = [] \<or> hostID = [] \<or> displayName = [])) ''invalid_host_enrollment''
       (tx_guard (\<not> (en_KeyVersion request \<le> 0 \<or>
                   en_SigningPublicKey request = en_AgreementPublicKey request \<or>
                   \<not> host_validStrictSEC1 (en_SigningPublicKey request) \<or>
                   \<not> host_validStrictSEC1 (en_AgreementPublicKey request))) ''invalid_host_identity''
        (tx_bind (tx_call (flt 0) ''tenant_not_found'' (tx_query (\<lambda>d.
            find (\<lambda>r. tn_tenant_id r = tenantID) (tenants d)))) (\<lambda>row.
         tx_guard (case row of None \<Rightarrow> False | Some r \<Rightarrow> tn_enabled r \<noteq> 0) ''tenant_not_found''
          (tx_bind (in_transaction (flt 1) (flt 6)
              (enroll_body flt (RFC3339Nano now) tenantID hostID displayName request)) (\<lambda>_.
           GetHost (\<lambda>i. flt (i + 7)) tenantID hostID))))))"

definition UpdateLastSeen :: "int \<Rightarrow> faults \<Rightarrow> string \<Rightarrow> string \<Rightarrow> (db, unit) tx" where
  "UpdateLastSeen now flt tenantID hostID =
     tx_bind (tx_call (flt 0) ''sql'' (tx_exec ''sql''
        (update_hosts (\<lambda>r. ho_tenant_id r = tenantID \<and> ho_host_id r = hostID)
           (\<lambda>r. r\<lparr>ho_last_seen_at := Some (RFC3339Nano now)\<rparr>)))) (\<lambda>rows.
     tx_call (flt 1) ''sql'' (tx_guard (rows \<noteq> 0) ''host_not_found'' (tx_ret ())))"

lemmas host_defs = GetHost_def enroll_body_def EnrollHost_def UpdateLastSeen_def

section \<open>What the operations do\<close>

lemma host_validStrictSEC1_iff:
  "host_validStrictSEC1 v \<longleftrightarrow>
   (\<exists>bs k. RawURLStrictDecode v = Some bs \<and> Unmarshal bs = Some k)"
proof (cases "RawURLStrictDecode v")
  case None
  then show ?thesis by (simp add: host_validStrictSEC1_def)
next
  case (Some bs)
  have "DecodeSEC1PublicKey v = Inr k \<longleftrightarrow> Unmarshal bs = Some k" for k
  proof
    assume "DecodeSEC1PublicKey v = Inr k"
    with strict_imp_lenient [OF Some] show "Unmarshal bs = Some k"
      by (auto dest: DecodeSEC1PublicKey_ok)
  next
    assume "Unmarshal bs = Some k"
    with strict_imp_lenient [OF Some] Unmarshal_ok(1,2) [of bs k]
    show "DecodeSEC1PublicKey v = Inr k" by (simp add: DecodeSEC1PublicKey_def)
  qed
  then have "(case DecodeSEC1PublicKey v of Inl _ \<Rightarrow> False | Inr _ \<Rightarrow> True) \<longleftrightarrow>
      (\<exists>k. Unmarshal bs = Some k)"
    by (cases "DecodeSEC1PublicKey v") auto
  with Some Unmarshal_ok(1) [of bs] show ?thesis
    by (auto simp: host_validStrictSEC1_def)
qed

lemma update_hosts_Some [tx_inv]:
  "update_hosts P f d = Some (n, d') \<longleftrightarrow>
   n = affected P (hosts d) \<and> d' = d\<lparr>hosts := update_where P f (hosts d)\<rparr>"
  by (auto simp: update_hosts_def)

lemma GetHost_ok:
  "GetHost flt t h d = (Inr r, d') \<longleftrightarrow>
   \<not> flt 0 \<and> d' = d \<and>
   (\<exists>row. find (\<lambda>r. ho_tenant_id r = t \<and> ho_host_id r = h) (hosts d) = Some row \<and>
     r = host_of_row row)"
  by (auto simp: GetHost_def tx_inv)

lemma host_ops_inv:
  "inv.obeys (GetHost flt t h)" "inv.obeys (enroll_body flt n t h dn req)"
  "inv.obeys (EnrollHost now flt req)" "inv.obeys (UpdateLastSeen now flt t h)"
proof -
  show g: "inv.obeys (GetHost flt t h)" for flt t h
    unfolding GetHost_def by (intro inv.obeys_rules)
  show b: "inv.obeys (enroll_body flt n t h dn req)" for flt n t h dn req
    unfolding enroll_body_def by (intro inv.obeys_rules; auto elim!: store_inv)
  show "inv.obeys (EnrollHost now flt req)"
    unfolding EnrollHost_def Let_def by (intro inv.obeys_rules g b)
  show "inv.obeys (UpdateLastSeen now flt t h)"
    unfolding UpdateLastSeen_def by (intro inv.obeys_rules; auto elim!: store_inv)
qed

text \<open>Hosts stay, with the identity they were enrolled with.\<close>

definition host_identity :: "host_row \<Rightarrow> (string \<times> string) \<times> string \<times> string \<times> int \<times> int \<times> int" where
  "host_identity r = (ho_key r, ho_signing_public_key r, ho_agreement_public_key r,
     ho_key_version r, ho_enabled r, ho_revoked r)"

definition host_pinned :: "db \<Rightarrow> db \<Rightarrow> bool" where
  "host_pinned d d' \<longleftrightarrow> host_identity ` set (hosts d) \<subseteq> host_identity ` set (hosts d')"

interpretation pin: tx_order host_pinned
  by unfold_locales (auto simp: host_pinned_def)

lemma update_hosts_pinned:
  "update_hosts P f d = Some (n, d') \<Longrightarrow> (\<And>r. host_identity (f r) = host_identity r) \<Longrightarrow>
   host_pinned d d'"
  by (simp add: tx_inv host_pinned_def image_update_where)

lemma insert_host_pinned: "insert_host_or_ignore r d = Some (n, d') \<Longrightarrow> host_pinned d d'"
  by (auto simp: insert_host_or_ignore_def host_pinned_def split: if_splits)

lemma host_ops_pinned:
  "pin.obeys (GetHost flt t h)" "pin.obeys (enroll_body flt n t h dn req)"
  "pin.obeys (EnrollHost now flt req)" "pin.obeys (UpdateLastSeen now flt t h)"
proof -
  show g: "pin.obeys (GetHost flt t h)" for flt t h
    unfolding GetHost_def by (intro pin.obeys_rules)
  show b: "pin.obeys (enroll_body flt n t h dn req)" for flt n t h dn req
    unfolding enroll_body_def
    by (intro pin.obeys_rules)
      (auto elim!: insert_host_pinned update_hosts_pinned simp: host_identity_def ho_key_def)
  show "pin.obeys (EnrollHost now flt req)"
    unfolding EnrollHost_def Let_def by (intro pin.obeys_rules g b)
  show "pin.obeys (UpdateLastSeen now flt t h)"
    unfolding UpdateLastSeen_def
    by (intro pin.obeys_rules) (auto elim!: update_hosts_pinned simp: host_identity_def ho_key_def)
qed

lemma find_host:
  assumes "db_inv d" "r \<in> set (hosts d)"
  shows "find (\<lambda>h. ho_tenant_id h = ho_tenant_id r \<and> ho_host_id h = ho_host_id r) (hosts d) = Some r"
  using assms by (intro find_key [where k = ho_key and x = "ho_key r"]) (auto simp: db_inv_defs ho_key_def)

definition enrolled_as :: "enrollment \<Rightarrow> host_row \<Rightarrow> bool" where
  "enrolled_as req r \<longleftrightarrow> ho_signing_public_key r = en_SigningPublicKey req \<and>
     ho_agreement_public_key r = en_AgreementPublicKey req \<and> ho_key_version r = en_KeyVersion req \<and>
     ho_enabled r \<noteq> 0 \<and> ho_revoked r = 0"

lemma enroll_body_cases:
  assumes "enroll_body flt now t h dn req d = (Inr u, d')"
  obtains n d1 where
    "insert_host_or_ignore \<lparr>ho_tenant_id = t, ho_host_id = h,
           ho_display_name = dn, ho_signing_public_key = en_SigningPublicKey req,
           ho_agreement_public_key = en_AgreementPublicKey req,
           ho_key_version = en_KeyVersion req, ho_enabled = 1, ho_revoked = 0,
           ho_registered_at = now, ho_last_seen_at = Some now\<rparr> d = Some (n, d1)"
    "n = 0 \<Longrightarrow> \<exists>r P. find (\<lambda>r. ho_tenant_id r = t \<and> ho_host_id r = h) (hosts d1) = Some r \<and>
         enrolled_as req r \<and> d' = d1\<lparr>hosts := update_where P
           (\<lambda>h. h\<lparr>ho_display_name := dn, ho_last_seen_at := Some now\<rparr>) (hosts d1)\<rparr>"
    "n \<noteq> 0 \<Longrightarrow> d' = d1"
proof -
  obtain n d1 where ins: "insert_host_or_ignore \<lparr>ho_tenant_id = t, ho_host_id = h,
           ho_display_name = dn, ho_signing_public_key = en_SigningPublicKey req,
           ho_agreement_public_key = en_AgreementPublicKey req,
           ho_key_version = en_KeyVersion req, ho_enabled = 1, ho_revoked = 0,
           ho_registered_at = now, ho_last_seen_at = Some now\<rparr> d = Some (n, d1)"
    using assms unfolding enroll_body_def by (auto simp: tx_inv)
  show thesis
  proof (rule that [OF ins], goal_cases)
    case 1
    with ins assms show ?case
      unfolding enroll_body_def enrolled_as_def by (simp add: tx_inv) blast
  next
    case 2
    with ins assms show ?case unfolding enroll_body_def by (simp add: tx_inv)
  qed
qed

lemma enroll_body_ok:
  assumes "db_inv d" "enroll_body flt now t h dn req d = (Inr u, d')"
  shows "\<exists>r\<in>set (hosts d'). ho_tenant_id r = t \<and> ho_host_id r = h \<and> enrolled_as req r"
  using assms(2)
proof (rule enroll_body_cases)
  fix n d1
  assume ins: "insert_host_or_ignore \<lparr>ho_tenant_id = t, ho_host_id = h,
           ho_display_name = dn, ho_signing_public_key = en_SigningPublicKey req,
           ho_agreement_public_key = en_AgreementPublicKey req,
           ho_key_version = en_KeyVersion req, ho_enabled = 1, ho_revoked = 0,
           ho_registered_at = now, ho_last_seen_at = Some now\<rparr> d = Some (n, d1)"
    and old: "n = 0 \<Longrightarrow> \<exists>r P. find (\<lambda>r. ho_tenant_id r = t \<and> ho_host_id r = h) (hosts d1) = Some r \<and>
         enrolled_as req r \<and> d' = d1\<lparr>hosts := update_where P
           (\<lambda>h. h\<lparr>ho_display_name := dn, ho_last_seen_at := Some now\<rparr>) (hosts d1)\<rparr>"
    and new: "n \<noteq> 0 \<Longrightarrow> d' = d1"
  show ?thesis
  proof (cases "n = 0")
    case True
    with old obtain r P where "r \<in> set (hosts d1)" "ho_tenant_id r = t" "ho_host_id r = h" "enrolled_as req r"
      and d': "d' = d1\<lparr>hosts := update_where P
           (\<lambda>h. h\<lparr>ho_display_name := dn, ho_last_seen_at := Some now\<rparr>) (hosts d1)\<rparr>"
      by (auto dest: find_Some_in)
    moreover have "\<forall>r\<in>set (hosts d1). \<exists>r'\<in>set (hosts d').
        ho_key r' = ho_key r \<and> enrolled_as req r' = enrolled_as req r"
      unfolding d' by (simp, rule update_where_rel) (auto simp: ho_key_def enrolled_as_def)
    ultimately show ?thesis by (auto simp: ho_key_def)
  next
    case False
    with new ins show ?thesis
      by (auto simp: insert_host_or_ignore_def enrolled_as_def split: if_splits)
  qed
qed

text \<open>
  Whoever enrols a host successfully holds the identity the relay has for it: the stored keys
  and key version are the presented ones, the two keys are different texts that decode to points of
  P-256, the host is enabled and not revoked, and its tenant is enabled.
\<close>

lemma EnrollHost_identity:
  assumes "db_inv d" "EnrollHost now flt req d = (Inr h, d')"
  shows "ht_TenantID h = TrimSpace (en_TenantID req) \<and> ht_HostID h = TrimSpace (en_HostID req) \<and>
    ht_SigningPublicKey h = en_SigningPublicKey req \<and>
    ht_AgreementPublicKey h = en_AgreementPublicKey req \<and> ht_KeyVersion h = en_KeyVersion req \<and>
    0 < ht_KeyVersion h \<and> ht_Enabled h \<and> \<not> ht_Revoked h \<and>
    ht_SigningPublicKey h \<noteq> ht_AgreementPublicKey h \<and>
    host_validStrictSEC1 (ht_SigningPublicKey h) \<and> host_validStrictSEC1 (ht_AgreementPublicKey h) \<and>
    (\<exists>t\<in>set (tenants d). tn_tenant_id t = ht_TenantID h \<and> tn_enabled t \<noteq> 0) \<and>
    (\<exists>r\<in>set (hosts d'). ho_tenant_id r = ht_TenantID h \<and> ho_host_id r = ht_HostID h \<and> enrolled_as req r)"
proof -
  let ?t = "TrimSpace (en_TenantID req)" and ?h = "TrimSpace (en_HostID req)"
  from assms(2) obtain b row where
    guards: "0 < en_KeyVersion req" "en_SigningPublicKey req \<noteq> en_AgreementPublicKey req"
      "host_validStrictSEC1 (en_SigningPublicKey req)" "host_validStrictSEC1 (en_AgreementPublicKey req)"
    and ten: "\<exists>t. find (\<lambda>r. tn_tenant_id r = ?t) (tenants d) = Some t \<and> tn_enabled t \<noteq> 0"
    and body: "enroll_body flt (RFC3339Nano now) ?t ?h (TrimSpace (en_DisplayName req)) req d = (Inr b, d')"
    and row: "find (\<lambda>r. ho_tenant_id r = ?t \<and> ho_host_id r = ?h) (hosts d') = Some row" "h = host_of_row row"
    unfolding EnrollHost_def Let_def by (auto simp: tx_inv GetHost_ok split: option.splits)
  have "db_inv d'" using assms(1) body inv.obeysD [OF host_ops_inv(2)] by blast
  moreover obtain r where "r \<in> set (hosts d')" "ho_tenant_id r = ?t" "ho_host_id r = ?h" "enrolled_as req r"
    using enroll_body_ok [OF assms(1) body] by blast
  ultimately have "enrolled_as req row" "ho_tenant_id row = ?t" "ho_host_id row = ?h" "row \<in> set (hosts d')"
    using row(1) find_host [of d' r] by (auto dest: find_Some_in)
  with guards ten row(2) show ?thesis
    by (auto simp: host_of_row_def enrolled_as_def dest!: find_Some_in)
qed

text \<open>
  An enrolled identity is never replaced. If the host already exists with another signing key,
  agreement key or key version, or is disabled or revoked, enrolling it again fails whatever the
  request and the driver do, and leaves the store as it was.
\<close>

lemma EnrollHost_conflict:
  assumes "db_inv d" "r \<in> set (hosts d)" "ho_tenant_id r = TrimSpace (en_TenantID req)"
    "ho_host_id r = TrimSpace (en_HostID req)" "\<not> enrolled_as req r"
  shows "\<exists>e. EnrollHost now flt req d = (Inl e, d)"
proof -
  let ?t = "TrimSpace (en_TenantID req)" and ?h = "TrimSpace (en_HostID req)"
  have old: "ho_key r \<in> set (map ho_key (hosts d))" using assms(2) by simp
  have find: "find (\<lambda>h. ho_tenant_id h = ?t \<and> ho_host_id h = ?h) (hosts d) = Some r"
    using find_host [OF assms(1,2)] assms(3,4) by simp
  have "\<exists>e d1. enroll_body flt n ?t ?h dn req d = (Inl e, d1)" for n dn
    using assms(5) old find unfolding enroll_body_def enrolled_as_def
    by (auto simp: tx_simps insert_host_or_ignore_def ho_key_def assms(3,4) image_iff)
  then have "\<exists>e. in_transaction a b (enroll_body flt n ?t ?h dn req) d = (Inl e, d)" for a b n dn
    unfolding in_transaction_def by (metis (mono_tags, lifting) old.prod.case sum.case(1))
  then show ?thesis
    unfolding EnrollHost_def Let_def
    by (auto simp: tx_simps split: option.splits sum.splits prod.splits) (metis Pair_inject sum.distinct(1))+
qed

text \<open>
  C8: Enrolment pins an identity. Whoever enrols a host successfully holds the identity the relay has
  for it: the returned keys and key version are the presented ones, two different texts that decode to
  points of P-256, the host is enabled and not revoked, its tenant is enabled, and the store now has
  that identity under the tenant and host. An enrolled identity is never replaced: if the host already
  exists with another key or key version, or is disabled or revoked, enrolling it fails, whatever the
  request and the driver do, and leaves the store as it was.
\<close>

theorem EnrollHost_pins:
  assumes "db_inv d"
  shows "(\<forall>h d'. EnrollHost now flt req d = (Inr h, d') \<longrightarrow>
      ht_TenantID h = TrimSpace (en_TenantID req) \<and> ht_HostID h = TrimSpace (en_HostID req) \<and>
      ht_SigningPublicKey h = en_SigningPublicKey req \<and>
      ht_AgreementPublicKey h = en_AgreementPublicKey req \<and> ht_KeyVersion h = en_KeyVersion req \<and>
      0 < ht_KeyVersion h \<and> ht_Enabled h \<and> \<not> ht_Revoked h \<and>
      ht_SigningPublicKey h \<noteq> ht_AgreementPublicKey h \<and>
      host_validStrictSEC1 (ht_SigningPublicKey h) \<and> host_validStrictSEC1 (ht_AgreementPublicKey h) \<and>
      (\<exists>t\<in>set (tenants d). tn_tenant_id t = ht_TenantID h \<and> tn_enabled t \<noteq> 0) \<and>
      (\<exists>r\<in>set (hosts d'). ho_tenant_id r = ht_TenantID h \<and> ho_host_id r = ht_HostID h \<and> enrolled_as req r)) \<and>
    (\<forall>r\<in>set (hosts d). ho_tenant_id r = TrimSpace (en_TenantID req) \<longrightarrow> ho_host_id r = TrimSpace (en_HostID req) \<longrightarrow>
      \<not> enrolled_as req r \<longrightarrow> (\<exists>e. EnrollHost now flt req d = (Inl e, d)))"
proof (intro conjI allI ballI impI, goal_cases)
  case (1 h d')
  then show ?case using EnrollHost_identity [OF assms 1] by simp
qed (use EnrollHost_identity [OF assms] EnrollHost_conflict [OF assms] in blast)+

end
