(* ===== verification/Auth.thy ===== *)
theory Auth
  imports Host
begin

text \<open>
  Challenge, proof and one-time tickets (\<open>internal/auth/service.go\<close>). A subject (a host or a
  device) asks for a challenge, which the relay signs and stores; it returns the challenge with its
  own signature; the relay checks both signatures against the registered key, consumes the
  challenge and issues a ticket; presenting the ticket for exactly its scope consumes it. Time and
  random bytes are arguments. A panic of the transcript encoding is the error \<open>''panic''\<close>.
\<close>

section \<open>Data\<close>

definition ProtocolVersion :: int where "ProtocolVersion = 1"

definition credentialBytes :: nat where "credentialBytes = 32"

text \<open>\<open>maxLifetime\<close> is 60 seconds, \<open>maxLifetime.Milliseconds()\<close> is 60000.\<close>

definition maxLifetime :: int where "maxLifetime = 60 * Second"

definition maxLifetime_ms :: int where "maxLifetime_ms = maxLifetime div Millisecond"

record ticket_scope =
  ts_SubjectType :: string
  ts_SubjectID :: string
  ts_TenantID :: string
  ts_HostID :: string
  ts_DeviceID :: string
  ts_Purpose :: string

record signed_challenge =
  sc_ProtocolVersion :: int
  sc_RelayFingerprint :: string
  sc_ChallengeID :: string
  sc_Challenge :: string
  sc_SubjectType :: string
  sc_SubjectID :: string
  sc_TenantID :: string
  sc_HostID :: string
  sc_DeviceID :: string
  sc_Purpose :: string
  sc_IssuedAt :: int
  sc_ExpiresAt :: int
  sc_RelaySignature :: string

record proof_request =
  pr_Challenge :: signed_challenge
  pr_SubjectSignature :: string

record ticket =
  tt_Ticket :: string
  tt_Purpose :: string
  tt_ExpiresAt :: int

record auth_service =
  as_store :: bool
  as_signer :: "signer option"

section \<open>Scopes\<close>

definition validPurpose :: "string \<Rightarrow> bool" where
  "validPurpose p =
     (p \<in> {''pairing_invite_create'', ''pairing_invite_cancel'', ''pairing_claim_list'',
           ''pairing_claim_approve'', ''pairing_claim_reject'', ''device_list'', ''device_revoke'',
           ''websocket_host'', ''websocket_device''})"

definition validateScope :: "ticket_scope \<Rightarrow> unit result" where
  "validateScope s =
     (if TrimSpace (ts_SubjectID s) = [] \<or> TrimSpace (ts_TenantID s) = [] \<or>
         TrimSpace (ts_HostID s) = [] \<or>
         ts_SubjectID s \<noteq> TrimSpace (ts_SubjectID s) \<or> ts_TenantID s \<noteq> TrimSpace (ts_TenantID s) \<or>
         ts_HostID s \<noteq> TrimSpace (ts_HostID s) \<or> ts_DeviceID s \<noteq> TrimSpace (ts_DeviceID s)
      then Inl ''invalid_scope''
      else if \<not> validPurpose (ts_Purpose s) then Inl ''invalid_purpose''
      else if ts_SubjectType s = ''host'' then
        (if ts_SubjectID s \<noteq> ts_HostID s \<or> ts_Purpose s = ''websocket_device''
         then Inl ''invalid_scope''
         else if ts_Purpose s \<in> {''pairing_claim_approve'', ''pairing_claim_reject'',
                                ''device_revoke'', ''websocket_host''}
         then (if ts_DeviceID s = [] then Inl ''invalid_scope'' else Inr ())
         else (if ts_DeviceID s \<noteq> [] then Inl ''invalid_scope'' else Inr ()))
      else if ts_SubjectType s = ''device'' then
        (if ts_DeviceID s = [] \<or> ts_SubjectID s \<noteq> ts_DeviceID s \<or>
            ts_Purpose s \<noteq> ''websocket_device''
         then Inl ''invalid_scope'' else Inr ())
      else Inl ''invalid_subject_type'')"

definition scope :: "signed_challenge \<Rightarrow> ticket_scope" where
  "scope c = \<lparr>ts_SubjectType = sc_SubjectType c, ts_SubjectID = sc_SubjectID c,
     ts_TenantID = sc_TenantID c, ts_HostID = sc_HostID c, ts_DeviceID = sc_DeviceID c,
     ts_Purpose = sc_Purpose c\<rparr>"

definition auth_decodeExact :: "string \<Rightarrow> nat \<Rightarrow> bytes result" where
  "auth_decodeExact val len =
     (if val = [] \<or> val \<noteq> TrimSpace val then Inl ''invalid Base64Url''
      else case RawURLStrictDecode val of
             None \<Rightarrow> Inl ''invalid Base64Url''
           | Some decoded \<Rightarrow>
               if length decoded \<noteq> len then Inl ''invalid Base64Url'' else Inr decoded)"

text \<open>Replaces whatever error a call reports by a code of its own; a panic is not reported to the caller.\<close>

definition or_code :: "string \<Rightarrow> 'a result \<Rightarrow> 'a result" where
  "or_code e r = (case r of Inl x \<Rightarrow> Inl (if x = ''panic'' then x else e) | Inr x \<Rightarrow> Inr x)"

definition or_panic :: "'a option \<Rightarrow> 'a result" where
  "or_panic v = (case v of None \<Rightarrow> Inl ''panic'' | Some x \<Rightarrow> Inr x)"

section \<open>Transcripts\<close>

definition challengeTranscript :: "signed_challenge \<Rightarrow> bytes result" where
  "challengeTranscript c =
     (case or_code ''invalid_challenge'' (auth_decodeExact (sc_RelayFingerprint c) 32) of
        Inl e \<Rightarrow> Inl e
      | Inr fingerprint \<Rightarrow>
     (case or_code ''invalid_challenge'' (auth_decodeExact (sc_Challenge c) credentialBytes) of
        Inl e \<Rightarrow> Inl e
      | Inr val \<Rightarrow>
          or_panic (do {
            t \<leftarrow> AppendString [] ''MYCODEX-RELAY-CHALLENGE-V1'';
            t \<leftarrow> AppendField (AppendInt64 t (sc_ProtocolVersion c)) fingerprint;
            t \<leftarrow> AppendString t (sc_ChallengeID c);
            t \<leftarrow> AppendField t val;
            t \<leftarrow> AppendString t (sc_SubjectType c);
            t \<leftarrow> AppendString t (sc_SubjectID c);
            t \<leftarrow> AppendString t (sc_TenantID c);
            t \<leftarrow> AppendString t (sc_HostID c);
            t \<leftarrow> AppendString t (sc_DeviceID c);
            t \<leftarrow> AppendString t (sc_Purpose c);
            Some (AppendInt64 (AppendInt64 t (sc_IssuedAt c)) (sc_ExpiresAt c))
          })))"

definition proofTranscript :: "signed_challenge \<Rightarrow> bytes \<Rightarrow> bytes result" where
  "proofTranscript c challengeBytes =
     (case or_code ''invalid_challenge'' (auth_decodeExact (sc_RelaySignature c) 64) of
        Inl e \<Rightarrow> Inl e
      | Inr relaySignature \<Rightarrow>
          or_panic (do {
            t \<leftarrow> AppendString [] ''MYCODEX-RELAY-PROOF-V1'';
            t \<leftarrow> AppendField (AppendInt64 t ProtocolVersion) challengeBytes;
            t \<leftarrow> AppendField t relaySignature;
            t \<leftarrow> AppendString t (sc_SubjectType c);
            AppendString t (sc_SubjectID c)
          }))"

section \<open>Subjects\<close>

text \<open>The registered key of an active subject of an enabled tenant.\<close>

definition subject_key_column :: "db \<Rightarrow> ticket_scope \<Rightarrow> string option" where
  "subject_key_column d s =
     (if ts_SubjectType s = ''host'' then
        map_option ho_signing_public_key
          (find (\<lambda>h. ho_tenant_id h = ts_TenantID s \<and> ho_host_id h = ts_SubjectID s \<and>
             ho_enabled h = 1 \<and> ho_revoked h = 0 \<and> tenant_enabled d (ho_tenant_id h)) (hosts d))
      else
        map_option dv_signing_public_key
          (find (\<lambda>v. dv_tenant_id v = ts_TenantID s \<and> dv_host_id v = ts_HostID s \<and>
             dv_device_id v = ts_SubjectID s \<and> dv_revoked v = 0 \<and>
             host_active d (dv_tenant_id v) (dv_host_id v) \<and> tenant_enabled d (dv_tenant_id v))
           (devices d)))"

definition subjectSigningKey :: "faults \<Rightarrow> ticket_scope \<Rightarrow> (db, int \<times> int) tx" where
  "subjectSigningKey flt s =
     tx_guard (ts_SubjectType s = ''host'' \<or> ts_SubjectType s = ''device'') ''invalid_scope''
       (tx_bind (tx_call (flt 0) ''subject_not_found'' (tx_query (\<lambda>d. subject_key_column d s))) (\<lambda>row.
        tx_bind (tx_some ''subject_not_found'' row) (\<lambda>encoded.
        tx_bind (tx_lift (or_code ''invalid_subject_key'' (auth_decodeExact encoded 65))) (\<lambda>_.
        tx_lift (or_code ''invalid_subject_key'' (DecodeSEC1PublicKey encoded))))))"

text \<open>The conditions on the tables around a credential that both \<open>update\<close> statements repeat.\<close>

definition subject_live :: "db \<Rightarrow> string \<Rightarrow> string \<Rightarrow> string \<Rightarrow> string \<Rightarrow> bool" where
  "subject_live d tenant_id subject_type subject_id host_id \<longleftrightarrow>
     tenant_enabled d tenant_id \<and>
     (subject_type = ''host'' \<and>
        list_ex (\<lambda>h. ho_tenant_id h = tenant_id \<and> ho_host_id h = subject_id \<and>
          ho_enabled h = 1 \<and> ho_revoked h = 0 \<and> ho_signing_public_key h \<noteq> []) (hosts d) \<or>
      subject_type = ''device'' \<and>
        list_ex (\<lambda>v. dv_tenant_id v = tenant_id \<and> dv_host_id v = host_id \<and>
          dv_device_id v = subject_id \<and> dv_revoked v = 0 \<and> dv_signing_public_key v \<noteq> [] \<and>
          host_active d (dv_tenant_id v) (dv_host_id v)) (devices d))"

section \<open>Challenges\<close>

definition randomBase64URL :: "rand \<Rightarrow> nat \<Rightarrow> (string \<times> bytes) option" where
  "randomBase64URL rnd len = map_option (\<lambda>val. (EncodeToString val, val)) (rnd len)"

text \<open>The service with its store and signer, or \<open>auth_unavailable\<close>.\<close>

definition auth_ready :: "auth_service option \<Rightarrow> signer option" where
  "auth_ready svc =
     (case svc of None \<Rightarrow> None | Some s \<Rightarrow> if as_store s then as_signer s else None)"

definition CreateChallenge ::
  "crypto \<Rightarrow> auth_service option \<Rightarrow> rand \<Rightarrow> rand \<Rightarrow> int \<Rightarrow> faults \<Rightarrow> ticket_scope \<Rightarrow>
   (db, signed_challenge) tx" where
  "CreateChallenge cr svc rnd_id rnd_val now flt s =
     tx_bind (tx_some ''auth_unavailable'' (auth_ready svc)) (\<lambda>sg.
     tx_bind (tx_lift (validateScope s)) (\<lambda>_.
     tx_bind (subjectSigningKey flt s) (\<lambda>_.
     tx_bind (tx_some ''internal_error'' (randomBase64URL rnd_id 18)) (\<lambda>(challengeID, _).
     tx_bind (tx_some ''internal_error'' (randomBase64URL rnd_val credentialBytes))
       (\<lambda>(challengeText, challengeValue).
     let challenge = \<lparr>sc_ProtocolVersion = ProtocolVersion,
           sc_RelayFingerprint = FingerprintBase64URL (Public cr sg),
           sc_ChallengeID = challengeID, sc_Challenge = challengeText,
           sc_SubjectType = ts_SubjectType s, sc_SubjectID = ts_SubjectID s,
           sc_TenantID = ts_TenantID s, sc_HostID = ts_HostID s, sc_DeviceID = ts_DeviceID s,
           sc_Purpose = ts_Purpose s, sc_IssuedAt = UnixMilli now,
           sc_ExpiresAt = UnixMilli (now + maxLifetime), sc_RelaySignature = []\<rparr>
     in
     tx_bind (tx_lift (challengeTranscript challenge)) (\<lambda>transcript.
     tx_bind (tx_lift (or_code ''internal_error'' (Sign cr sg transcript))) (\<lambda>signature.
     let signed = challenge\<lparr>sc_RelaySignature := signature\<rparr> in
     tx_bind (tx_call (flt 1) ''internal_error'' (tx_exec ''internal_error''
        (insert_challenge \<lparr>ch_challenge_id = sc_ChallengeID signed,
           ch_challenge_hash = sha256 cr challengeValue,
           ch_protocol_version = sc_ProtocolVersion signed,
           ch_relay_fingerprint = sc_RelayFingerprint signed,
           ch_relay_signature = sc_RelaySignature signed,
           ch_subject_type = sc_SubjectType signed, ch_subject_id = sc_SubjectID signed,
           ch_tenant_id = sc_TenantID signed, ch_host_id = sc_HostID signed,
           ch_device_id = sc_DeviceID signed, ch_purpose = sc_Purpose signed,
           ch_issued_at = sc_IssuedAt signed, ch_expires_at = sc_ExpiresAt signed,
           ch_consumed_at = None\<rparr>))) (\<lambda>_.
     tx_ret signed))))))))"

definition challenge_matches :: "db \<Rightarrow> signed_challenge \<Rightarrow> bytes \<Rightarrow> int \<Rightarrow> challenge_row \<Rightarrow> bool" where
  "challenge_matches d c challengeHash now r \<longleftrightarrow>
     ch_challenge_id r = sc_ChallengeID c \<and> ch_challenge_hash r = challengeHash \<and>
     ch_protocol_version r = sc_ProtocolVersion c \<and>
     ch_relay_fingerprint r = sc_RelayFingerprint c \<and> ch_relay_signature r = sc_RelaySignature c \<and>
     ch_subject_type r = sc_SubjectType c \<and> ch_subject_id r = sc_SubjectID c \<and>
     ch_tenant_id r = sc_TenantID c \<and> ch_host_id r = sc_HostID c \<and>
     ch_device_id r = sc_DeviceID c \<and> ch_purpose r = sc_Purpose c \<and>
     ch_issued_at r = sc_IssuedAt c \<and> ch_expires_at r = sc_ExpiresAt c \<and>
     ch_consumed_at r = None \<and> ch_expires_at r > now \<and>
     subject_live d (ch_tenant_id r) (ch_subject_type r) (ch_subject_id r) (ch_host_id r)"

definition consumeChallenge ::
  "faults \<Rightarrow> signed_challenge \<Rightarrow> bytes \<Rightarrow> int \<Rightarrow> (db, unit) tx" where
  "consumeChallenge flt c challengeHash now =
     tx_bind (tx_call (flt 1) ''internal_error'' (tx_exec ''internal_error''
        (\<lambda>d. update_challenges (challenge_matches d c challengeHash now)
           (\<lambda>r. r\<lparr>ch_consumed_at := Some now\<rparr>) d))) (\<lambda>affected.
     tx_call (flt 2) ''internal_error''
       (tx_guard (affected = 1) ''challenge_consumed'' (tx_ret ())))"

section \<open>Proofs and tickets\<close>

definition Prove ::
  "crypto \<Rightarrow> auth_service option \<Rightarrow> rand \<Rightarrow> int \<Rightarrow> faults \<Rightarrow> proof_request \<Rightarrow> (db, ticket) tx" where
  "Prove cr svc rnd now_ns flt request =
     tx_bind (tx_some ''auth_unavailable'' (auth_ready svc)) (\<lambda>sg.
     let challenge = pr_Challenge request; s = scope challenge; now = UnixMilli now_ns in
     tx_guard (sc_ProtocolVersion challenge = ProtocolVersion \<and>
               sc_RelayFingerprint challenge = FingerprintBase64URL (Public cr sg))
       ''invalid_challenge''
    (tx_bind (tx_lift (validateScope s)) (\<lambda>_.
     tx_guard (\<not> (sc_IssuedAt challenge > now \<or> sc_ExpiresAt challenge \<le> now \<or>
                 wrap64 (sc_ExpiresAt challenge - sc_IssuedAt challenge) > maxLifetime_ms))
       ''challenge_expired''
    (tx_bind (tx_lift (or_code ''invalid_challenge''
        (auth_decodeExact (sc_Challenge challenge) credentialBytes))) (\<lambda>challengeValue.
     tx_bind (tx_lift (or_code ''invalid_challenge''
        (auth_decodeExact (sc_RelaySignature challenge) 64))) (\<lambda>_.
     tx_bind (tx_lift (challengeTranscript challenge)) (\<lambda>challengeBytes.
     tx_bind (tx_lift (or_code ''invalid_challenge''
        (DecodeSEC1PublicKey (PublicKeyBase64URL (Public cr sg))))) (\<lambda>relayKey.
     tx_guard (VerifyRawSignature cr (Some relayKey) challengeBytes (sc_RelaySignature challenge))
       ''invalid_challenge''
    (tx_bind (tx_lift (or_code ''invalid_proof''
        (auth_decodeExact (pr_SubjectSignature request) 64))) (\<lambda>_.
     tx_bind (subjectSigningKey flt s) (\<lambda>subjectKey.
     tx_bind (tx_lift (or_code ''invalid_proof'' (proofTranscript challenge challengeBytes)))
       (\<lambda>proofBytes.
     tx_guard (VerifyRawSignature cr (Some subjectKey) proofBytes (pr_SubjectSignature request))
       ''invalid_proof''
    (tx_bind (consumeChallenge flt challenge (sha256 cr challengeValue) now) (\<lambda>_.
     tx_bind (tx_some ''internal_error'' (randomBase64URL rnd credentialBytes))
       (\<lambda>(ticketText, ticketValue).
     let expiresAt = now + maxLifetime_ms in
     tx_bind (tx_call (flt 3) ''internal_error'' (tx_exec ''internal_error''
        (insert_ticket \<lparr>tk_ticket_hash = sha256 cr ticketValue,
           tk_subject_type = ts_SubjectType s, tk_subject_id = ts_SubjectID s,
           tk_tenant_id = ts_TenantID s, tk_host_id = ts_HostID s, tk_device_id = ts_DeviceID s,
           tk_purpose = ts_Purpose s, tk_issued_at = now, tk_expires_at = expiresAt,
           tk_consumed_at = None\<rparr>))) (\<lambda>_.
     tx_ret \<lparr>tt_Ticket = ticketText, tt_Purpose = ts_Purpose s, tt_ExpiresAt = expiresAt\<rparr>))))))))))))))))"

definition ticket_matches :: "db \<Rightarrow> ticket_scope \<Rightarrow> bytes \<Rightarrow> int \<Rightarrow> ticket_row \<Rightarrow> bool" where
  "ticket_matches d expected ticketHash now r \<longleftrightarrow>
     tk_ticket_hash r = ticketHash \<and>
     tk_subject_type r = ts_SubjectType expected \<and> tk_subject_id r = ts_SubjectID expected \<and>
     tk_tenant_id r = ts_TenantID expected \<and> tk_host_id r = ts_HostID expected \<and>
     tk_device_id r = ts_DeviceID expected \<and> tk_purpose r = ts_Purpose expected \<and>
     tk_consumed_at r = None \<and> tk_expires_at r > now \<and>
     subject_live d (tk_tenant_id r) (tk_subject_type r) (tk_subject_id r) (tk_host_id r)"

definition ConsumeTicket ::
  "crypto \<Rightarrow> auth_service option \<Rightarrow> int \<Rightarrow> faults \<Rightarrow> string \<Rightarrow> ticket_scope \<Rightarrow> (db, unit) tx" where
  "ConsumeTicket cr svc now_ns flt rawTicket expected =
     tx_guard (case svc of None \<Rightarrow> False | Some s \<Rightarrow> as_store s) ''auth_unavailable''
    (tx_bind (tx_lift (validateScope expected)) (\<lambda>_.
     tx_bind (tx_lift (or_code ''invalid_ticket'' (auth_decodeExact rawTicket credentialBytes)))
       (\<lambda>ticketValue.
     let now = UnixMilli now_ns in
     tx_bind (tx_call (flt 0) ''internal_error'' (tx_exec ''internal_error''
        (\<lambda>d. update_tickets (ticket_matches d expected (sha256 cr ticketValue) now)
           (\<lambda>r. r\<lparr>tk_consumed_at := Some now\<rparr>) d))) (\<lambda>affected.
     tx_call (flt 1) ''internal_error''
       (tx_guard (affected = 1) ''invalid_ticket'' (tx_ret ()))))))"

lemmas auth_op_defs = CreateChallenge_def consumeChallenge_def Prove_def ConsumeTicket_def
  subjectSigningKey_def

section \<open>What a successful run went through\<close>

lemma update_challenges_Some [tx_inv]:
  "update_challenges P f d = Some (n, d') \<longleftrightarrow>
   n = affected P (auth_challenges d) \<and>
   d' = d\<lparr>auth_challenges := update_where P f (auth_challenges d)\<rparr>"
  by (auto simp: update_challenges_def)

lemma update_tickets_Some [tx_inv]:
  "update_tickets P f d = Some (n, d') \<longleftrightarrow>
   n = affected P (auth_tickets d) \<and> d' = d\<lparr>auth_tickets := update_where P f (auth_tickets d)\<rparr>"
  by (auto simp: update_tickets_def)

lemma insert_challenge_Some [tx_inv]:
  "insert_challenge r d = Some (u, d') \<longleftrightarrow>
   ch_challenge_id r \<notin> ch_challenge_id ` set (auth_challenges d) \<and>
   d' = d\<lparr>auth_challenges := auth_challenges d @ [r]\<rparr>"
  by (auto simp: insert_challenge_def)

lemma insert_ticket_Some [tx_inv]:
  "insert_ticket r d = Some (u, d') \<longleftrightarrow>
   tk_ticket_hash r \<notin> tk_ticket_hash ` set (auth_tickets d) \<and>
   d' = d\<lparr>auth_tickets := auth_tickets d @ [r]\<rparr>"
  by (auto simp: insert_ticket_def)

lemma or_code_Inr [tx_inv]: "or_code e r = Inr x \<longleftrightarrow> r = Inr x"
  by (auto simp: or_code_def split: sum.splits)

lemma or_code_Inl [tx_err]: "or_code e r = Inl c \<longleftrightarrow> (\<exists>x. r = Inl x \<and> c = (if x = ''panic'' then x else e))"
  by (auto simp: or_code_def split: sum.splits)

lemma or_panic_Inr [tx_inv]: "or_panic v = Inr x \<longleftrightarrow> v = Some x"
  by (auto simp: or_panic_def split: option.splits)

lemma auth_decodeExact_ok [tx_inv]:
  "auth_decodeExact v n = Inr bs \<longleftrightarrow>
   v \<noteq> [] \<and> v = TrimSpace v \<and> RawURLStrictDecode v = Some bs \<and> length bs = n"
  by (auto simp: auth_decodeExact_def split: option.splits)

lemma randomBase64URL_ok [tx_inv]:
  "randomBase64URL rnd n = Some (t, v) \<longleftrightarrow> rnd n = Some v \<and> t = EncodeToString v"
  by (auto simp: randomBase64URL_def)

lemma subjectSigningKey_ok [tx_inv]:
  "subjectSigningKey flt s d = (Inr k, d') \<longleftrightarrow>
   d' = d \<and> \<not> flt 0 \<and> (ts_SubjectType s = ''host'' \<or> ts_SubjectType s = ''device'') \<and>
   (\<exists>enc bs. subject_key_column d s = Some enc \<and> auth_decodeExact enc 65 = Inr bs \<and>
     DecodeSEC1PublicKey enc = Inr k)"
  unfolding subjectSigningKey_def by (simp add: tx_inv) blast

lemma ConsumeTicket_ok:
  "ConsumeTicket cr svc now flt raw s d = (Inr u, d') \<longleftrightarrow>
   (\<exists>a. svc = Some a \<and> as_store a) \<and> validateScope s = Inr () \<and> \<not> flt 0 \<and> \<not> flt 1 \<and>
   (\<exists>v. auth_decodeExact raw credentialBytes = Inr v \<and>
     affected (ticket_matches d s (sha256 cr v) (UnixMilli now)) (auth_tickets d) = 1 \<and>
     d' = d\<lparr>auth_tickets := update_where (ticket_matches d s (sha256 cr v) (UnixMilli now))
             (\<lambda>r. r\<lparr>tk_consumed_at := Some (UnixMilli now)\<rparr>) (auth_tickets d)\<rparr>)"
  unfolding ConsumeTicket_def Let_def
  by (auto simp: tx_inv split: option.splits)

section \<open>Credentials are used once\<close>

text \<open>
  Challenges and tickets stay in their tables with the content they were issued with; all that can
  happen to one is that its \<open>consumed_at\<close> is set, once.
\<close>

definition ticket_kept :: "ticket_row \<Rightarrow> ticket_row \<Rightarrow> bool" where
  "ticket_kept r r' \<longleftrightarrow>
     r' = r \<or> tk_consumed_at r = None \<and> (\<exists>t. r' = r\<lparr>tk_consumed_at := Some t\<rparr>)"

definition challenge_kept :: "challenge_row \<Rightarrow> challenge_row \<Rightarrow> bool" where
  "challenge_kept r r' \<longleftrightarrow>
     r' = r \<or> ch_consumed_at r = None \<and> (\<exists>t. r' = r\<lparr>ch_consumed_at := Some t\<rparr>)"

definition credentials_kept :: "db \<Rightarrow> db \<Rightarrow> bool" where
  "credentials_kept d d' \<longleftrightarrow>
     (\<forall>r\<in>set (auth_tickets d). \<exists>r'\<in>set (auth_tickets d'). ticket_kept r r') \<and>
     (\<forall>r\<in>set (auth_challenges d). \<exists>r'\<in>set (auth_challenges d'). challenge_kept r r')"

lemma ticket_kept_trans: "ticket_kept r s \<Longrightarrow> ticket_kept s t \<Longrightarrow> ticket_kept r t"
  by (auto simp: ticket_kept_def)

lemma challenge_kept_trans: "challenge_kept r s \<Longrightarrow> challenge_kept s t \<Longrightarrow> challenge_kept r t"
  by (auto simp: challenge_kept_def)

lemma kept_refl [simp]: "ticket_kept r r" "challenge_kept c c"
  by (simp_all add: ticket_kept_def challenge_kept_def)

interpretation cred: tx_order credentials_kept
proof
  show "credentials_kept d d" for d
    by (force simp: credentials_kept_def)
  show "credentials_kept d d2" if "credentials_kept d d1" "credentials_kept d1 d2" for d d1 d2
    using that unfolding credentials_kept_def
    by (meson ticket_kept_trans challenge_kept_trans)
qed

lemma credentials_kept_same:
  "auth_tickets d' = auth_tickets d \<Longrightarrow> auth_challenges d' = auth_challenges d \<Longrightarrow>
   credentials_kept d d'"
  by (force simp: credentials_kept_def)

lemma update_tickets_kept:
  assumes "update_tickets P (\<lambda>r. r\<lparr>tk_consumed_at := Some t\<rparr>) d = Some (n, d')"
    and "\<And>r. P r \<Longrightarrow> tk_consumed_at r = None"
  shows "credentials_kept d d'"
proof -
  have "ticket_kept r (r\<lparr>tk_consumed_at := Some t\<rparr>)" if "P r" for r
    using assms(2) [OF that] by (auto simp: ticket_kept_def)
  then show ?thesis
    using assms(1) update_where_rel [of ticket_kept P _ "auth_tickets d"]
    by (force simp: tx_inv credentials_kept_def)
qed

lemma update_challenges_kept:
  assumes "update_challenges P (\<lambda>r. r\<lparr>ch_consumed_at := Some t\<rparr>) d = Some (n, d')"
    and "\<And>r. P r \<Longrightarrow> ch_consumed_at r = None"
  shows "credentials_kept d d'"
proof -
  have "challenge_kept r (r\<lparr>ch_consumed_at := Some t\<rparr>)" if "P r" for r
    using assms(2) [OF that] by (auto simp: challenge_kept_def)
  then show ?thesis
    using assms(1) update_where_rel [of challenge_kept P _ "auth_challenges d"]
    by (force simp: tx_inv credentials_kept_def)
qed

lemma insert_credential_kept:
  "insert_ticket r d = Some (u, d') \<Longrightarrow> credentials_kept d d'"
  "insert_challenge c d = Some (u, d') \<Longrightarrow> credentials_kept d d'"
  by (force simp: tx_inv credentials_kept_def)+

text \<open>Statements on the other tables.\<close>

lemma other_tables_kept:
  "insert_tenant r1 d = Some (u, d') \<Longrightarrow> credentials_kept d d'"
  "insert_host_or_ignore r2 d = Some (n, d') \<Longrightarrow> credentials_kept d d'"
  "insert_invite r3 d = Some (u, d') \<Longrightarrow> credentials_kept d d'"
  "insert_claim r4 d = Some (u, d') \<Longrightarrow> credentials_kept d d'"
  "upsert_device ok upd r5 d = Some (n, d') \<Longrightarrow> credentials_kept d d'"
  "update_tenants P1 f1 d = Some (n, d') \<Longrightarrow> credentials_kept d d'"
  "update_hosts P2 f2 d = Some (n, d') \<Longrightarrow> credentials_kept d d'"
  "update_devices P3 f3 d = Some (n, d') \<Longrightarrow> credentials_kept d d'"
  "update_invites P4 f4 d = Some (n, d') \<Longrightarrow> credentials_kept d d'"
  "update_claims P5 f5 d = Some (n, d') \<Longrightarrow> credentials_kept d d'"
  by (auto simp: insert_tenant_def insert_host_or_ignore_def insert_invite_def insert_claim_def
        upsert_device_def table_update_defs cred.refl split: if_splits intro!: credentials_kept_same)

lemma auth_ops_inv:
  "inv.obeys (subjectSigningKey flt s)" "inv.obeys (consumeChallenge flt c h t)"
  "inv.obeys (CreateChallenge cr svc r1 r2 now flt s)" "inv.obeys (Prove cr svc r1 now flt rq)"
  "inv.obeys (ConsumeTicket cr svc now flt raw s)"
proof -
  show k: "inv.obeys (subjectSigningKey flt s)" for flt s
    unfolding subjectSigningKey_def by (intro inv.obeys_rules)
  show c: "inv.obeys (consumeChallenge flt c h t)" for flt c h t
    unfolding consumeChallenge_def by (intro inv.obeys_rules; auto elim!: store_inv)
  show "inv.obeys (CreateChallenge cr svc r1 r2 now flt s)"
    unfolding CreateChallenge_def Let_def case_prod_unfold
    by (intro inv.obeys_rules k; auto elim!: store_inv)
  show "inv.obeys (Prove cr svc r1 now flt rq)"
    unfolding Prove_def Let_def case_prod_unfold
    by (intro inv.obeys_rules k c; auto elim!: store_inv)
  show "inv.obeys (ConsumeTicket cr svc now flt raw s)"
    unfolding ConsumeTicket_def Let_def by (intro inv.obeys_rules; auto elim!: store_inv)
qed

lemma auth_ops_cred:
  "cred.obeys (subjectSigningKey flt s)" "cred.obeys (consumeChallenge flt c h t)"
  "cred.obeys (CreateChallenge cr svc r1 r2 now flt s)" "cred.obeys (Prove cr svc r1 now flt rq)"
  "cred.obeys (ConsumeTicket cr svc now flt raw s)"
proof -
  show k: "cred.obeys (subjectSigningKey flt s)" for flt s
    unfolding subjectSigningKey_def by (intro cred.obeys_rules)
  show c: "cred.obeys (consumeChallenge flt c h t)" for flt c h t
    unfolding consumeChallenge_def
    by (intro cred.obeys_rules; auto elim!: update_challenges_kept simp: challenge_matches_def)
  show "cred.obeys (CreateChallenge cr svc r1 r2 now flt s)"
    unfolding CreateChallenge_def Let_def case_prod_unfold
    by (intro cred.obeys_rules k; auto elim!: insert_credential_kept)
  show "cred.obeys (Prove cr svc r1 now flt rq)"
    unfolding Prove_def Let_def case_prod_unfold
    by (intro cred.obeys_rules k c; auto elim!: insert_credential_kept)
  show "cred.obeys (ConsumeTicket cr svc now flt raw s)"
    unfolding ConsumeTicket_def Let_def
    by (intro cred.obeys_rules; auto elim!: update_tickets_kept simp: ticket_matches_def)
qed

lemma consumeChallenge_ok:
  "consumeChallenge flt c h t d = (Inr u, d') \<longleftrightarrow>
   \<not> flt 1 \<and> \<not> flt 2 \<and> affected (challenge_matches d c h t) (auth_challenges d) = 1 \<and>
   d' = d\<lparr>auth_challenges := update_where (challenge_matches d c h t)
           (\<lambda>r. r\<lparr>ch_consumed_at := Some t\<rparr>) (auth_challenges d)\<rparr>"
  unfolding consumeChallenge_def by (auto simp: tx_inv)

definition issued_ticket :: "crypto \<Rightarrow> ticket_scope \<Rightarrow> int \<Rightarrow> bytes \<Rightarrow> ticket_row" where
  "issued_ticket cr s now v = \<lparr>tk_ticket_hash = sha256 cr v,
     tk_subject_type = ts_SubjectType s, tk_subject_id = ts_SubjectID s,
     tk_tenant_id = ts_TenantID s, tk_host_id = ts_HostID s, tk_device_id = ts_DeviceID s,
     tk_purpose = ts_Purpose s, tk_issued_at = now, tk_expires_at = now + maxLifetime_ms,
     tk_consumed_at = None\<rparr>"

lemma Prove_ok:
  assumes "Prove cr svc rnd now_ns flt rq d = (Inr t, d')"
  defines "c \<equiv> pr_Challenge rq" and "now \<equiv> UnixMilli now_ns"
  obtains sg cv tb rk k pb tv u d1 where
    "auth_ready svc = Some sg"
    "sc_RelayFingerprint c = FingerprintBase64URL (Public cr sg)"
    "validateScope (scope c) = Inr ()"
    "sc_IssuedAt c \<le> now" "now < sc_ExpiresAt c"
    "auth_decodeExact (sc_Challenge c) credentialBytes = Inr cv"
    "challengeTranscript c = Inr tb"
    "DecodeSEC1PublicKey (PublicKeyBase64URL (Public cr sg)) = Inr rk"
    "VerifyRawSignature cr (Some rk) tb (sc_RelaySignature c)"
    "subjectSigningKey flt (scope c) d = (Inr k, d)"
    "proofTranscript c tb = Inr pb"
    "VerifyRawSignature cr (Some k) pb (pr_SubjectSignature rq)"
    "consumeChallenge flt c (sha256 cr cv) now d = (Inr u, d1)"
    "rnd credentialBytes = Some tv"
    "sha256 cr tv \<notin> tk_ticket_hash ` set (auth_tickets d1)"
    "d' = d1\<lparr>auth_tickets := auth_tickets d1 @ [issued_ticket cr (scope c) now tv]\<rparr>"
    "t = \<lparr>tt_Ticket = EncodeToString tv, tt_Purpose = sc_Purpose c, tt_ExpiresAt = now + maxLifetime_ms\<rparr>"
proof -
  have s: "subjectSigningKey flt (scope c) d = (Inr k, d1) \<Longrightarrow> d1 = d" for k d1
    by (simp add: subjectSigningKey_ok)
  show thesis
    using assms(1) unfolding Prove_def Let_def c_def [symmetric] now_def [symmetric]
    by (simp only: tx_bind_Inr tx_guard_Inr tx_call_Inr tx_ret_Inr tx_lift_Inr tx_some_Inr
          tx_exec_Inr or_code_Inr randomBase64URL_ok insert_ticket_Some split_paired_Ex
          case_prod_conv not_le not_less de_Morgan_disj)
      (elim exE conjE, hypsubst, frule s, hypsubst, rule that,
       (assumption | simp add: issued_ticket_def scope_def)+)
qed

text \<open>
  The interface of a credential that works once: a use that succeeds spends it, spent credentials
  are refused, and nothing the relay does later makes one usable again.
\<close>

locale one_time =
  fixes use :: "'c \<Rightarrow> 'k \<Rightarrow> ('s, 'a) tx"
    and spent :: "'k \<Rightarrow> 's \<Rightarrow> bool"
    and later :: "'s \<Rightarrow> 's \<Rightarrow> bool"
    and ok :: "'s \<Rightarrow> bool"
  assumes use_spends: "ok s \<Longrightarrow> use c k s = (Inr x, s') \<Longrightarrow> spent k s'"
    and spent_stays: "spent k s \<Longrightarrow> later s s' \<Longrightarrow> spent k s'"
    and spent_refused: "ok s \<Longrightarrow> spent k s \<Longrightarrow> use c k s \<noteq> (Inr x, s')"
begin

lemma at_most_once:
  assumes "ok s" "use c k s = (Inr x, s1)" "later s1 s2" "ok s2"
  shows "use c' k s2 \<noteq> (Inr y, s3)"
  using assms use_spends spent_stays spent_refused by blast

lemma used_at_most_once:
  assumes "ok s" "use c k s = (Inr x, s1)" "later s1 s2" "ok s2"
  shows "\<exists>e. fst (use c' k s2) = Inl e"
proof (cases "use c' k s2")
  case (Pair r s3)
  with at_most_once [OF assms, of c'] show ?thesis by (cases r) auto
qed

end

definition ticket_spent :: "crypto \<Rightarrow> string \<Rightarrow> db \<Rightarrow> bool" where
  "ticket_spent cr raw d \<longleftrightarrow>
     (\<exists>v r. auth_decodeExact raw credentialBytes = Inr v \<and> r \<in> set (auth_tickets d) \<and>
        tk_ticket_hash r = sha256 cr v \<and> tk_consumed_at r \<noteq> None)"

definition challenge_spent :: "string \<Rightarrow> db \<Rightarrow> bool" where
  "challenge_spent cid d \<longleftrightarrow>
     (\<exists>r\<in>set (auth_challenges d). ch_challenge_id r = cid \<and> ch_consumed_at r \<noteq> None)"

lemma affected_update_in:
  assumes "affected P t = 1"
  shows "\<exists>r\<in>set t. P r \<and> f r \<in> set (update_where P f t)"
proof -
  from assms have "0 < affected P t" by simp
  then obtain r where r: "r \<in> set t" "P r" by auto
  then have "f r \<in> set (update_where P f t)" by (force simp: table_simps)
  with r show ?thesis by blast
qed

lemma ConsumeTicket_spends:
  assumes "ConsumeTicket cr svc now flt raw s d = (Inr u, d')"
  shows "ticket_spent cr raw d'"
proof -
  from assms obtain v where v: "auth_decodeExact raw credentialBytes = Inr v"
    and n: "affected (ticket_matches d s (sha256 cr v) (UnixMilli now)) (auth_tickets d) = 1"
    and d': "d' = d\<lparr>auth_tickets := update_where (ticket_matches d s (sha256 cr v) (UnixMilli now))
             (\<lambda>r. r\<lparr>tk_consumed_at := Some (UnixMilli now)\<rparr>) (auth_tickets d)\<rparr>"
    unfolding ConsumeTicket_ok by blast
  from affected_update_in [OF n, of "\<lambda>r. r\<lparr>tk_consumed_at := Some (UnixMilli now)\<rparr>"] v
  show ?thesis
    by (force simp: d' ticket_spent_def ticket_matches_def)
qed

lemma Prove_spends:
  assumes "Prove cr svc rnd now flt rq d = (Inr t, d')"
  shows "challenge_spent (sc_ChallengeID (pr_Challenge rq)) d'"
proof -
  let ?c = "pr_Challenge rq" and ?now = "UnixMilli now"
  from assms obtain h u d1 where c: "consumeChallenge flt ?c h ?now d = (Inr u, d1)"
    and d': "auth_challenges d' = auth_challenges d1"
    by (auto elim!: Prove_ok)
  then have n: "affected (challenge_matches d ?c h ?now) (auth_challenges d) = 1"
    and d1: "auth_challenges d1 = update_where (challenge_matches d ?c h ?now)
           (\<lambda>r. r\<lparr>ch_consumed_at := Some ?now\<rparr>) (auth_challenges d)"
    by (simp_all add: consumeChallenge_ok)
  from affected_update_in [OF n, of "\<lambda>r. r\<lparr>ch_consumed_at := Some ?now\<rparr>"]
  show ?thesis
    unfolding d' d1 challenge_spent_def challenge_matches_def by (force intro: bexI [rotated])
qed

lemma ticket_spent_stays: "ticket_spent cr raw d \<Longrightarrow> credentials_kept d d' \<Longrightarrow> ticket_spent cr raw d'"
proof -
  assume "ticket_spent cr raw d" "credentials_kept d d'"
  then obtain v r r' where "auth_decodeExact raw credentialBytes = Inr v"
    "tk_ticket_hash r = sha256 cr v" "tk_consumed_at r \<noteq> None"
    "r' \<in> set (auth_tickets d')" "ticket_kept r r'"
    unfolding ticket_spent_def credentials_kept_def by meson
  then show ?thesis
    unfolding ticket_spent_def ticket_kept_def by auto
qed

lemma challenge_spent_stays: "challenge_spent cid d \<Longrightarrow> credentials_kept d d' \<Longrightarrow> challenge_spent cid d'"
proof -
  assume "challenge_spent cid d" "credentials_kept d d'"
  then obtain r r' where "ch_challenge_id r = cid" "ch_consumed_at r \<noteq> None"
    "r' \<in> set (auth_challenges d')" "challenge_kept r r'"
    unfolding challenge_spent_def credentials_kept_def by meson
  then show ?thesis
    unfolding challenge_spent_def challenge_kept_def by auto
qed

interpretation tick: one_time "\<lambda>(svc, now, flt, s) raw. ConsumeTicket cr svc now flt raw s"
  "ticket_spent cr" credentials_kept db_inv for cr
proof (unfold_locales, goal_cases)
  case (1 d c raw u d')
  then show ?case
    by (cases c) (auto intro: ConsumeTicket_spends)
next
  case (2 raw d d')
  then show ?case
    by (rule ticket_spent_stays)
next
  case (3 d raw c u d')
  obtain v r where "auth_decodeExact raw credentialBytes = Inr v" "r \<in> set (auth_tickets d)"
    "tk_ticket_hash r = sha256 cr v" "tk_consumed_at r \<noteq> None"
    using 3(2) by (auto simp: ticket_spent_def)
  moreover from this have "tk_consumed_at q \<noteq> None"
    if "q \<in> set (auth_tickets d)" "tk_ticket_hash q = sha256 cr v" for q
    using 3(1) that key_unique [of tk_ticket_hash "auth_tickets d" r q]
    by (simp add: db_inv_defs)
  ultimately have "affected (ticket_matches d s (sha256 cr v) now) (auth_tickets d) = 0" for s now
    unfolding affected_0_iff ticket_matches_def by blast
  with \<open>auth_decodeExact raw credentialBytes = Inr v\<close> show ?case
    by (cases c) (auto simp: ConsumeTicket_ok)
qed

interpretation chal: one_time
  "\<lambda>(svc, rnd, now, flt, rq) cid.
     tx_guard (sc_ChallengeID (pr_Challenge rq) = cid) ''other_challenge'' (Prove cr svc rnd now flt rq)"
  challenge_spent credentials_kept db_inv for cr
proof (unfold_locales, goal_cases)
  case (1 d c cid t d')
  then show ?case
    by (cases c) (auto simp: tx_inv intro: Prove_spends)
next
  case (2 cid d d')
  then show ?case
    by (rule challenge_spent_stays)
next
  case (3 d cid c t d')
  obtain r where "r \<in> set (auth_challenges d)" "ch_challenge_id r = cid" "ch_consumed_at r \<noteq> None"
    using 3(2) by (auto simp: challenge_spent_def)
  then have "ch_consumed_at q \<noteq> None"
    if "q \<in> set (auth_challenges d)" "ch_challenge_id q = cid" for q
    using 3(1) that key_unique [of ch_challenge_id "auth_challenges d" r q]
    by (simp add: db_inv_defs)
  then have "affected (challenge_matches d ch h now) (auth_challenges d) = 0"
    if "sc_ChallengeID ch = cid" for ch h now
    using that unfolding affected_0_iff challenge_matches_def by blast
  then show ?case
    by (cases c) (auto simp: tx_inv consumeChallenge_ok elim!: Prove_ok)
qed

section \<open>What a transcript binds\<close>

lemma bind_Some_if: "((if b then Some x else None) \<bind> f = Some y) \<longleftrightarrow> b \<and> f x = Some y"
  by simp

lemma challengeTranscript_ok:
  "challengeTranscript c = Inr t \<longleftrightarrow>
   (\<exists>fp v. auth_decodeExact (sc_RelayFingerprint c) 32 = Inr fp \<and>
      auth_decodeExact (sc_Challenge c) credentialBytes = Inr v \<and>
      field_fits fp \<and> field_fits (sc_ChallengeID c) \<and> field_fits v \<and>
      field_fits (sc_SubjectType c) \<and> field_fits (sc_SubjectID c) \<and> field_fits (sc_TenantID c) \<and>
      field_fits (sc_HostID c) \<and> field_fits (sc_DeviceID c) \<and> field_fits (sc_Purpose c) \<and>
      t = field_bytes ''MYCODEX-RELAY-CHALLENGE-V1'' @ int64_bytes (sc_ProtocolVersion c) @
          field_bytes fp @ field_bytes (sc_ChallengeID c) @ field_bytes v @
          field_bytes (sc_SubjectType c) @ field_bytes (sc_SubjectID c) @
          field_bytes (sc_TenantID c) @ field_bytes (sc_HostID c) @ field_bytes (sc_DeviceID c) @
          field_bytes (sc_Purpose c) @ int64_bytes (sc_IssuedAt c) @ int64_bytes (sc_ExpiresAt c))"
proof -
  have dom: "field_fits ''MYCODEX-RELAY-CHALLENGE-V1''" by (simp add: field_fits_def MaxUint32_def)
  have "challengeTranscript c = Inr t \<longleftrightarrow>
    (\<exists>fp v. auth_decodeExact (sc_RelayFingerprint c) 32 = Inr fp \<and>
      auth_decodeExact (sc_Challenge c) credentialBytes = Inr v \<and> or_panic (do {
            t \<leftarrow> AppendString [] ''MYCODEX-RELAY-CHALLENGE-V1'';
            t \<leftarrow> AppendField (AppendInt64 t (sc_ProtocolVersion c)) fp;
            t \<leftarrow> AppendString t (sc_ChallengeID c);
            t \<leftarrow> AppendField t v;
            t \<leftarrow> AppendString t (sc_SubjectType c);
            t \<leftarrow> AppendString t (sc_SubjectID c);
            t \<leftarrow> AppendString t (sc_TenantID c);
            t \<leftarrow> AppendString t (sc_HostID c);
            t \<leftarrow> AppendString t (sc_DeviceID c);
            t \<leftarrow> AppendString t (sc_Purpose c);
            Some (AppendInt64 (AppendInt64 t (sc_IssuedAt c)) (sc_ExpiresAt c))
          }) = Inr t)"
    unfolding challengeTranscript_def or_code_def by (simp split: sum.splits)
  then show ?thesis
    by (simp only: append_field_simps or_panic_Inr bind_Some_if dom) auto
qed

lemma proofTranscript_ok:
  "proofTranscript c tb = Inr t \<longleftrightarrow>
   (\<exists>sig. auth_decodeExact (sc_RelaySignature c) 64 = Inr sig \<and>
      field_fits tb \<and> field_fits sig \<and> field_fits (sc_SubjectType c) \<and> field_fits (sc_SubjectID c) \<and>
      t = field_bytes ''MYCODEX-RELAY-PROOF-V1'' @ int64_bytes ProtocolVersion @
          field_bytes tb @ field_bytes sig @ field_bytes (sc_SubjectType c) @
          field_bytes (sc_SubjectID c))"
proof -
  have dom: "field_fits ''MYCODEX-RELAY-PROOF-V1''" by (simp add: field_fits_def MaxUint32_def)
  have "proofTranscript c tb = Inr t \<longleftrightarrow>
    (\<exists>sig. auth_decodeExact (sc_RelaySignature c) 64 = Inr sig \<and> or_panic (do {
            t \<leftarrow> AppendString [] ''MYCODEX-RELAY-PROOF-V1'';
            t \<leftarrow> AppendField (AppendInt64 t ProtocolVersion) tb;
            t \<leftarrow> AppendField t sig;
            t \<leftarrow> AppendString t (sc_SubjectType c);
            AppendString t (sc_SubjectID c)
          }) = Inr t)"
    unfolding proofTranscript_def or_code_def by (simp split: sum.splits)
  then show ?thesis
    by (simp only: append_field_simps or_panic_Inr bind_Some_if dom) auto
qed

text \<open>What the relay signs: everything but its signature.\<close>

definition signed_content :: "signed_challenge \<Rightarrow> bytes option \<times> string \<times> bytes option \<times> ticket_scope \<times> int \<times> int" where
  "signed_content c = (RawURLStrictDecode (sc_RelayFingerprint c), sc_ChallengeID c,
     RawURLStrictDecode (sc_Challenge c), scope c, sc_IssuedAt c, sc_ExpiresAt c)"

definition int64_times :: "signed_challenge \<Rightarrow> bool" where
  "int64_times c \<longleftrightarrow> int64_range (sc_ProtocolVersion c) \<and> int64_range (sc_IssuedAt c) \<and>
     int64_range (sc_ExpiresAt c)"

lemma challengeTranscript_inj:
  assumes "challengeTranscript c = Inr t" "challengeTranscript c' = Inr t"
    and "int64_times c" "int64_times c'"
  shows "signed_content c = signed_content c'"
  using assms unfolding challengeTranscript_ok int64_times_def signed_content_def scope_def
  by (elim exE conjE) (simp add: fld.cancel i64.cancel i64.cancel_last auth_decodeExact_ok)

lemma proofTranscript_inj:
  assumes "proofTranscript c tb = Inr t" "proofTranscript c' tb' = Inr t"
  shows "tb = tb'" "RawURLStrictDecode (sc_RelaySignature c) = RawURLStrictDecode (sc_RelaySignature c')"
  using assms unfolding proofTranscript_ok
  by (elim exE conjE; simp add: fld.cancel fld.cancel_last i64.cancel auth_decodeExact_ok)+

text \<open>
  C7: A subject's signature vouches for one challenge only. If two proofs sign the same bytes, then
  the relay signatures, the challenge identifiers and values, the scopes (subject, tenant, host,
  device, purpose) and the validity periods of their challenges are the same.
\<close>

theorem proof_binds_challenge:
  assumes "challengeTranscript c = Inr tb" "challengeTranscript c' = Inr tb'"
    and "proofTranscript c tb = Inr pb" "proofTranscript c' tb' = Inr pb"
    and "int64_times c" "int64_times c'"
  shows "signed_content c = signed_content c' \<and>
    RawURLStrictDecode (sc_RelaySignature c) = RawURLStrictDecode (sc_RelaySignature c')"
  using assms challengeTranscript_inj proofTranscript_inj by blast

text \<open>
  The bytes the relay signs in a challenge and the bytes a subject signs in a proof never
  coincide, so a signature made for one can not be presented as the other.
\<close>

lemma transcripts_domain_separated:
  "challengeTranscript c = Inr t \<Longrightarrow> proofTranscript c' tb \<noteq> Inr t"
proof
  assume "challengeTranscript c = Inr t" "proofTranscript c' tb = Inr t"
  then obtain r s where "field_bytes ''MYCODEX-RELAY-CHALLENGE-V1'' @ r = field_bytes ''MYCODEX-RELAY-PROOF-V1'' @ s"
    unfolding challengeTranscript_ok proofTranscript_ok by (elim exE conjE) metis
  then show False
    by (simp add: fld.cancel field_fits_def MaxUint32_def)
qed

section \<open>The whole exchange\<close>

lemma space_runes_not_b64:
  "list_all (\<lambda>w. w \<noteq> [] \<and> b64_val (hd w) = None \<and> b64_val (last w) = None) space_runes"
  by code_simp

lemma TrimSpace_EncodeToString [simp]: "TrimSpace (EncodeToString bs) = EncodeToString bs"
proof (rule TrimSpace_id)
  have b: "b64_val (hd w) = None" "b64_val (last w) = None" "w \<noteq> []" if "w \<in> set space_runes" for w
    using space_runes_not_b64 that by (auto simp: list_all_iff)
  have no: "hd w \<notin> set (EncodeToString bs)" "last w \<notin> set (EncodeToString bs)" if "w \<in> set space_runes" for w
    using b [OF that] b64_no_char by blast+
  have "\<not> HasPrefix (EncodeToString bs) w" if w: "w \<in> set space_runes" for w
  proof
    assume "HasPrefix (EncodeToString bs) w"
    then obtain r where "EncodeToString bs = w @ r" by (auto simp: HasPrefix_append)
    with b(3) [OF w] no(1) [OF w] show False by (metis hd_in_set in_set_conv_decomp append_Cons append_assoc)
  qed
  then show "front_clean space_runes (EncodeToString bs)" by (auto simp: front_clean_iff)
  have "\<not> HasPrefix (rev (EncodeToString bs)) (rev w)" if w: "w \<in> set space_runes" for w
  proof
    assume "HasPrefix (rev (EncodeToString bs)) (rev w)"
    then obtain r where "rev (EncodeToString bs) = rev w @ r" by (auto simp: HasPrefix_append)
    then have "EncodeToString bs = rev r @ w" by (metis rev_append rev_rev_ident)
    with b(3) [OF w] no(2) [OF w] show False by (metis Un_iff last_in_set set_append)
  qed
  then show "front_clean (map rev space_runes) (rev (EncodeToString bs))" by (auto simp: front_clean_iff)
qed

lemma EncodeToString_Nil_iff [simp]: "EncodeToString bs = [] \<longleftrightarrow> bs = []"
  by (cases bs rule: b64_sextets.cases) (auto simp: EncodeToString_def)

lemma auth_decodeExact_Encode [simp]:
  "auth_decodeExact (EncodeToString bs) n = Inr bs' \<longleftrightarrow> bs' = bs \<and> bs \<noteq> [] \<and> length bs = n"
  by (auto simp: auth_decodeExact_ok DecodeString_EncodeToString)

text \<open>
  What the exchange needs of SHA-256 and ECDSA: digests have 32 bytes, and a signer produces 64-byte
  signatures that verify under its public key.
\<close>

definition sha256_len :: "crypto \<Rightarrow> bool" where
  "sha256_len cr \<longleftrightarrow> (\<forall>m. length (sha256 cr m) = 32)"

definition signs_for :: "crypto \<Rightarrow> signer \<Rightarrow> int \<times> int \<Rightarrow> bool" where
  "signs_for cr sg k \<longleftrightarrow>
     (\<forall>m sig. sg_sign sg m = Some sig \<longrightarrow>
        length sig = 64 \<and> ecdsa_verify cr k m (be_value (take 32 sig)) (be_value (drop 32 sig)))"

lemma Sign_verifies:
  assumes "Sign cr sg t = Inr sig" "signs_for cr sg k"
  shows "VerifyRawSignature cr (Some k) t sig" "\<exists>bs. auth_decodeExact sig 64 = Inr bs"
  using assms by (fastforce simp: Sign_def VerifyRawSignature_def signs_for_def
      DecodeString_EncodeToString split: option.splits)+

text \<open>A subject whose key can be found is live.\<close>

lemma subject_key_live:
  assumes "subject_key_column d s = Some enc" "enc \<noteq> []"
    and "ts_SubjectType s = ''host'' \<or> ts_SubjectType s = ''device''"
  shows "subject_live d (ts_TenantID s) (ts_SubjectType s) (ts_SubjectID s) (ts_HostID s)"
  using assms unfolding subject_key_column_def subject_live_def
  by (auto simp: list_ex_iff split: if_splits dest!: find_Some_in)

definition issued_challenge :: "crypto \<Rightarrow> signed_challenge \<Rightarrow> bytes \<Rightarrow> challenge_row" where
  "issued_challenge cr c v = \<lparr>ch_challenge_id = sc_ChallengeID c, ch_challenge_hash = sha256 cr v,
     ch_protocol_version = sc_ProtocolVersion c, ch_relay_fingerprint = sc_RelayFingerprint c,
     ch_relay_signature = sc_RelaySignature c, ch_subject_type = sc_SubjectType c,
     ch_subject_id = sc_SubjectID c, ch_tenant_id = sc_TenantID c, ch_host_id = sc_HostID c,
     ch_device_id = sc_DeviceID c, ch_purpose = sc_Purpose c, ch_issued_at = sc_IssuedAt c,
     ch_expires_at = sc_ExpiresAt c, ch_consumed_at = None\<rparr>"

lemma CreateChallenge_ok:
  assumes "CreateChallenge cr svc r1 r2 now flt s d = (Inr c, d')"
  obtains sg cid v t sig where "auth_ready svc = Some sg" "Sign cr sg t = Inr sig" "validateScope s = Inr ()"
    "\<exists>k. subjectSigningKey flt s d = (Inr k, d)"
    "r1 18 = Some cid" "r2 credentialBytes = Some v"
    "c = \<lparr>sc_ProtocolVersion = ProtocolVersion,
           sc_RelayFingerprint = FingerprintBase64URL (Public cr sg),
           sc_ChallengeID = EncodeToString cid, sc_Challenge = EncodeToString v,
           sc_SubjectType = ts_SubjectType s, sc_SubjectID = ts_SubjectID s,
           sc_TenantID = ts_TenantID s, sc_HostID = ts_HostID s, sc_DeviceID = ts_DeviceID s,
           sc_Purpose = ts_Purpose s, sc_IssuedAt = UnixMilli now,
           sc_ExpiresAt = UnixMilli (now + maxLifetime), sc_RelaySignature = sig\<rparr>"
    "challengeTranscript c = Inr t"
    "insert_challenge (issued_challenge cr c v) d = Some ((), d')"
proof -
  have st: "subjectSigningKey flt s d = (Inr k, d1) \<Longrightarrow> d1 = d" for k d1
    by (simp add: subjectSigningKey_ok)
  have tr: "challengeTranscript c = challengeTranscript (c\<lparr>sc_RelaySignature := []\<rparr>)" for c
    by (simp add: challengeTranscript_def cong: sum.case_cong)
  show thesis
    using assms unfolding CreateChallenge_def Let_def
    by (simp only: tx_bind_Inr tx_guard_Inr tx_call_Inr tx_ret_Inr tx_lift_Inr tx_some_Inr
          tx_exec_Inr or_code_Inr randomBase64URL_ok split_paired_Ex case_prod_conv
          signed_challenge.simps)
      (elim exE conjE, hypsubst, frule st, hypsubst, rule that,
       assumption, assumption, simp (no_asm_simp), rule exI, assumption, assumption, assumption,
       simp (no_asm_simp), subst tr, simp (no_asm_simp), simp (no_asm_simp) add: issued_challenge_def)
qed

lemma Prove_succeeds:
  fixes rq defines "c \<equiv> pr_Challenge rq"
  assumes "auth_ready svc = Some sg" "sc_ProtocolVersion c = ProtocolVersion"
    "sc_RelayFingerprint c = FingerprintBase64URL (Public cr sg)" "validateScope (scope c) = Inr ()"
    "sc_IssuedAt c \<le> UnixMilli now" "UnixMilli now < sc_ExpiresAt c"
    "wrap64 (sc_ExpiresAt c - sc_IssuedAt c) \<le> maxLifetime_ms"
    "auth_decodeExact (sc_Challenge c) credentialBytes = Inr cv"
    "auth_decodeExact (sc_RelaySignature c) 64 = Inr rs"
    "challengeTranscript c = Inr tb"
    "DecodeSEC1PublicKey (PublicKeyBase64URL (Public cr sg)) = Inr rk"
    "VerifyRawSignature cr (Some rk) tb (sc_RelaySignature c)"
    "auth_decodeExact (pr_SubjectSignature rq) 64 = Inr ss"
    "subjectSigningKey no_faults (scope c) d = (Inr k, d)"
    "proofTranscript c tb = Inr pb"
    "VerifyRawSignature cr (Some k) pb (pr_SubjectSignature rq)"
    "consumeChallenge no_faults c (sha256 cr cv) (UnixMilli now) d = (Inr (), d1)"
    "rnd credentialBytes = Some tv"
    "insert_ticket (issued_ticket cr (scope c) (UnixMilli now) tv) d1 = Some ((), d2)"
  shows "Prove cr svc rnd now no_faults rq d =
    (Inr \<lparr>tt_Ticket = EncodeToString tv, tt_Purpose = sc_Purpose c,
       tt_ExpiresAt = UnixMilli now + maxLifetime_ms\<rparr>, d2)"
proof -
  have "ts_Purpose (scope c) = sc_Purpose c" by (simp add: scope_def)
  then show ?thesis
    using assms(2-) unfolding Prove_def Let_def c_def [symmetric]
    by (simp add: tx_simps or_code_def randomBase64URL_def issued_ticket_def)
qed

lemma inserted_in_challenges:
  "insert_challenge r d = Some (u, d') \<Longrightarrow> r \<in> set (auth_challenges d') \<and>
   tenants d' = tenants d \<and> hosts d' = hosts d \<and> devices d' = devices d"
  by (auto simp: tx_inv)

lemma subject_live_cong:
  "tenants d' = tenants d \<Longrightarrow> hosts d' = hosts d \<Longrightarrow> devices d' = devices d \<Longrightarrow>
   subject_live d' t ty s h = subject_live d t ty s h"
  by (simp add: subject_live_def tenant_enabled_def host_active_def)

lemma consumeChallenge_fresh:
  assumes "db_inv d" "issued_challenge cr c v \<in> set (auth_challenges d)" "now < sc_ExpiresAt c"
    and "subject_live d (sc_TenantID c) (sc_SubjectType c) (sc_SubjectID c) (sc_HostID c)"
  shows "\<exists>d1. consumeChallenge no_faults c (sha256 cr v) now d = (Inr (), d1) \<and>
    tenants d1 = tenants d \<and> hosts d1 = hosts d \<and> devices d1 = devices d \<and>
    auth_tickets d1 = auth_tickets d"
proof -
  have "challenge_matches d c (sha256 cr v) now (issued_challenge cr c v)"
    using assms(3,4) by (simp add: challenge_matches_def issued_challenge_def)
  with assms(2) have "affected (challenge_matches d c (sha256 cr v) now) (auth_challenges d) = 1"
    using assms(1)
    by (subst affected_key_eq_1 [of ch_challenge_id _ _ "sc_ChallengeID c"])
      (auto simp: db_inv_defs challenge_matches_def)
  then show ?thesis by (simp add: consumeChallenge_ok)
qed

lemma ConsumeTicket_fresh:
  assumes "db_inv d" "issued_ticket cr s t0 v \<in> set (auth_tickets d)"
    and "length v = credentialBytes" "UnixMilli now < t0 + maxLifetime_ms"
    and "subject_live d (ts_TenantID s) (ts_SubjectType s) (ts_SubjectID s) (ts_HostID s)"
    and "validateScope s = Inr ()" "svc = Some a" "as_store a"
  shows "\<exists>d'. ConsumeTicket cr svc now no_faults (EncodeToString v) s d = (Inr (), d')"
proof -
  have "v \<noteq> []" using assms(3) by (auto simp: credentialBytes_def)
  then have v: "auth_decodeExact (EncodeToString v) credentialBytes = Inr v"
    using assms(3) by simp
  have "ticket_matches d s (sha256 cr v) (UnixMilli now) (issued_ticket cr s t0 v)"
    using assms(4,5) by (simp add: ticket_matches_def issued_ticket_def)
  with assms(2) have "affected (ticket_matches d s (sha256 cr v) (UnixMilli now)) (auth_tickets d) = 1"
    using assms(1)
    by (subst affected_key_eq_1 [of tk_ticket_hash _ _ "sha256 cr v"])
      (auto simp: db_inv_defs ticket_matches_def)
  with v show ?thesis using assms(6-8) by (auto simp: ConsumeTicket_ok)
qed

lemma CreateChallenge_succeeds:
  fixes cr sg s now cid v
  defines "c \<equiv> \<lambda>sig. \<lparr>sc_ProtocolVersion = ProtocolVersion,
           sc_RelayFingerprint = FingerprintBase64URL (Public cr sg),
           sc_ChallengeID = EncodeToString cid, sc_Challenge = EncodeToString v,
           sc_SubjectType = ts_SubjectType s, sc_SubjectID = ts_SubjectID s,
           sc_TenantID = ts_TenantID s, sc_HostID = ts_HostID s, sc_DeviceID = ts_DeviceID s,
           sc_Purpose = ts_Purpose s, sc_IssuedAt = UnixMilli now,
           sc_ExpiresAt = UnixMilli (now + maxLifetime), sc_RelaySignature = sig\<rparr>"
  assumes "auth_ready svc = Some sg" "validateScope s = Inr ()"
    "subjectSigningKey no_faults s d = (Inr k, d)" "r1 18 = Some cid" "r2 credentialBytes = Some v"
    "challengeTranscript (c []) = Inr t" "Sign cr sg t = Inr sig"
    "EncodeToString cid \<notin> ch_challenge_id ` set (auth_challenges d)"
  shows "CreateChallenge cr svc r1 r2 now no_faults s d =
    (Inr (c sig), d\<lparr>auth_challenges := auth_challenges d @ [issued_challenge cr (c sig) v]\<rparr>)"
  using assms(2-) unfolding CreateChallenge_def Let_def c_def
  by (simp add: tx_simps or_code_def randomBase64URL_def issued_challenge_def insert_challenge_def)

lemma exchange_Prove:
  assumes inv: "db_inv d"
    and create: "CreateChallenge cr svc r1 r2 now1 no_faults s d = (Inr c, d1)"
    and relay: "auth_ready svc = Some sg"
      "DecodeSEC1PublicKey (PublicKeyBase64URL (Public cr sg)) = Inr rk" "signs_for cr sg rk"
    and subject: "subjectSigningKey no_faults s d1 = (Inr k, d1)" "signs_for cr subj k"
      "challengeTranscript c = Inr tb" "proofTranscript c tb = Inr pb" "Sign cr subj pb = Inr sig"
    and time: "now1 \<le> now2" "UnixMilli now2 < UnixMilli now1 + 60000"
    and fresh: "rnd credentialBytes = Some tv" "length tv = credentialBytes"
      "sha256 cr tv \<notin> tk_ticket_hash ` set (auth_tickets d1)"
  shows "\<exists>d2. Prove cr svc rnd now2 no_faults \<lparr>pr_Challenge = c, pr_SubjectSignature = sig\<rparr> d1 =
      (Inr \<lparr>tt_Ticket = EncodeToString tv, tt_Purpose = ts_Purpose s,
        tt_ExpiresAt = UnixMilli now2 + maxLifetime_ms\<rparr>, d2) \<and>
    db_inv d2 \<and> issued_ticket cr s (UnixMilli now2) tv \<in> set (auth_tickets d2) \<and>
    subject_live d2 (ts_TenantID s) (ts_SubjectType s) (ts_SubjectID s) (ts_HostID s)"
proof -
  have life: "maxLifetime_ms = 60000" "UnixMilli (now1 + maxLifetime) = UnixMilli now1 + 60000"
    using UnixMilli_add_ms [of now1 60000]
    by (simp_all add: maxLifetime_ms_def maxLifetime_def Second_def Millisecond_def)
  obtain cid v rsig where c: "validateScope s = Inr ()"
      "c = \<lparr>sc_ProtocolVersion = ProtocolVersion,
           sc_RelayFingerprint = FingerprintBase64URL (Public cr sg),
           sc_ChallengeID = EncodeToString cid, sc_Challenge = EncodeToString v,
           sc_SubjectType = ts_SubjectType s, sc_SubjectID = ts_SubjectID s,
           sc_TenantID = ts_TenantID s, sc_HostID = ts_HostID s, sc_DeviceID = ts_DeviceID s,
           sc_Purpose = ts_Purpose s, sc_IssuedAt = UnixMilli now1,
           sc_ExpiresAt = UnixMilli now1 + 60000, sc_RelaySignature = rsig\<rparr>"
      "Sign cr sg tb = Inr rsig" "insert_challenge (issued_challenge cr c v) d = Some ((), d1)"
    using create relay(1) subject(3) life(2) by (elim CreateChallenge_ok) force
  have s: "scope c = s" by (simp add: c(2) scope_def)
  have v: "auth_decodeExact (sc_Challenge c) credentialBytes = Inr v"
    using subject(3) by (auto simp: challengeTranscript_ok c(2))
  have inv1: "db_inv d1" using create inv inv.obeysD [OF auth_ops_inv(3)] by blast
  have live: "subject_live d1 (ts_TenantID s) (ts_SubjectType s) (ts_SubjectID s) (ts_HostID s)"
    using subject(1) subject_key_live by (auto simp: subjectSigningKey_ok auth_decodeExact_ok)
  obtain d2 where d2: "consumeChallenge no_faults c (sha256 cr v) (UnixMilli now2) d1 = (Inr (), d2)"
    "tenants d2 = tenants d1" "hosts d2 = hosts d1" "devices d2 = devices d1"
    "auth_tickets d2 = auth_tickets d1"
    using consumeChallenge_fresh [OF inv1, of cr c v "UnixMilli now2"] c(4) time(2) live
    by (auto simp: c(2) dest!: inserted_in_challenges)
  let ?tk = "issued_ticket cr s (UnixMilli now2) tv"
  let ?d3 = "d2\<lparr>auth_tickets := auth_tickets d2 @ [?tk]\<rparr>"
  have ins: "insert_ticket ?tk d2 = Some ((), ?d3)"
    using fresh(3) d2(5) by (simp add: tx_inv issued_ticket_def)
  obtain rs ss where sigs: "auth_decodeExact (sc_RelaySignature c) 64 = Inr rs"
      "auth_decodeExact sig 64 = Inr ss" "VerifyRawSignature cr (Some rk) tb (sc_RelaySignature c)"
      "VerifyRawSignature cr (Some k) pb sig"
    using Sign_verifies [OF c(3) relay(3)] Sign_verifies [OF subject(5,2)] by (auto simp: c(2))
  have "Prove cr svc rnd now2 no_faults \<lparr>pr_Challenge = c, pr_SubjectSignature = sig\<rparr> d1 =
     (Inr \<lparr>tt_Ticket = EncodeToString tv, tt_Purpose = ts_Purpose s,
        tt_ExpiresAt = UnixMilli now2 + maxLifetime_ms\<rparr>, ?d3)"
    using Prove_succeeds [of svc sg "\<lparr>pr_Challenge = c, pr_SubjectSignature = sig\<rparr>" cr now2 v rs tb rk ss
        d1 k pb d2 rnd tv ?d3] relay(1,2) c(1) subject(1,3,4) sigs v d2(1) fresh(1) ins s life(1)
      time(2) UnixMilli_mono [OF time(1)]
    by (simp add: c(2) int64_range_def)
  moreover have "db_inv ?d3"
    using inv1 d2(1) ins inv.obeysD [OF auth_ops_inv(2)] insert_ticket_inv by blast
  moreover have "subject_live ?d3 (ts_TenantID s) (ts_SubjectType s) (ts_SubjectID s) (ts_HostID s)"
    using live d2(2-4) subject_live_cong [of ?d3 d1] by simp
  ultimately show ?thesis by (intro exI [of _ ?d3]) simp
qed

text \<open>
  C4: The exchange completes. A subject that was given a challenge and signs it with the key
  registered for it, within the challenge's 60 seconds, obtains a ticket; presented within its own
  60 seconds for the scope of the challenge, the ticket is accepted. (SHA-256 digests have 32 bytes,
  the relay's and the subject's signatures verify under their keys, and the ticket's random value
  does not collide with an earlier one.)
\<close>

theorem challenge_proof_ticket:
  assumes inv: "db_inv d"
    and create: "CreateChallenge cr svc r1 r2 now1 no_faults s d = (Inr c, d1)"
    and relay: "auth_ready svc = Some sg"
      "DecodeSEC1PublicKey (PublicKeyBase64URL (Public cr sg)) = Inr rk" "signs_for cr sg rk"
    and subject: "subjectSigningKey no_faults s d1 = (Inr k, d1)" "signs_for cr subj k"
      "challengeTranscript c = Inr tb" "proofTranscript c tb = Inr pb" "Sign cr subj pb = Inr sig"
    and time: "now1 \<le> now2" "UnixMilli now2 < UnixMilli now1 + 60000"
      "UnixMilli now3 < UnixMilli now2 + 60000"
    and fresh: "rnd credentialBytes = Some tv" "length tv = credentialBytes"
      "sha256 cr tv \<notin> tk_ticket_hash ` set (auth_tickets d1)"
  shows "\<exists>t d2 d3.
    Prove cr svc rnd now2 no_faults \<lparr>pr_Challenge = c, pr_SubjectSignature = sig\<rparr> d1 = (Inr t, d2) \<and>
    ConsumeTicket cr svc now3 no_faults (tt_Ticket t) s d2 = (Inr (), d3)"
proof -
  obtain d2 where
    "Prove cr svc rnd now2 no_faults \<lparr>pr_Challenge = c, pr_SubjectSignature = sig\<rparr> d1 =
      (Inr \<lparr>tt_Ticket = EncodeToString tv, tt_Purpose = ts_Purpose s,
        tt_ExpiresAt = UnixMilli now2 + maxLifetime_ms\<rparr>, d2)"
    and d2: "db_inv d2" "issued_ticket cr s (UnixMilli now2) tv \<in> set (auth_tickets d2)"
      "subject_live d2 (ts_TenantID s) (ts_SubjectType s) (ts_SubjectID s) (ts_HostID s)"
    using exchange_Prove [where rnd = rnd, OF inv create relay subject time(1,2) fresh] by blast
  moreover have "validateScope s = Inr ()" using create by (rule CreateChallenge_ok)
  moreover obtain a where "svc = Some a" "as_store a"
    using relay(1) by (auto simp: auth_ready_def split: option.splits if_splits)
  moreover have "maxLifetime_ms = 60000"
    by (simp add: maxLifetime_ms_def maxLifetime_def Second_def Millisecond_def)
  ultimately show ?thesis
    using ConsumeTicket_fresh [OF d2(1,2) fresh(2) _ d2(3)] time(3) by fastforce
qed

text \<open>What \<open>subject_live\<close> asks of the rows.\<close>

lemma subject_live_iff:
  "subject_live d t ty i h \<longleftrightarrow>
   (\<exists>r\<in>set (tenants d). tn_tenant_id r = t \<and> tn_enabled r = 1) \<and>
   (if ty = ''host'' then
      \<exists>r\<in>set (hosts d). ho_tenant_id r = t \<and> ho_host_id r = i \<and> ho_enabled r = 1 \<and> ho_revoked r = 0 \<and>
        ho_signing_public_key r \<noteq> []
    else ty = ''device'' \<and>
      (\<exists>v\<in>set (devices d). dv_tenant_id v = t \<and> dv_host_id v = h \<and> dv_device_id v = i \<and> dv_revoked v = 0 \<and>
         dv_signing_public_key v \<noteq> []) \<and>
      (\<exists>r\<in>set (hosts d). ho_tenant_id r = t \<and> ho_host_id r = h \<and> ho_enabled r = 1 \<and> ho_revoked r = 0))"
  unfolding subject_live_def tenant_enabled_def host_active_def list_ex_iff
  by (cases "ty = ''host''") (simp_all cong: conj_cong, blast+)

text \<open>
  C6: A ticket is accepted exactly when the store holds an unconsumed, unexpired ticket with the
  digest of the presented bytes and the very scope asked for, its tenant is enabled and its subject
  (an active host, or an unrevoked device of an active host, with a signing key) still exists. Accepting
  marks that ticket as consumed and changes nothing else; a refusal changes nothing.
\<close>

theorem ConsumeTicket_accepts:
  assumes "db_inv d"
  shows "let run = ConsumeTicket cr (Some svc) now no_faults raw s d in
    (fst run = Inr () \<longleftrightarrow> as_store svc \<and> validateScope s = Inr () \<and>
      (\<exists>v r. auth_decodeExact raw credentialBytes = Inr v \<and> r \<in> set (auth_tickets d) \<and> tk_ticket_hash r = sha256 cr v \<and>
        tk_consumed_at r = None \<and> UnixMilli now < tk_expires_at r \<and>
        tk_subject_type r = ts_SubjectType s \<and> tk_subject_id r = ts_SubjectID s \<and> tk_tenant_id r = ts_TenantID s \<and>
        tk_host_id r = ts_HostID s \<and> tk_device_id r = ts_DeviceID s \<and> tk_purpose r = ts_Purpose s) \<and>
      (\<exists>t\<in>set (tenants d). tn_tenant_id t = ts_TenantID s \<and> tn_enabled t = 1) \<and>
      (if ts_SubjectType s = ''host'' then
         \<exists>h\<in>set (hosts d). ho_tenant_id h = ts_TenantID s \<and> ho_host_id h = ts_SubjectID s \<and> ho_enabled h = 1 \<and>
           ho_revoked h = 0 \<and> ho_signing_public_key h \<noteq> []
       else ts_SubjectType s = ''device'' \<and>
         (\<exists>v\<in>set (devices d). dv_tenant_id v = ts_TenantID s \<and> dv_host_id v = ts_HostID s \<and>
            dv_device_id v = ts_SubjectID s \<and> dv_revoked v = 0 \<and> dv_signing_public_key v \<noteq> []) \<and>
         (\<exists>h\<in>set (hosts d). ho_tenant_id h = ts_TenantID s \<and> ho_host_id h = ts_HostID s \<and> ho_enabled h = 1 \<and>
            ho_revoked h = 0))) \<and>
    (fst run = Inr () \<longrightarrow> (\<exists>v. auth_decodeExact raw credentialBytes = Inr v \<and>
      snd run = d\<lparr>auth_tickets := map (\<lambda>r. if tk_ticket_hash r = sha256 cr v
        then r\<lparr>tk_consumed_at := Some (UnixMilli now)\<rparr> else r) (auth_tickets d)\<rparr>)) \<and>
    (fst run \<noteq> Inr () \<longrightarrow> snd run = d)"
proof -
  let ?run = "ConsumeTicket cr (Some svc) now no_faults raw s d"
  let ?P = "\<lambda>v. ticket_matches d s (sha256 cr v) (UnixMilli now)"
  have dist: "distinct (map tk_ticket_hash (auth_tickets d))" using assms by (simp add: db_inv_defs)
  have one: "affected (?P v) (auth_tickets d) = 1 \<longleftrightarrow> (\<exists>r\<in>set (auth_tickets d). ?P v r)" for v
    using assms by (intro affected_key_eq_1 [of tk_ticket_hash _ _ "sha256 cr v"])
      (auto simp: db_inv_defs ticket_matches_def)
  have marks: "update_where (?P v) f (auth_tickets d) =
      map (\<lambda>r. if tk_ticket_hash r = sha256 cr v then f r else r) (auth_tickets d)"
    if hit: "\<exists>r\<in>set (auth_tickets d). ?P v r" for v f
    by (rule update_where_unique [OF dist hit]) (simp add: ticket_matches_def)
  have "fst ?run = Inr () \<longleftrightarrow> (\<exists>d'. ?run = (Inr (), d'))" by (cases ?run) auto
  then have accepts: "fst ?run = Inr () \<longleftrightarrow> as_store svc \<and> validateScope s = Inr () \<and>
      (\<exists>v r. auth_decodeExact raw credentialBytes = Inr v \<and> r \<in> set (auth_tickets d) \<and> ?P v r)"
    unfolding ConsumeTicket_ok using one by blast
  have success: "\<exists>v. auth_decodeExact raw credentialBytes = Inr v \<and>
      d' = d\<lparr>auth_tickets := map (\<lambda>r. if tk_ticket_hash r = sha256 cr v
        then r\<lparr>tk_consumed_at := Some (UnixMilli now)\<rparr> else r) (auth_tickets d)\<rparr>" if "?run = (Inr (), d')" for d'
  proof -
    from that obtain v where v: "auth_decodeExact raw credentialBytes = Inr v" "affected (?P v) (auth_tickets d) = 1"
      and "d' = d\<lparr>auth_tickets := update_where (?P v) (\<lambda>r. r\<lparr>tk_consumed_at := Some (UnixMilli now)\<rparr>) (auth_tickets d)\<rparr>"
      unfolding ConsumeTicket_ok by blast
    with marks [OF one [THEN iffD1, OF v(2)]] show ?thesis by auto
  qed
  have refusal: "d' = d" if "?run = (Inl e, d')" for e d'
  proof -
    have "d1 = d" if "affected P (auth_tickets d) \<noteq> 1" "P = ?P v"
        "d1 = d\<lparr>auth_tickets := update_where P f (auth_tickets d)\<rparr>" for P v f d1
      using that one [of v] update_where_none [of P "auth_tickets d" f] by (simp add: affected_0_iff)
    with that show ?thesis by (auto simp: ConsumeTicket_def Let_def tx_inv tx_err)
  qed
  have "(fst ?run = Inr () \<longrightarrow> (\<exists>v. auth_decodeExact raw credentialBytes = Inr v \<and>
      snd ?run = d\<lparr>auth_tickets := map (\<lambda>r. if tk_ticket_hash r = sha256 cr v
        then r\<lparr>tk_consumed_at := Some (UnixMilli now)\<rparr> else r) (auth_tickets d)\<rparr>)) \<and>
    (fst ?run \<noteq> Inr () \<longrightarrow> snd ?run = d)"
    using success refusal by (cases ?run; cases "fst ?run") auto
  then show ?thesis
    unfolding Let_def accepts ticket_matches_def subject_live_iff by (intro conjI) (auto cong: conj_cong)
qed

text \<open>
  C5: A ticket is issued only for a proof. When \<open>Prove\<close> succeeds, the subject is registered and
  active, its stored key verifies the presented signature over the transcript of this very challenge,
  the relay's own key verifies the challenge, the store held that challenge, with the digest
  of its bytes and every field as presented, unconsumed and unexpired; the only ticket added is for the challenge's scope, valid for 60 seconds.
\<close>

theorem Prove_sound:
  assumes "Prove cr svc rnd now flt rq d = (Inr t, d')"
  shows "\<exists>sg rk enc k tb pb r cv v. let c = pr_Challenge rq in
    auth_ready svc = Some sg \<and> validateScope (scope c) = Inr () \<and>
    DecodeSEC1PublicKey (PublicKeyBase64URL (Public cr sg)) = Inr rk \<and>
    challengeTranscript c = Inr tb \<and> VerifyRawSignature cr (Some rk) tb (sc_RelaySignature c) \<and>
    subject_key_column d (scope c) = Some enc \<and> DecodeSEC1PublicKey enc = Inr k \<and>
    proofTranscript c tb = Inr pb \<and> VerifyRawSignature cr (Some k) pb (pr_SubjectSignature rq) \<and>
    auth_decodeExact (sc_Challenge c) credentialBytes = Inr cv \<and>
    r \<in> set (auth_challenges d) \<and> r = issued_challenge cr c cv \<and> ch_challenge_id r = sc_ChallengeID c \<and>
    ch_consumed_at r = None \<and> UnixMilli now < ch_expires_at r \<and>
    auth_tickets d' = auth_tickets d @ [issued_ticket cr (scope c) (UnixMilli now) v] \<and>
    tt_Ticket t = EncodeToString v \<and> tt_ExpiresAt t = UnixMilli now + 60000"
  using assms
proof (rule Prove_ok)
  fix sg cv tb rk k pb tv u d1
  let ?c = "pr_Challenge rq" and ?h = "sha256 cr cv"
  assume run: "auth_ready svc = Some sg" "validateScope (scope ?c) = Inr ()"
    "auth_decodeExact (sc_Challenge ?c) credentialBytes = Inr cv"
    "DecodeSEC1PublicKey (PublicKeyBase64URL (Public cr sg)) = Inr rk"
    "challengeTranscript ?c = Inr tb" "VerifyRawSignature cr (Some rk) tb (sc_RelaySignature ?c)"
    "proofTranscript ?c tb = Inr pb" "VerifyRawSignature cr (Some k) pb (pr_SubjectSignature rq)"
    and key: "subjectSigningKey flt (scope ?c) d = (Inr k, d)"
    and use: "consumeChallenge flt ?c ?h (UnixMilli now) d = (Inr u, d1)"
    and d': "d' = d1\<lparr>auth_tickets := auth_tickets d1 @ [issued_ticket cr (scope ?c) (UnixMilli now) tv]\<rparr>"
    and t: "t = \<lparr>tt_Ticket = EncodeToString tv, tt_Purpose = sc_Purpose ?c,
        tt_ExpiresAt = UnixMilli now + maxLifetime_ms\<rparr>"
  from key obtain enc where "subject_key_column d (scope ?c) = Some enc" "DecodeSEC1PublicKey enc = Inr k"
    by (auto simp: subjectSigningKey_ok)
  moreover from use have "affected (challenge_matches d ?c ?h (UnixMilli now)) (auth_challenges d) = 1"
    and "auth_tickets d1 = auth_tickets d"
    by (simp_all add: consumeChallenge_ok)
  moreover from this(1) obtain r where "r \<in> set (auth_challenges d)"
    "challenge_matches d ?c ?h (UnixMilli now) r"
    using affected_update_in [of "challenge_matches d ?c ?h (UnixMilli now)" _ id] by blast
  moreover from this(2) have "r = issued_challenge cr ?c cv"
    by (cases r) (simp add: challenge_matches_def issued_challenge_def)
  ultimately show ?thesis
    using run d' t unfolding challenge_matches_def Let_def
    by (intro exI conjI) (assumption | simp add: maxLifetime_ms_def maxLifetime_def Second_def Millisecond_def)+
qed

end
