(* ===== verification/Json.thy ===== *)
theory Json
  imports GoStrings
begin

text \<open>
  What the relay uses of Go's \<open>unicode/utf8\<close> and \<open>encoding/json\<close> (Go 1.25): UTF-8 validity, the
  scanner that finds where a JSON value ends (the states and the parse stack of
  \<open>encoding/json/scanner.go\<close>, with its nesting limit), quoting and unquoting of strings, and
  the members of an object. The lemmas show that scanning splits its input and that unquoting
  inverts quoting on valid UTF-8.
\<close>

section \<open>UTF-8\<close>

definition byte_in :: "int \<Rightarrow> int \<Rightarrow> char \<Rightarrow> bool" where
  "byte_in a b c = (a \<le> of_char c \<and> of_char c \<le> b)"

definition cont :: "char \<Rightarrow> bool" where
  "cont c = byte_in 0x80 0xBF c"

text \<open>The length of the valid encoding a string starts with, 0 when there is none.\<close>

fun rune_len :: "string \<Rightarrow> nat" where
  "rune_len [] = 0"
| "rune_len (a # s) =
     (if byte_in 0x00 0x7F a then 1
      else case s of
        [] \<Rightarrow> 0
      | b # t \<Rightarrow>
          if byte_in 0xC2 0xDF a \<and> cont b then 2
          else case t of
            [] \<Rightarrow> 0
          | c # u \<Rightarrow>
              if (byte_in 0xE0 0xE0 a \<and> byte_in 0xA0 0xBF b \<or>
                  (byte_in 0xE1 0xEC a \<or> byte_in 0xEE 0xEF a) \<and> cont b \<or>
                  byte_in 0xED 0xED a \<and> byte_in 0x80 0x9F b) \<and> cont c then 3
              else case u of
                [] \<Rightarrow> 0
              | d # _ \<Rightarrow>
                  if (byte_in 0xF0 0xF0 a \<and> byte_in 0x90 0xBF b \<or>
                      byte_in 0xF1 0xF3 a \<and> cont b \<or>
                      byte_in 0xF4 0xF4 a \<and> byte_in 0x80 0x8F b) \<and> cont c \<and> cont d then 4
                  else 0)"

function utf8_valid :: "string \<Rightarrow> bool" where
  "utf8_valid s =
     (if s = [] then True else if rune_len s = 0 then False else utf8_valid (drop (rune_len s) s))"
  by pat_completeness auto
termination
  by (relation "measure length") auto

declare utf8_valid.simps [simp del]

text \<open>\<open>utf8.AppendRune\<close>\<close>

definition EncodeRune :: "int \<Rightarrow> string" where
  "EncodeRune r =
     (if r < 0x80 then [char_of r]
      else if r < 0x800 then [char_of (0xC0 + r div 64), char_of (0x80 + r mod 64)]
      else if r < 0x10000 then
        [char_of (0xE0 + r div 4096), char_of (0x80 + r div 64 mod 64), char_of (0x80 + r mod 64)]
      else [char_of (0xF0 + r div 262144), char_of (0x80 + r div 4096 mod 64),
            char_of (0x80 + r div 64 mod 64), char_of (0x80 + r mod 64)])"

definition RuneError :: int where "RuneError = 0xFFFD"

section \<open>The scanner\<close>

datatype parse_state = ParseObjectKey | ParseObjectValue | ParseArrayValue

datatype scan_state =
    BeginValue | BeginValueOrEmpty | BeginStringOrEmpty | BeginString | EndValue
  | InString | InStringEsc | InStringEscU | InStringEscU1 | InStringEscU12 | InStringEscU123
  | Neg | Digits | Zero | Dot | Dot0 | Exp | ExpSign | Exp0
  | Lit string

definition json_space :: "char \<Rightarrow> bool" where
  "json_space c = (c \<in> {CHR '' '', CHR 0x09, CHR 0x0D, CHR 0x0A})"

definition maxNestingDepth :: nat where "maxNestingDepth = 10000"

definition hex_val :: "char \<Rightarrow> int option" where
  "hex_val c =
     (let n = (of_char c :: int) in
      if 48 \<le> n \<and> n \<le> 57 then Some (n - 48)
      else if 97 \<le> n \<and> n \<le> 102 then Some (n - 87)
      else if 65 \<le> n \<and> n \<le> 70 then Some (n - 55) else None)"

datatype scan_result = Go scan_state "parse_state list" | Stop | Bad

definition push_state :: "scan_state \<Rightarrow> parse_state \<Rightarrow> parse_state list \<Rightarrow> scan_result" where
  "push_state st p ps = (if length ps < maxNestingDepth then Go st (p # ps) else Bad)"

definition begin_value :: "parse_state list \<Rightarrow> char \<Rightarrow> scan_result" where
  "begin_value ps c =
     (if json_space c then Go BeginValue ps
      else if c = CHR ''{'' then push_state BeginStringOrEmpty ParseObjectKey ps
      else if c = CHR ''['' then push_state BeginValueOrEmpty ParseArrayValue ps
      else if c = CHR 0x22 then Go InString ps
      else if c = CHR ''-'' then Go Neg ps
      else if c = CHR ''0'' then Go Zero ps
      else if c = CHR ''t'' then Go (Lit ''rue'') ps
      else if c = CHR ''f'' then Go (Lit ''alse'') ps
      else if c = CHR ''n'' then Go (Lit ''ull'') ps
      else if byte_in 0x31 0x39 c then Go Digits ps
      else Bad)"

definition begin_string :: "parse_state list \<Rightarrow> char \<Rightarrow> scan_result" where
  "begin_string ps c =
     (if json_space c then Go BeginString ps else if c = CHR 0x22 then Go InString ps else Bad)"

text \<open>\<open>Stop\<close>: the value ended before this character. An empty stack is the end of the value.\<close>

fun end_value :: "parse_state list \<Rightarrow> char \<Rightarrow> scan_result" where
  "end_value [] c = Stop"
| "end_value (ParseObjectKey # ps) c =
     (if json_space c then Go EndValue (ParseObjectKey # ps)
      else if c = CHR '':'' then Go BeginValue (ParseObjectValue # ps) else Bad)"
| "end_value (ParseObjectValue # ps) c =
     (if json_space c then Go EndValue (ParseObjectValue # ps)
      else if c = CHR '','' then Go BeginString (ParseObjectKey # ps)
      else if c = CHR ''}'' then Go EndValue ps else Bad)"
| "end_value (ParseArrayValue # ps) c =
     (if json_space c then Go EndValue (ParseArrayValue # ps)
      else if c = CHR '','' then Go BeginValue (ParseArrayValue # ps)
      else if c = CHR '']'' then Go EndValue ps else Bad)"

fun scan_step :: "scan_state \<Rightarrow> parse_state list \<Rightarrow> char \<Rightarrow> scan_result" where
  "scan_step BeginValue ps c = begin_value ps c"
| "scan_step BeginValueOrEmpty ps c =
     (if json_space c then Go BeginValueOrEmpty ps
      else if c = CHR '']'' then end_value ps c else begin_value ps c)"
| "scan_step BeginStringOrEmpty ps c =
     (if json_space c then Go BeginStringOrEmpty ps
      else if c = CHR ''}'' then end_value (ParseObjectValue # tl ps) c else begin_string ps c)"
| "scan_step BeginString ps c = begin_string ps c"
| "scan_step EndValue ps c = end_value ps c"
| "scan_step InString ps c =
     (if c = CHR 0x22 then Go EndValue ps
      else if c = CHR 0x5C then Go InStringEsc ps
      else if byte_in 0x00 0x1F c then Bad else Go InString ps)"
| "scan_step InStringEsc ps c =
     (if c \<in> {CHR ''b'', CHR ''f'', CHR ''n'', CHR ''r'', CHR ''t'', CHR 0x5C, CHR ''/'', CHR 0x22}
      then Go InString ps
      else if c = CHR ''u'' then Go InStringEscU ps else Bad)"
| "scan_step InStringEscU ps c = (if hex_val c \<noteq> None then Go InStringEscU1 ps else Bad)"
| "scan_step InStringEscU1 ps c = (if hex_val c \<noteq> None then Go InStringEscU12 ps else Bad)"
| "scan_step InStringEscU12 ps c = (if hex_val c \<noteq> None then Go InStringEscU123 ps else Bad)"
| "scan_step InStringEscU123 ps c = (if hex_val c \<noteq> None then Go InString ps else Bad)"
| "scan_step Neg ps c =
     (if c = CHR ''0'' then Go Zero ps else if byte_in 0x31 0x39 c then Go Digits ps else Bad)"
| "scan_step Digits ps c =
     (if is_digit c then Go Digits ps
      else if c = CHR ''.'' then Go Dot ps
      else if c \<in> {CHR ''e'', CHR ''E''} then Go Exp ps else end_value ps c)"
| "scan_step Zero ps c =
     (if c = CHR ''.'' then Go Dot ps
      else if c \<in> {CHR ''e'', CHR ''E''} then Go Exp ps else end_value ps c)"
| "scan_step Dot ps c = (if is_digit c then Go Dot0 ps else Bad)"
| "scan_step Dot0 ps c =
     (if is_digit c then Go Dot0 ps
      else if c \<in> {CHR ''e'', CHR ''E''} then Go Exp ps else end_value ps c)"
| "scan_step Exp ps c =
     (if c \<in> {CHR ''+'', CHR ''-''} then Go ExpSign ps else if is_digit c then Go Exp0 ps else Bad)"
| "scan_step ExpSign ps c = (if is_digit c then Go Exp0 ps else Bad)"
| "scan_step Exp0 ps c = (if is_digit c then Go Exp0 ps else end_value ps c)"
| "scan_step (Lit w) ps c =
     (case w of
        [] \<Rightarrow> end_value ps c
      | x # w' \<Rightarrow> if c = x then Go (if w' = [] then EndValue else Lit w') ps else Bad)"

definition number_done :: "scan_state \<Rightarrow> bool" where
  "number_done st = (st \<in> {Digits, Zero, Dot0, Exp0})"

text \<open>The text of the value a string starts with, and what follows it.\<close>

fun scan_value :: "scan_state \<Rightarrow> parse_state list \<Rightarrow> string \<Rightarrow> (string \<times> string) option" where
  "scan_value st ps [] = (if ps = [] \<and> (st = EndValue \<or> number_done st) then Some ([], []) else None)"
| "scan_value st ps (c # s) =
     (if ps = [] \<and> st = EndValue then Some ([], c # s)
      else case scan_step st ps c of
        Bad \<Rightarrow> None
      | Stop \<Rightarrow> Some ([], c # s)
      | Go st' ps' \<Rightarrow> map_option (\<lambda>(v, r). (c # v, r)) (scan_value st' ps' s))"

definition skip_space :: "string \<Rightarrow> string" where
  "skip_space s = dropWhile json_space s"

definition read_value :: "string \<Rightarrow> (string \<times> string) option" where
  "read_value s = scan_value BeginValue [] (skip_space s)"

lemma scan_value_split: "scan_value st ps s = Some (v, r) \<Longrightarrow> s = v @ r"
  by (induction st ps s arbitrary: v r rule: scan_value.induct)
    (auto split: if_splits scan_result.splits)

lemma scan_value_begin: "scan_value BeginValue [] s = Some (v, r) \<Longrightarrow> v \<noteq> []"
  by (cases s) (auto simp: number_done_def begin_value_def push_state_def split: if_splits scan_result.splits)

lemma length_skip_space: "length (skip_space s) \<le> length s"
  by (simp add: skip_space_def length_dropWhile_le)

lemma read_value_shorter:
  assumes "read_value s = Some (v, r)"
  shows "length r < length s"
proof -
  from assms have "skip_space s = v @ r" "v \<noteq> []"
    by (auto simp: read_value_def dest: scan_value_split scan_value_begin)
  then have "length r < length (skip_space s)" by simp
  with length_skip_space [of s] show ?thesis by simp
qed

section \<open>Strings\<close>

definition getu4 :: "string \<Rightarrow> int option" where
  "getu4 s =
     (case s of
        c0 # c1 # a # b # c # d # _ \<Rightarrow>
          if c0 = CHR 0x5C \<and> c1 = CHR ''u'' then
            (case (hex_val a, hex_val b, hex_val c, hex_val d) of
               (Some w, Some x, Some y, Some z) \<Rightarrow> Some (((w * 16 + x) * 16 + y) * 16 + z)
             | _ \<Rightarrow> None)
          else None
      | _ \<Rightarrow> None)"

definition escape_char :: "char \<Rightarrow> char option" where
  "escape_char c =
     (if c \<in> {CHR 0x22, CHR 0x5C, CHR ''/'', CHR 0x27} then Some c
      else if c = CHR ''b'' then Some (CHR 0x08)
      else if c = CHR ''f'' then Some (CHR 0x0C)
      else if c = CHR ''n'' then Some (CHR 0x0A)
      else if c = CHR ''r'' then Some (CHR 0x0D)
      else if c = CHR ''t'' then Some (CHR 0x09) else None)"

definition is_surrogate :: "int \<Rightarrow> bool" where
  "is_surrogate r = (0xD800 \<le> r \<and> r < 0xE000)"

text \<open>\<open>unquoteBytes\<close> on the text between the quotes: surrogate pairs are joined, a lone surrogate
  or an invalid byte becomes U+FFFD.\<close>

function unquote :: "string \<Rightarrow> string option" where
  "unquote [] = Some []"
| "unquote (c # s) =
     (if c = CHR 0x5C then
        (case s of
           [] \<Rightarrow> None
         | e # t \<Rightarrow>
             (case escape_char e of
                Some x \<Rightarrow> map_option (\<lambda>u. x # u) (unquote t)
              | None \<Rightarrow>
                  (case getu4 (c # s) of
                     None \<Rightarrow> None
                   | Some rr \<Rightarrow>
                       if is_surrogate rr then
                         (case getu4 (drop 5 s) of
                            Some rr1 \<Rightarrow>
                              if rr < 0xDC00 \<and> 0xDC00 \<le> rr1 \<and> rr1 < 0xE000 then
                                map_option (\<lambda>u. EncodeRune ((rr - 0xD800) * 1024 + (rr1 - 0xDC00) + 0x10000) @ u)
                                  (unquote (drop 11 s))
                              else map_option (\<lambda>u. EncodeRune RuneError @ u) (unquote (drop 5 s))
                          | None \<Rightarrow> map_option (\<lambda>u. EncodeRune RuneError @ u) (unquote (drop 5 s)))
                       else map_option (\<lambda>u. EncodeRune rr @ u) (unquote (drop 5 s)))))
      else if c = CHR 0x22 \<or> byte_in 0x00 0x1F c then None
      else (let n = rune_len (c # s) in
            if n = 0 then map_option (\<lambda>u. EncodeRune RuneError @ u) (unquote s)
            else map_option (\<lambda>u. take n (c # s) @ u) (unquote (drop (n - 1) s))))"
  by pat_completeness auto
termination
  by (relation "measure length") auto

declare unquote.simps(2) [simp del]

definition hexdig :: "int \<Rightarrow> char" where
  "hexdig n = char_of (if n < 10 then n + 48 else n + 87)"

definition html_safe :: "char \<Rightarrow> bool" where
  "html_safe c = (byte_in 0x20 0x7F c \<and>
     c \<notin> {CHR 0x22, CHR 0x5C, CHR ''<'', CHR ''>'', CHR ''&''})"

definition quote_ascii :: "char \<Rightarrow> string" where
  "quote_ascii c =
     (if html_safe c then [c]
      else if c \<in> {CHR 0x5C, CHR 0x22} then [CHR 0x5C, c]
      else if c = CHR 0x08 then [CHR 0x5C, CHR ''b'']
      else if c = CHR 0x0C then [CHR 0x5C, CHR ''f'']
      else if c = CHR 0x0A then [CHR 0x5C, CHR ''n'']
      else if c = CHR 0x0D then [CHR 0x5C, CHR ''r'']
      else if c = CHR 0x09 then [CHR 0x5C, CHR ''t'']
      else [CHR 0x5C, CHR ''u'', CHR ''0'', CHR ''0'', hexdig (of_char c div 16), hexdig (of_char c mod 16)])"

definition line_separator :: "string \<Rightarrow> bool" where
  "line_separator r = (r = [CHR 0xE2, CHR 0x80, CHR 0xA8] \<or> r = [CHR 0xE2, CHR 0x80, CHR 0xA9])"

text \<open>\<open>appendString\<close> with HTML escaping, without the quotes around it.\<close>

function quote_body :: "string \<Rightarrow> string" where
  "quote_body [] = []"
| "quote_body (c # s) =
     (if byte_in 0x00 0x7F c then quote_ascii c @ quote_body s
      else let n = rune_len (c # s) in
        if n = 0 then [CHR 0x5C] @ ''ufffd'' @ quote_body s
        else if line_separator (take n (c # s)) then
          [CHR 0x5C] @ ''u202'' @ [hexdig (of_char (last (take n (c # s))) mod 16)] @ quote_body (drop (n - 1) s)
        else take n (c # s) @ quote_body (drop (n - 1) s))"
  by pat_completeness auto
termination
  by (relation "measure length") auto

declare quote_body.simps(2) [simp del]

definition json_quote :: "string \<Rightarrow> string" where
  "json_quote s = [CHR 0x22] @ quote_body s @ [CHR 0x22]"

text \<open>\<open>json.Unmarshal\<close> of a value into a string variable that holds the empty string:
  \<open>null\<close> leaves it, anything but a string is an error.\<close>

definition unmarshal_string :: "string \<Rightarrow> string option" where
  "unmarshal_string raw =
     (case read_value raw of
        Some (v, r) \<Rightarrow>
          if skip_space r \<noteq> [] then None
          else if v = ''null'' then Some []
          else if hd v = CHR 0x22 then unquote (butlast (tl v)) else None
      | None \<Rightarrow> None)"

section \<open>Objects\<close>

text \<open>One member \<open>"key": value\<close>: the key unquoted, the value as raw text, and the rest.\<close>

definition json_member :: "string \<Rightarrow> (string \<times> string \<times> string) option" where
  "json_member s =
     (case skip_space s of
        [] \<Rightarrow> None
      | q # k \<Rightarrow>
          if q \<noteq> CHR 0x22 then None
          else (case read_value (q # k) of
             None \<Rightarrow> None
           | Some (kv, r) \<Rightarrow>
               (case (unquote (butlast (tl kv)), skip_space r) of
                  (Some key, colon # r') \<Rightarrow>
                    if colon \<noteq> CHR '':'' then None
                    else map_option (\<lambda>(v, r''). (key, v, r'')) (read_value r')
                | _ \<Rightarrow> None)))"

lemma json_member_shorter:
  assumes "json_member s = Some (key, v, r)"
  shows "length r < length s"
proof -
  obtain q k kv r1 r2 where k: "skip_space s = q # k" "read_value (q # k) = Some (kv, r1)"
      "skip_space r1 = CHR '':'' # r2" "read_value r2 = Some (v, r)"
    using assms unfolding json_member_def
    by (auto split: list.splits if_splits option.splits prod.splits)
  have "length r < length r2" "length r2 < length r1" "length r1 < length (q # k)" "length (q # k) \<le> length s"
    using k read_value_shorter length_skip_space [of r1] length_skip_space [of s] by force+
  then show ?thesis by linarith
qed

text \<open>The members of an object after its opening brace, as the token stream delivers them, and
  what follows the closing brace.\<close>

function json_members :: "bool \<Rightarrow> string \<Rightarrow> ((string \<times> string) list \<times> string) option" where
  "json_members first s =
     (case skip_space s of
        [] \<Rightarrow> None
      | c # t \<Rightarrow>
          if c = CHR ''}'' then Some ([], t)
          else (case (if first then Some (c # t) else if c = CHR '','' then Some t else None) of
             None \<Rightarrow> None
           | Some u \<Rightarrow>
               (case json_member u of
                  None \<Rightarrow> None
                | Some (key, v, r) \<Rightarrow>
                    map_option (\<lambda>(ms, e). ((key, v) # ms, e)) (json_members False r))))"
  by pat_completeness auto
termination
proof (relation "measure (length \<circ> snd)", goal_cases)
  case 1
  then show ?case by simp
next
  case (2 first s c t u p key q v r)
  have "length r < length u" using 2 json_member_shorter [of u key v r] by auto
  moreover have "length u \<le> length (skip_space s)"
    using 2 by (cases first) (auto split: if_splits)
  ultimately show ?case using length_skip_space [of s] by simp
qed

declare json_members.simps [simp del]

section \<open>Quoting and unquoting\<close>

lemma hex_val_hexdig [simp]: "0 \<le> n \<Longrightarrow> n < 16 \<Longrightarrow> hex_val (hexdig n) = Some n"
  by (simp add: hex_val_def hexdig_def Let_def)

lemma of_char_nibbles:
  "0 \<le> (of_char c :: int) div 16" "(of_char c :: int) div 16 < 16"
  "0 \<le> (of_char c :: int) mod 16" "(of_char c :: int) mod 16 < 16"
proof -
  have "0 \<le> (of_char c :: int)" "(of_char c :: int) < 256" by simp_all
  then show "0 \<le> (of_char c :: int) div 16" "(of_char c :: int) div 16 < 16"
    "0 \<le> (of_char c :: int) mod 16" "(of_char c :: int) mod 16 < 16" by linarith+
qed

lemma append_Cons_fun: "(@) (c # xs) = (\<lambda>u. c # xs @ u)"
  by (simp add: fun_eq_iff)

lemma rune_len_take: "rune_len s = n \<Longrightarrow> n \<noteq> 0 \<Longrightarrow> rune_len (take n s @ t) = n"
  by (cases s rule: rune_len.cases) (auto split: list.splits if_splits)

lemma rune_len_le: "rune_len s \<le> length s"
  by (cases s rule: rune_len.cases) (auto split: list.splits if_splits)

lemma high_byte: "byte_in a b x \<Longrightarrow> 128 \<le> a \<Longrightarrow> \<not> byte_in 0x00 0x7F x"
  by (simp add: byte_in_def)

lemma rune_bytes_high:
  assumes "rune_len (c # s) = n" "\<not> byte_in 0x00 0x7F c"
  shows "list_all (\<lambda>x. \<not> byte_in 0x00 0x7F x) (take n (c # s))"
  using assms by (auto simp: cont_def high_byte split: list.splits if_splits)

lemma rune_len_ascii: "byte_in 0x00 0x7F c \<Longrightarrow> rune_len (c # s) = 1"
  by simp

declare rune_len.simps(2) [simp del]

definition plain_char :: "char \<Rightarrow> bool" where
  "plain_char c = (c \<noteq> CHR 0x22 \<and> c \<noteq> CHR 0x5C \<and> \<not> byte_in 0x00 0x1F c)"

lemma plain_high: "\<not> byte_in 0x00 0x7F c \<Longrightarrow> plain_char c"
  by (auto simp: plain_char_def byte_in_def)

lemma unquote_rune:
  assumes "rune_len (c # s) = n" "n \<noteq> 0" "plain_char c"
  shows "unquote (take n (c # s) @ t) = map_option (\<lambda>u. take n (c # s) @ u) (unquote t)"
proof -
  obtain k where n: "n = Suc k" using assms(2) by (cases n) auto
  have l: "length (take k s) = k" using rune_len_le [of "c # s"] assms(1) n by simp
  have r: "rune_len (c # take k s @ t) = Suc k" using rune_len_take [OF assms(1,2), of t] n by simp
  have "unquote (c # (take k s @ t)) =
     map_option (\<lambda>u. take (Suc k) (c # take k s @ t) @ u) (unquote (drop k (take k s @ t)))"
    using assms(3) unfolding plain_char_def unquote.simps(2) Let_def r
    by (simp add: append_Cons_fun)
  then show ?thesis using l by (simp add: n)
qed

lemma unquote_ascii:
  assumes "byte_in 0x00 0x7F c"
  shows "unquote (quote_ascii c @ t) = map_option (\<lambda>u. c # u) (unquote t)"
proof (cases "html_safe c")
  case True
  then have "plain_char c" by (auto simp: html_safe_def plain_char_def byte_in_def)
  from unquote_rune [of c "[]" 1, OF _ _ this] assms True show ?thesis
    by (simp add: quote_ascii_def rune_len_ascii)
next
  case False
  have e: "EncodeRune (of_char c) = [c]" using assms by (simp add: EncodeRune_def byte_in_def)
  have g: "getu4 (CHR 0x5C # CHR ''u'' # CHR ''0'' # CHR ''0'' # hexdig (of_char c div 16) #
        hexdig (of_char c mod 16) # t) = Some (of_char c)"
    using of_char_nibbles [of c] by (simp add: getu4_def hex_val_def [of "CHR ''0''"])
  have ns: "\<not> is_surrogate (of_char c)" using assms by (simp add: is_surrogate_def byte_in_def)
  show ?thesis
    using False e g ns
    by (auto simp: quote_ascii_def unquote.simps(2) escape_char_def append_Cons_fun)
qed

lemma EncodeRune_separators:
  "EncodeRune 0x2028 = [CHR 0xE2, CHR 0x80, CHR 0xA8]" "EncodeRune 0x2029 = [CHR 0xE2, CHR 0x80, CHR 0xA9]"
  by (simp_all add: EncodeRune_def char_of_def bit_Suc_0_iff)

lemma hexdig_separators:
  "hexdig (of_char (CHR 0xA8) mod 16) = CHR ''8''" "hexdig (of_char (CHR 0xA9) mod 16) = CHR ''9''"
  by (simp_all add: hexdig_def char_of_def bit_Suc_0_iff)

lemma unquote_separators:
  "unquote (CHR 0x5C # ''u2028'' @ t) = map_option (\<lambda>u. [CHR 0xE2, CHR 0x80, CHR 0xA8] @ u) (unquote t)"
  "unquote (CHR 0x5C # ''u2029'' @ t) = map_option (\<lambda>u. [CHR 0xE2, CHR 0x80, CHR 0xA9] @ u) (unquote t)"
proof -
  have "getu4 (CHR 0x5C # ''u2028'' @ t) = Some 0x2028" "getu4 (CHR 0x5C # ''u2029'' @ t) = Some 0x2029"
    by (simp_all add: getu4_def hex_val_def)
  then show
    "unquote (CHR 0x5C # ''u2028'' @ t) = map_option (\<lambda>u. [CHR 0xE2, CHR 0x80, CHR 0xA8] @ u) (unquote t)"
    "unquote (CHR 0x5C # ''u2029'' @ t) = map_option (\<lambda>u. [CHR 0xE2, CHR 0x80, CHR 0xA9] @ u) (unquote t)"
    by (simp_all add: unquote.simps(2) escape_char_def is_surrogate_def EncodeRune_separators
        append_Cons_fun)
qed

theorem unquote_quote_body: "utf8_valid s \<Longrightarrow> unquote (quote_body s) = Some s"
proof (induction s rule: quote_body.induct)
  case 1
  then show ?case by simp
next
  case (2 c s)
  define n where "n = rune_len (c # s)"
  have n: "n \<noteq> 0" "utf8_valid (drop n (c # s))"
    using "2.prems" by (auto simp: utf8_valid.simps [of "c # s"] n_def split: if_splits)
  show ?case
  proof (cases "byte_in 0x00 0x7F c")
    case True
    then have "n = 1" by (simp add: n_def rune_len_ascii)
    with 2(1) n(2) True show ?thesis
      by (simp add: quote_body.simps(2) unquote_ascii)
  next
    case False
    have d: "drop (n - 1) s = drop n (c # s)" using n(1) by (cases n) auto
    have IH: "unquote (quote_body (drop n (c # s))) = Some (drop n (c # s))"
      using 2(3) [OF False n_def] 2(4) [OF False n_def] n d by (cases "line_separator (take n (c # s))") auto
    have p: "plain_char c" using False by (rule plain_high)
    show ?thesis
    proof (cases "line_separator (take n (c # s))")
      case True
      have "unquote ([CHR 0x5C] @ ''u202'' @ [hexdig (of_char (last (take n (c # s))) mod 16)] @ t) =
          map_option (\<lambda>u. take n (c # s) @ u) (unquote t)" for t
        using True unquote_separators [of t] hexdig_separators by (auto simp: line_separator_def)
      with True False n(1) IH d show ?thesis
        by (simp add: quote_body.simps(2) Let_def n_def [symmetric])
    next
      case ls: False
      have "quote_body (c # s) = take n (c # s) @ quote_body (drop n (c # s))"
        using False ls n(1) d by (simp add: quote_body.simps(2) Let_def n_def [symmetric])
      with unquote_rune [OF n_def [symmetric] n(1) p] IH show ?thesis by simp
    qed
  qed
qed

text \<open>Scanning stays inside a string over quoted text.\<close>

definition passes :: "string \<Rightarrow> bool" where
  "passes w \<longleftrightarrow> (\<forall>t. scan_value InString [] (w @ t) =
     map_option (\<lambda>(v, r). (w @ v, r)) (scan_value InString [] t))"

lemma passes_Nil: "passes []"
  by (simp add: passes_def option.map_id)

lemma passes_append: "passes v \<Longrightarrow> passes w \<Longrightarrow> passes (v @ w)"
  by (simp add: passes_def option.map_comp comp_def case_prod_unfold)

lemma passes_plain: "list_all plain_char w \<Longrightarrow> passes w"
proof (induction w)
  case Nil
  show ?case by (rule passes_Nil)
next
  case (Cons c w)
  have "passes [c]" using Cons.prems by (simp add: passes_def plain_char_def)
  with Cons passes_append [of "[c]" w] show ?case by simp
qed

lemma passes_escape:
  "e \<in> {CHR ''b'', CHR ''f'', CHR ''n'', CHR ''r'', CHR ''t'', CHR 0x5C, CHR ''/'', CHR 0x22} \<Longrightarrow>
   passes [CHR 0x5C, e]"
  by (auto simp: passes_def option.map_comp comp_def case_prod_unfold byte_in_def)

lemma passes_u:
  "hex_val a \<noteq> None \<Longrightarrow> hex_val b \<noteq> None \<Longrightarrow> hex_val c \<noteq> None \<Longrightarrow> hex_val d \<noteq> None \<Longrightarrow>
   passes [CHR 0x5C, CHR ''u'', a, b, c, d]"
  by (simp add: passes_def option.map_comp comp_def case_prod_unfold byte_in_def)

lemma passes_quote_ascii: "byte_in 0x00 0x7F c \<Longrightarrow> passes (quote_ascii c)"
proof (cases "html_safe c")
  case True
  then have "plain_char c" by (auto simp: html_safe_def plain_char_def byte_in_def)
  with True passes_plain [of "[c]"] show ?thesis by (simp add: quote_ascii_def)
next
  case False
  have "hex_val (CHR ''0'') \<noteq> None" by (simp add: hex_val_def)
  with False of_char_nibbles [of c] show ?thesis
    by (simp add: quote_ascii_def passes_escape passes_u)
qed

lemma passes_quote_body: "passes (quote_body s)"
proof (induction s rule: quote_body.induct)
  case 1
  show ?case by (simp add: passes_Nil)
next
  case (2 c s)
  let ?n = "rune_len (c # s)"
  show ?case
  proof (cases "byte_in 0x00 0x7F c")
    case True
    with 2(1) passes_quote_ascii passes_append show ?thesis by (simp add: quote_body.simps(2))
  next
    case False
    have bad: "passes ([CHR 0x5C] @ ''ufffd'')"
      using passes_u [of "CHR ''f''" "CHR ''f''" "CHR ''f''" "CHR ''d''"] by (simp add: hex_val_def)
    have sep: "passes ([CHR 0x5C] @ ''u202'' @ [hexdig (of_char x mod 16)])" for x :: char
      using passes_u [of "CHR ''2''" "CHR ''0''" "CHR ''2''" "hexdig (of_char x mod 16)"]
        of_char_nibbles [of x] by (simp add: hex_val_def [of "CHR ''2''"] hex_val_def [of "CHR ''0''"])
    have rune: "passes (take ?n (c # s))"
      using rune_bytes_high [OF refl False] plain_high
      by (intro passes_plain) (auto simp: list_all_iff)
    consider "?n = 0" | "?n \<noteq> 0" "line_separator (take ?n (c # s))" | "?n \<noteq> 0" "\<not> line_separator (take ?n (c # s))"
      by blast
    then show ?thesis
    proof cases
      case 1
      then have "quote_body (c # s) = ([CHR 0x5C] @ ''ufffd'') @ quote_body s"
        using False by (simp add: quote_body.simps(2))
      then show ?thesis using passes_append [OF bad] "2.IH"(2) [OF False refl] 1 by simp
    next
      case 2
      then have "quote_body (c # s) = ([CHR 0x5C] @ ''u202'' @
          [hexdig (of_char (last (take ?n (c # s))) mod 16)]) @ quote_body (drop (?n - 1) s)"
        using False by (simp add: quote_body.simps(2) Let_def)
      then show ?thesis using passes_append [OF sep] "2.IH"(3) [OF False refl] 2 by simp
    next
      case 3
      then have "quote_body (c # s) = take ?n (c # s) @ quote_body (drop (?n - 1) s)"
        using False by (simp add: quote_body.simps(2) Let_def)
      then show ?thesis using passes_append [OF rune] "2.IH"(4) [OF False refl] 3 by simp
    qed
  qed
qed

lemma scan_quoted: "scan_value BeginValue [] (json_quote s @ r) = Some (json_quote s, r)"
proof -
  have "scan_value InString [] (quote_body s @ CHR 0x22 # r) =
      map_option (\<lambda>(v, r'). (quote_body s @ v, r')) (scan_value InString [] (CHR 0x22 # r))"
    using passes_quote_body by (simp add: passes_def)
  also have "scan_value InString [] (CHR 0x22 # r) = Some ([CHR 0x22], r)"
    by (cases r) (simp_all add: number_done_def)
  finally have "scan_value InString [] (quote_body s @ CHR 0x22 # r) = Some (quote_body s @ [CHR 0x22], r)"
    by simp
  then show ?thesis by (simp add: json_quote_def begin_value_def json_space_def)
qed

section \<open>Printing and reading objects\<close>

text \<open>Texts that read back as one value when a comma or a brace follows.\<close>

definition value_text :: "string \<Rightarrow> bool" where
  "value_text v \<longleftrightarrow> (\<forall>c r. c \<in> {CHR '','', CHR ''}''} \<longrightarrow> read_value (v @ c # r) = Some (v, c # r))"

lemma value_text_quote: "value_text (json_quote s)"
  using scan_quoted [of s]
  by (auto simp: value_text_def read_value_def skip_space_def json_quote_def json_space_def)

lemma scan_digits:
  "\<forall>x\<in>set ds. is_digit x \<Longrightarrow> c \<in> {CHR '','', CHR ''}''} \<Longrightarrow>
   scan_value Digits [] (ds @ c # r) = Some (ds, c # r)"
  by (induction ds) (auto simp: is_digit_def)

lemma decimal_hd: "0 < n \<Longrightarrow> byte_in 0x31 0x39 (hd (decimal n))"
proof (induction n rule: decimal.induct)
  case (1 n)
  show ?case
  proof (cases "n < 10")
    case True
    with 1 show ?thesis by (simp add: decimal.simps [of n] byte_in_def)
  next
    case False
    with 1 show ?thesis by (subst decimal.simps) simp
  qed
qed

lemma digit_not_special:
  "is_digit x \<Longrightarrow> x \<notin> {CHR ''{'', CHR ''['', CHR 0x22, CHR ''-'', CHR ''t'', CHR ''f'', CHR ''n''} \<and> \<not> json_space x"
  by (auto simp: is_digit_def json_space_def)

lemma begin_digit: "byte_in 0x31 0x39 x \<Longrightarrow> begin_value ps x = Go Digits ps"
proof -
  assume x: "byte_in 0x31 0x39 x"
  then have "is_digit x" "x \<noteq> CHR ''0''" by (auto simp: byte_in_def is_digit_def)
  with x digit_not_special [of x] show ?thesis by (simp add: begin_value_def)
qed

lemma value_text_decimal: "0 \<le> n \<Longrightarrow> value_text (decimal n)"
proof -
  assume n: "0 \<le> n"
  have b: "scan_value BeginValue [] (decimal n @ c # r) = Some (decimal n, c # r)"
    if "c \<in> {CHR '','', CHR ''}''}" for c r
  proof (cases "n = 0")
    case True
    have "decimal 0 = ''0''" by (subst decimal.simps) (simp add: char_of_def)
    with True that show ?thesis by (auto simp: begin_value_def json_space_def)
  next
    case False
    obtain x ds where d: "decimal n = x # ds" using decimal_nonempty by (cases "decimal n") blast+
    have "\<forall>y\<in>set ds. is_digit y" using decimal_digits [OF n] d by simp
    moreover have "byte_in 0x31 0x39 x" using decimal_hd [of n] n False d by simp
    ultimately show ?thesis
      using scan_digits [OF _ that, of ds r] begin_digit [of x "[]"] by (simp add: d)
  qed
  have "\<not> json_space (hd (decimal n))"
    using decimal_digits [OF n hd_in_set [OF decimal_nonempty]] digit_not_special by blast
  then have "skip_space (decimal n @ t) = decimal n @ t" for t
    by (cases "decimal n") (auto simp: skip_space_def)
  with b show ?thesis by (auto simp: value_text_def read_value_def)
qed

definition print_member :: "string \<times> string \<Rightarrow> string" where
  "print_member m = json_quote (fst m) @ '':'' @ snd m"

lemma json_member_print:
  assumes "utf8_valid k" "value_text v" "c \<in> {CHR '','', CHR ''}''}"
  shows "json_member (print_member (k, v) @ c # r) = Some (k, v, c # r)"
proof -
  have s: "skip_space (json_quote k @ t) = json_quote k @ t" "hd (json_quote k) = CHR 0x22"
      "json_quote k \<noteq> []" for t
    by (simp_all add: skip_space_def json_quote_def json_space_def)
  have "read_value (json_quote k @ t) = Some (json_quote k, t)" for t
    using scan_quoted [of k t] s(1) [of t] by (simp add: read_value_def)
  moreover have "unquote (butlast (tl (json_quote k))) = Some k"
    using unquote_quote_body [OF assms(1)] by (simp add: json_quote_def)
  moreover have "read_value (v @ c # r) = Some (v, c # r)" using assms(2,3) by (auto simp: value_text_def)
  ultimately show ?thesis
    using s unfolding json_member_def print_member_def
    by (cases "json_quote k") (auto simp: skip_space_def json_space_def)
qed

fun print_members :: "(string \<times> string) list \<Rightarrow> string" where
  "print_members [] = []"
| "print_members [m] = print_member m"
| "print_members (m # ms) = print_member m @ '','' @ print_members ms"

lemma members_print_rest:
  assumes "\<forall>m\<in>set ms. utf8_valid (fst m) \<and> value_text (snd m)"
  shows "json_members False (concat (map (\<lambda>m. CHR '','' # print_member m) ms) @ CHR ''}'' # r) = Some (ms, r)"
  using assms
proof (induction ms)
  case Nil
  show ?case by (subst json_members.simps) (simp add: skip_space_def json_space_def)
next
  case (Cons m ms)
  define t where "t = concat (map (\<lambda>m. CHR '','' # print_member m) ms) @ CHR ''}'' # r"
  obtain c u where t: "t = c # u" "c \<in> {CHR '','', CHR ''}''}"
    unfolding t_def by (cases ms) auto
  have "json_member (print_member m @ t) = Some (fst m, snd m, t)"
    using json_member_print [of "fst m" "snd m" c u] Cons.prems t by simp
  with Cons show ?case
    by (subst json_members.simps) (simp add: skip_space_def json_space_def t_def)
qed

lemma print_members_Cons:
  "print_members (m # ms) = print_member m @ concat (map (\<lambda>m. CHR '','' # print_member m) ms)"
  by (induction ms arbitrary: m) auto

theorem json_members_print:
  assumes "\<forall>m\<in>set ms. utf8_valid (fst m) \<and> value_text (snd m)"
  shows "json_members True (print_members ms @ CHR ''}'' # r) = Some (ms, r)"
proof (cases ms)
  case Nil
  then show ?thesis by (subst json_members.simps) (simp add: skip_space_def json_space_def)
next
  case (Cons m ms')
  define t where "t = concat (map (\<lambda>m. CHR '','' # print_member m) ms') @ CHR ''}'' # r"
  obtain c u where t: "t = c # u" "c \<in> {CHR '','', CHR ''}''}"
    unfolding t_def by (cases ms') auto
  have m: "json_member (print_member m @ t) = Some (fst m, snd m, t)"
    using json_member_print [of "fst m" "snd m" c u] assms Cons t by simp
  have "\<exists>w. print_member m @ t = CHR 0x22 # w" by (simp add: print_member_def json_quote_def)
  then have "skip_space (print_member m @ t) = print_member m @ t" "\<exists>w. print_member m @ t = CHR 0x22 # w"
    by (auto simp: skip_space_def json_space_def)
  moreover have "json_members False t = Some (ms', r)"
    using members_print_rest [of ms' r] assms Cons by (simp add: t_def)
  ultimately show ?thesis
    using m Cons print_members_Cons [of m ms'] t_def
    by (subst json_members.simps) (auto split: list.splits)
qed

section \<open>Validity and length of what is printed\<close>

lemma ascii_valid: "list_all (byte_in 0x00 0x7F) s \<Longrightarrow> utf8_valid s"
  by (induction s) (simp_all add: utf8_valid.simps [of "_ # _"] rune_len_ascii utf8_valid.simps [of "[]"])

lemma rune_len_append: "rune_len s \<noteq> 0 \<Longrightarrow> rune_len (s @ t) = rune_len s"
  using rune_len_take [of s "rune_len s" "drop (rune_len s) s @ t"] by (simp flip: append_assoc)

lemma utf8_append: "utf8_valid s \<Longrightarrow> utf8_valid t \<Longrightarrow> utf8_valid (s @ t)"
proof (induction s rule: utf8_valid.induct)
  case (1 s)
  show ?case
  proof (cases "s = []")
    case False
    then have r: "rune_len s \<noteq> 0" "utf8_valid (drop (rune_len s) s)"
      using "1.prems"(1) utf8_valid.simps [of s] by (auto split: if_splits)
    moreover have "drop (rune_len s) (s @ t) = drop (rune_len s) s @ t"
      using rune_len_le [of s] by simp
    ultimately show ?thesis
      using "1.IH" [OF False r(1,2) "1.prems"(2)] False rune_len_append [of s t]
      by (subst utf8_valid.simps) simp
  qed (use 1 in simp)
qed

lemma utf8_rune:
  assumes "rune_len s \<noteq> 0"
  shows "utf8_valid (take (rune_len s) s)"
proof -
  have "rune_len (take (rune_len s) s) = rune_len s" "length (take (rune_len s) s) = rune_len s"
    using rune_len_take [OF refl assms, of "[]"] rune_len_le [of s] by simp_all
  then show ?thesis by (subst utf8_valid.simps) (simp add: utf8_valid.simps [of "[]"])
qed

lemma hexdig_ascii: "0 \<le> n \<Longrightarrow> n < 16 \<Longrightarrow> byte_in 0x00 0x7F (hexdig n)"
  by (simp add: hexdig_def byte_in_def)

lemma quote_ascii_valid:
  assumes "byte_in 0x00 0x7F c"
  shows "list_all (byte_in 0x00 0x7F) (quote_ascii c)"
proof -
  have "(of_char c :: int) < 128" using assms by (simp add: byte_in_def)
  then have "0 \<le> (of_char c :: int) div 16" "(of_char c :: int) div 16 < 16"
    by (simp_all add: pos_imp_zdiv_nonneg_iff)
  with assms hexdig_ascii [of "of_char c div 16"] hexdig_ascii [of "of_char c mod 16"] show ?thesis
    by (simp add: quote_ascii_def byte_in_def)
qed

lemma utf8_quote_body: "utf8_valid (quote_body s)"
proof (induction s rule: quote_body.induct)
  case 1
  show ?case by (simp add: utf8_valid.simps)
next
  case (2 c s)
  let ?n = "rune_len (c # s)"
  consider "byte_in 0x00 0x7F c" | "\<not> byte_in 0x00 0x7F c" "?n = 0"
    | "\<not> byte_in 0x00 0x7F c" "?n \<noteq> 0" "line_separator (take ?n (c # s))"
    | "\<not> byte_in 0x00 0x7F c" "?n \<noteq> 0" "\<not> line_separator (take ?n (c # s))" by blast
  then show ?case
  proof cases
    case 1
    then show ?thesis
      using utf8_append [OF ascii_valid [OF quote_ascii_valid [OF 1]] "2.IH"(1) [OF 1]]
      by (simp add: quote_body.simps(2))
  next
    case 2
    have "utf8_valid ([CHR 0x5C] @ ''ufffd'')" by (rule ascii_valid) (simp add: byte_in_def)
    from utf8_append [OF this "2.IH"(2) [OF 2(1) refl 2(2)]] 2 show ?thesis
      by (simp add: quote_body.simps(2) Let_def)
  next
    case 3
    have "utf8_valid ([CHR 0x5C] @ ''u202'' @ [hexdig (of_char (last (take ?n (c # s))) mod 16)])"
      by (rule ascii_valid) (simp add: byte_in_def hexdig_ascii [unfolded byte_in_def])
    from utf8_append [OF this "2.IH"(3) [OF 3(1) refl 3(2,3)]] 3 show ?thesis
      by (simp add: quote_body.simps(2) Let_def)
  next
    case 4
    from utf8_append [OF utf8_rune [OF 4(2)] "2.IH"(4) [OF 4(1) refl 4(2,3)]] 4 show ?thesis
      by (simp add: quote_body.simps(2) Let_def)
  qed
qed

lemma utf8_quote: "utf8_valid (json_quote s)"
proof -
  have q: "utf8_valid [CHR 0x22]" by (rule ascii_valid) (simp add: byte_in_def)
  from utf8_append [OF q utf8_append [OF utf8_quote_body q]] show ?thesis by (simp add: json_quote_def)
qed

lemma length_quote_ascii: "length (quote_ascii c) \<le> 6"
  by (simp add: quote_ascii_def)

lemma length_quote_body: "length (quote_body s) \<le> 6 * length s"
proof (induction s rule: quote_body.induct)
  case (2 c s)
  let ?n = "rune_len (c # s)"
  have n: "?n \<le> Suc (length s)" using rune_len_le [of "c # s"] by simp
  consider "byte_in 0x00 0x7F c" | "\<not> byte_in 0x00 0x7F c" "?n = 0"
    | "\<not> byte_in 0x00 0x7F c" "?n \<noteq> 0" "line_separator (take ?n (c # s))"
    | "\<not> byte_in 0x00 0x7F c" "?n \<noteq> 0" "\<not> line_separator (take ?n (c # s))" by blast
  then show ?case
  proof cases
    case 1
    with "2.IH"(1) [OF 1] length_quote_ascii [of c] show ?thesis by (simp add: quote_body.simps(2))
  next
    case 2
    with "2.IH"(2) [OF 2(1) refl 2(2)] show ?thesis by (simp add: quote_body.simps(2) Let_def)
  next
    case 3
    with "2.IH"(3) [OF 3(1) refl 3(2,3)] n show ?thesis by (simp add: quote_body.simps(2) Let_def)
  next
    case 4
    with "2.IH"(4) [OF 4(1) refl 4(2,3)] n show ?thesis by (simp add: quote_body.simps(2) Let_def)
  qed
qed simp

lemma quote_body_safe: "list_all html_safe s \<Longrightarrow> quote_body s = s"
  by (induction s) (auto simp: quote_body.simps(2) quote_ascii_def html_safe_def byte_in_def)

lemma unmarshal_quote: "utf8_valid s \<Longrightarrow> unmarshal_string (json_quote s) = Some s"
  using scan_quoted [of s "[]"] unquote_quote_body [of s]
  by (simp add: unmarshal_string_def read_value_def json_quote_def skip_space_def json_space_def)

end
