(* ===== verification/Pairing.thy ===== *)
theory Pairing
  imports Auth Json
begin

text \<open>
  The pairing service (\<open>internal/pairing/service.go\<close>): a host creates an invite, a device
  submits an encrypted claim for it, the host approves or rejects the claim, and approval binds the
  device. Every operation that changes claims first expires what is overdue, in the same
  transaction. A claim's header is stored as the text \<open>json.Marshal\<close> makes of it. The statuses
  are the strings the columns hold.
\<close>

section \<open>Data\<close>

abbreviation (input) ClaimPending :: string where "ClaimPending \<equiv> ''pending''"
abbreviation (input) ClaimApproved :: string where "ClaimApproved \<equiv> ''approved''"
abbreviation (input) ClaimRejected :: string where "ClaimRejected \<equiv> ''rejected''"
abbreviation (input) ClaimExpired :: string where "ClaimExpired \<equiv> ''expired''"
abbreviation (input) ClaimCancelled :: string where "ClaimCancelled \<equiv> ''cancelled''"
abbreviation (input) ClaimConsumed :: string where "ClaimConsumed \<equiv> ''consumed''"

definition claimAccessTokenBytes :: nat where "claimAccessTokenBytes = 32"
definition claimNonceBytes :: nat where "claimNonceBytes = 12"
definition clientNonceBytes :: nat where "clientNonceBytes = 32"
definition maxInviteLifetime :: int where "maxInviteLifetime = 10 * Minute"
definition maxIdentifierBytes :: int where "maxIdentifierBytes = 128"
definition maxOpaqueHeaderBytes :: int where "maxOpaqueHeaderBytes = 8 * 1024"
definition maxOpaqueCiphertextBytes :: int where "maxOpaqueCiphertextBytes = 256 * 1024"

record pairing_claim_header =
  ph_InviteID :: string
  ph_TenantID :: string
  ph_HostID :: string
  ph_ClaimID :: string
  ph_DeviceID :: string
  ph_DeviceAgreementPublicKey :: string
  ph_DeviceKeyVersion :: int
  ph_ClientNonce :: string
  ph_CiphertextLength :: int

record submit_claim_request =
  sr_Header :: pairing_claim_header
  sr_Nonce :: string
  sr_Ciphertext :: string

record created_claim =
  cc_ClaimID :: string
  cc_ClaimAccessToken :: string
  cc_Status :: string
  cc_ExpiresAt :: int

record opaque_claim =
  oc_Header :: pairing_claim_header
  oc_Nonce :: string
  oc_Ciphertext :: string
  oc_Status :: string
  oc_CreatedAt :: int
  oc_ExpiresAt :: int

record claim_status_view =
  cv_ClaimID :: string
  cv_Status :: string
  cv_UpdatedAt :: int
  cv_ApprovalHeader :: string
  cv_ApprovalNonce :: string
  cv_ApprovalCiphertext :: string

record approve_claim_request =
  ar_TenantID :: string
  ar_HostID :: string
  ar_ClaimID :: string
  ar_DeviceSigningPublicKey :: string
  ar_DeviceAgreementPublicKey :: string
  ar_DeviceKeyVersion :: int
  ar_BindingVersion :: int
  ar_ApprovalHeader :: string
  ar_ApprovalNonce :: string
  ar_ApprovalCiphertext :: string

record device =
  de_TenantID :: string
  de_HostID :: string
  de_DeviceID :: string
  de_SigningPublicKey :: string
  de_AgreementPublicKey :: string
  de_KeyVersion :: int
  de_BindingVersion :: int
  de_Revoked :: bool
  de_ApprovedAt :: int
  de_LastSeenAt :: "int option"

section \<open>Validation\<close>

definition validIdentifier :: "string \<Rightarrow> bool" where
  "validIdentifier val \<longleftrightarrow> val \<noteq> [] \<and> int (length val) \<le> maxIdentifierBytes \<and>
     val = TrimSpace val \<and> \<not> contains_space val"

definition decodeStrict :: "string \<Rightarrow> bytes result" where
  "decodeStrict val =
     (if val = [] \<or> val \<noteq> TrimSpace val then Inl ''invalid Base64Url''
      else case RawURLStrictDecode val of None \<Rightarrow> Inl ''base64'' | Some bs \<Rightarrow> Inr bs)"

definition decodeExact :: "string \<Rightarrow> nat \<Rightarrow> bytes result" where
  "decodeExact val len =
     (case decodeStrict val of
        Inl _ \<Rightarrow> Inl ''invalid Base64Url''
      | Inr decoded \<Rightarrow> if length decoded \<noteq> len then Inl ''invalid Base64Url'' else Inr decoded)"

definition is_ok :: "'a result \<Rightarrow> bool" where
  "is_ok r = (case r of Inl _ \<Rightarrow> False | Inr _ \<Rightarrow> True)"

definition validStrictSEC1 :: "string \<Rightarrow> bool" where
  "validStrictSEC1 val =
     (case decodeExact val 65 of
        Inl _ \<Rightarrow> False
      | Inr decoded \<Rightarrow> hd decoded = CHR 0x04 \<and> is_ok (DecodeSEC1PublicKey val))"

definition validateClaimSubmission :: "submit_claim_request \<Rightarrow> unit result" where
  "validateClaimSubmission request =
     (let header = sr_Header request in
      if \<not> validIdentifier (ph_InviteID header) \<or> \<not> validIdentifier (ph_TenantID header) \<or>
         \<not> validIdentifier (ph_HostID header) \<or> \<not> validIdentifier (ph_ClaimID header) \<or>
         \<not> validIdentifier (ph_DeviceID header) then Inl ''invalid_claim''
      else if ph_DeviceKeyVersion header \<le> 0 \<or> \<not> validStrictSEC1 (ph_DeviceAgreementPublicKey header)
      then Inl ''invalid_device_identity''
      else if \<not> is_ok (decodeExact (ph_ClientNonce header) clientNonceBytes) then Inl ''invalid_claim''
      else if \<not> is_ok (decodeExact (sr_Nonce request) claimNonceBytes) then Inl ''invalid_claim''
      else case decodeStrict (sr_Ciphertext request) of
             Inl _ \<Rightarrow> Inl ''invalid_claim''
           | Inr ciphertext \<Rightarrow>
               if length ciphertext < 16 \<or> int (length ciphertext) > maxOpaqueCiphertextBytes \<or>
                  int (length ciphertext) \<noteq> ph_CiphertextLength header
               then Inl ''invalid_claim'' else Inr ())"

definition validateApproval :: "approve_claim_request \<Rightarrow> unit result" where
  "validateApproval request =
     (if \<not> validIdentifier (ar_TenantID request) \<or> \<not> validIdentifier (ar_HostID request) \<or>
         \<not> validIdentifier (ar_ClaimID request) \<or> ar_DeviceKeyVersion request \<le> 0 \<or>
         ar_BindingVersion request \<le> 0 \<or>
         ar_DeviceSigningPublicKey request = ar_DeviceAgreementPublicKey request \<or>
         \<not> validStrictSEC1 (ar_DeviceSigningPublicKey request) \<or>
         \<not> validStrictSEC1 (ar_DeviceAgreementPublicKey request) then Inl ''invalid_device_identity''
      else case decodeStrict (ar_ApprovalHeader request) of
             Inl _ \<Rightarrow> Inl ''invalid_approval''
           | Inr header \<Rightarrow>
               if header = [] \<or> int (length header) > maxOpaqueHeaderBytes then Inl ''invalid_approval''
               else if \<not> is_ok (decodeExact (ar_ApprovalNonce request) claimNonceBytes)
               then Inl ''invalid_approval''
               else case decodeStrict (ar_ApprovalCiphertext request) of
                      Inl _ \<Rightarrow> Inl ''invalid_approval''
                    | Inr ciphertext \<Rightarrow>
                        if length ciphertext < 16 \<or> int (length ciphertext) > maxOpaqueCiphertextBytes
                        then Inl ''invalid_approval'' else Inr ())"

definition hashAccessToken :: "crypto \<Rightarrow> string \<Rightarrow> bytes result" where
  "hashAccessToken cr val =
     (case decodeExact val claimAccessTokenBytes of
        Inl _ \<Rightarrow> Inl ''unauthorized''
      | Inr raw \<Rightarrow> Inr (sha256 cr raw))"

definition secureEqual :: "crypto \<Rightarrow> string \<Rightarrow> string \<Rightarrow> bool" where
  "secureEqual cr left right = (sha256 cr left = sha256 cr right)"

section \<open>The stored claim header\<close>

definition header_members :: "pairing_claim_header \<Rightarrow> (string \<times> string) list" where
  "header_members h =
     [(''inviteId'', json_quote (ph_InviteID h)), (''tenantId'', json_quote (ph_TenantID h)),
      (''hostId'', json_quote (ph_HostID h)), (''claimId'', json_quote (ph_ClaimID h)),
      (''deviceId'', json_quote (ph_DeviceID h)),
      (''deviceAgreementPublicKey'', json_quote (ph_DeviceAgreementPublicKey h)),
      (''deviceKeyVersion'', Itoa (ph_DeviceKeyVersion h)),
      (''clientNonce'', json_quote (ph_ClientNonce h)),
      (''ciphertextLength'', Itoa (ph_CiphertextLength h))]"

text \<open>\<open>json.Marshal\<close> of the header.\<close>

definition marshal_header :: "pairing_claim_header \<Rightarrow> string" where
  "marshal_header h = ''{'' @ print_members (header_members h) @ ''}''"

definition store_string ::
  "(string \<Rightarrow> pairing_claim_header \<Rightarrow> pairing_claim_header) \<Rightarrow> string \<Rightarrow> pairing_claim_header \<Rightarrow>
   pairing_claim_header option" where
  "store_string upd raw h =
     (if raw = ''null'' then Some h
      else if hd raw = CHR 0x22 then map_option (\<lambda>v. upd v h) (unquote (butlast (tl raw))) else None)"

definition store_int ::
  "(int \<Rightarrow> pairing_claim_header \<Rightarrow> pairing_claim_header) \<Rightarrow> string \<Rightarrow> pairing_claim_header \<Rightarrow>
   pairing_claim_header option" where
  "store_int upd raw h =
     (if raw = ''null'' then Some h
      else if hd raw = CHR ''-'' \<or> is_digit (hd raw) then map_option (\<lambda>v. upd v h) (ParseInt64 raw)
      else None)"

definition store_member :: "string \<times> string \<Rightarrow> pairing_claim_header \<Rightarrow> pairing_claim_header option" where
  "store_member m h =
     (let k = fold_name (fst m); raw = snd m in
      if k = fold_name ''inviteId'' then store_string (\<lambda>v h. h\<lparr>ph_InviteID := v\<rparr>) raw h
      else if k = fold_name ''tenantId'' then store_string (\<lambda>v h. h\<lparr>ph_TenantID := v\<rparr>) raw h
      else if k = fold_name ''hostId'' then store_string (\<lambda>v h. h\<lparr>ph_HostID := v\<rparr>) raw h
      else if k = fold_name ''claimId'' then store_string (\<lambda>v h. h\<lparr>ph_ClaimID := v\<rparr>) raw h
      else if k = fold_name ''deviceId'' then store_string (\<lambda>v h. h\<lparr>ph_DeviceID := v\<rparr>) raw h
      else if k = fold_name ''deviceAgreementPublicKey''
      then store_string (\<lambda>v h. h\<lparr>ph_DeviceAgreementPublicKey := v\<rparr>) raw h
      else if k = fold_name ''deviceKeyVersion'' then store_int (\<lambda>v h. h\<lparr>ph_DeviceKeyVersion := v\<rparr>) raw h
      else if k = fold_name ''clientNonce'' then store_string (\<lambda>v h. h\<lparr>ph_ClientNonce := v\<rparr>) raw h
      else if k = fold_name ''ciphertextLength'' then store_int (\<lambda>v h. h\<lparr>ph_CiphertextLength := v\<rparr>) raw h
      else Some h)"

fun store_members :: "(string \<times> string) list \<Rightarrow> pairing_claim_header \<Rightarrow> pairing_claim_header option" where
  "store_members [] h = Some h"
| "store_members (m # ms) h = (case store_member m h of None \<Rightarrow> None | Some h' \<Rightarrow> store_members ms h')"

definition zero_header :: pairing_claim_header where
  "zero_header = \<lparr>ph_InviteID = [], ph_TenantID = [], ph_HostID = [], ph_ClaimID = [],
     ph_DeviceID = [], ph_DeviceAgreementPublicKey = [], ph_DeviceKeyVersion = 0,
     ph_ClientNonce = [], ph_CiphertextLength = 0\<rparr>"

text \<open>\<open>json.Unmarshal\<close> into a zero header.\<close>

definition unmarshal_header :: "string \<Rightarrow> pairing_claim_header option" where
  "unmarshal_header s =
     (case skip_space s of
        [] \<Rightarrow> None
      | c # t \<Rightarrow>
          if c = CHR ''{'' then
            (case json_members True t of
               None \<Rightarrow> None
             | Some (ms, rest) \<Rightarrow>
                 if skip_space rest = [] then store_members ms zero_header else None)
          else (case read_value s of
             None \<Rightarrow> None
           | Some (v, rest) \<Rightarrow>
               if v = ''null'' \<and> skip_space rest = [] then Some zero_header else None))"

section \<open>Invites and claims\<close>

definition expirePending :: "faults \<Rightarrow> int \<Rightarrow> (db, unit) tx" where
  "expirePending flt now =
     tx_bind (tx_call (flt 0) ''internal_error'' (tx_exec ''internal_error''
        (update_claims (\<lambda>c. cl_status c = ClaimPending \<and> cl_expires_at c \<le> now)
           (\<lambda>c. c\<lparr>cl_status := ClaimExpired, cl_updated_at := now\<rparr>)))) (\<lambda>_.
     tx_bind (tx_call (flt 1) ''internal_error'' (tx_exec ''internal_error''
        (update_invites (\<lambda>i. iv_status i = ClaimPending \<and> iv_expires_at i \<le> now)
           (\<lambda>i. i\<lparr>iv_status := ClaimExpired, iv_consumed_at := Some now\<rparr>)))) (\<lambda>_.
     tx_ret ()))"

definition inviteExists :: "faults \<Rightarrow> string \<Rightarrow> string \<Rightarrow> string \<Rightarrow> db \<Rightarrow> bool" where
  "inviteExists flt tenantID hostID inviteID d =
     (\<not> flt 2 \<and> affected (\<lambda>i. iv_tenant_id i = tenantID \<and> iv_host_id i = hostID \<and>
        iv_invite_id i = inviteID) (pairing_invites d) \<noteq> 0)"

definition CreateInvite :: "int \<Rightarrow> faults \<Rightarrow> string \<Rightarrow> string \<Rightarrow> string \<Rightarrow> int \<Rightarrow> (db, unit) tx" where
  "CreateInvite now flt tenant host invite expiresAt =
     (let tenantID = TrimSpace tenant; hostID = TrimSpace host; inviteID = TrimSpace invite in
      tx_guard (\<not> (\<not> validIdentifier tenantID \<or> \<not> validIdentifier hostID \<or> \<not> validIdentifier inviteID \<or>
                  UnixMilli expiresAt \<le> UnixMilli now \<or> expiresAt - now > maxInviteLifetime))
        ''invalid_invite''
     (tx_bind (tx_call (flt 0) ''internal_error'' (tx_query (\<lambda>d.
         affected (\<lambda>h. ho_tenant_id h = tenantID \<and> ho_host_id h = hostID \<and> ho_enabled h = 1 \<and>
           ho_revoked h = 0 \<and> tenant_enabled d (ho_tenant_id h)) (hosts d)))) (\<lambda>active.
      tx_guard (active = 1) ''host_not_found''
       (tx_catch
          (tx_call (flt 1) ''internal_error'' (tx_exec ''internal_error''
            (insert_invite \<lparr>iv_tenant_id = tenantID, iv_host_id = hostID, iv_invite_id = inviteID,
               iv_status = ClaimPending, iv_created_at = UnixMilli now,
               iv_expires_at = UnixMilli expiresAt, iv_consumed_at = None\<rparr>)))
          (tx_bind (tx_query (inviteExists flt tenantID hostID inviteID)) (\<lambda>e.
           tx_fail (if e then ''invite_exists'' else ''internal_error'')))))))"

definition submit_body ::
  "faults \<Rightarrow> int \<Rightarrow> bytes \<Rightarrow> submit_claim_request \<Rightarrow> (db, int) tx" where
  "submit_body flt now tokenHash request =
     (let header = sr_Header request in
      tx_bind (expirePending (\<lambda>i. flt (i + 1)) now) (\<lambda>_.
      tx_bind (tx_call (flt 3) ''internal_error'' (tx_query (\<lambda>d.
         find (\<lambda>i. iv_tenant_id i = ph_TenantID header \<and> iv_host_id i = ph_HostID header \<and>
           iv_invite_id i = ph_InviteID header \<and>
           host_active d (iv_tenant_id i) (iv_host_id i) \<and> tenant_enabled d (iv_tenant_id i))
           (pairing_invites d)))) (\<lambda>row.
      tx_bind (tx_some ''invite_not_found'' row) (\<lambda>invite.
      tx_guard (iv_status invite = ClaimPending) ''invite_not_pending''
     (tx_bind (tx_call (flt 4) ''internal_error'' (tx_query (\<lambda>d.
         affected (\<lambda>c. cl_claim_id c = ph_ClaimID header) (pairing_claims d)))) (\<lambda>existing.
      tx_guard (existing = 0) ''claim_exists''
     (tx_bind (tx_call (flt 5) ''internal_error'' (tx_exec ''internal_error''
         (insert_claim \<lparr>cl_claim_id = ph_ClaimID header, cl_invite_id = ph_InviteID header,
            cl_tenant_id = ph_TenantID header, cl_host_id = ph_HostID header,
            cl_device_id = ph_DeviceID header, cl_header_json = marshal_header header,
            cl_nonce = sr_Nonce request, cl_ciphertext = sr_Ciphertext request,
            cl_access_token_hash = tokenHash, cl_status = ClaimPending,
            cl_device_signing_public_key = None, cl_device_agreement_public_key = None,
            cl_device_key_version = None, cl_binding_version = None, cl_approval_header = None,
            cl_approval_nonce = None, cl_approval_ciphertext = None, cl_created_at = now,
            cl_updated_at = now, cl_expires_at = iv_expires_at invite, cl_consumed_at = None\<rparr>)))
        (\<lambda>_. tx_ret (iv_expires_at invite)))))))))"

definition SubmitClaim ::
  "crypto \<Rightarrow> rand \<Rightarrow> int \<Rightarrow> faults \<Rightarrow> submit_claim_request \<Rightarrow> (db, created_claim) tx" where
  "SubmitClaim cr rnd now_ns flt request =
     tx_bind (tx_lift (validateClaimSubmission request)) (\<lambda>_.
     tx_guard (int (length (marshal_header (sr_Header request))) \<le> maxOpaqueHeaderBytes) ''invalid_claim''
    (tx_bind (tx_some ''internal_error'' (rnd claimAccessTokenBytes)) (\<lambda>rawToken.
     tx_bind (in_transaction (flt 0) (flt 6)
        (submit_body flt (UnixMilli now_ns) (sha256 cr rawToken) request)) (\<lambda>expiresAt.
     tx_ret \<lparr>cc_ClaimID = ph_ClaimID (sr_Header request),
       cc_ClaimAccessToken = EncodeToString rawToken, cc_Status = ClaimPending,
       cc_ExpiresAt = expiresAt\<rparr>))))"

text \<open>\<open>sql.NullString.String\<close>: the empty string when the column is null.\<close>

definition null_string :: "string option \<Rightarrow> string" where
  "null_string v = (case v of None \<Rightarrow> [] | Some s \<Rightarrow> s)"

definition GetClaimWithToken ::
  "crypto \<Rightarrow> int \<Rightarrow> faults \<Rightarrow> string \<Rightarrow> string \<Rightarrow> (db, claim_status_view) tx" where
  "GetClaimWithToken cr now_ns flt claimID accessToken =
     tx_bind (tx_lift (hashAccessToken cr accessToken)) (\<lambda>tokenHash.
     in_transaction (flt 0) (flt 4)
      (tx_bind (expirePending (\<lambda>i. flt (i + 1)) (UnixMilli now_ns)) (\<lambda>_.
       tx_bind (tx_call (flt 3) ''internal_error'' (tx_query (\<lambda>d.
          find (\<lambda>c. cl_claim_id c = TrimSpace claimID \<and> cl_access_token_hash c = tokenHash)
            (pairing_claims d)))) (\<lambda>row.
       tx_bind (tx_some ''unauthorized'' row) (\<lambda>c.
       tx_ret \<lparr>cv_ClaimID = cl_claim_id c, cv_Status = cl_status c, cv_UpdatedAt = cl_updated_at c,
         cv_ApprovalHeader = null_string (cl_approval_header c),
         cv_ApprovalNonce = null_string (cl_approval_nonce c),
         cv_ApprovalCiphertext = null_string (cl_approval_ciphertext c)\<rparr>)))))"

text \<open>The loop over the rows: the first header that does not parse ends it.\<close>

fun opaque_claims :: "claim_row list \<Rightarrow> opaque_claim list result" where
  "opaque_claims [] = Inr []"
| "opaque_claims (c # cs) =
     (case unmarshal_header (cl_header_json c) of
        None \<Rightarrow> Inl ''internal_error''
      | Some h \<Rightarrow>
          (case opaque_claims cs of
             Inl e \<Rightarrow> Inl e
           | Inr items \<Rightarrow> Inr (\<lparr>oc_Header = h, oc_Nonce = cl_nonce c, oc_Ciphertext = cl_ciphertext c,
               oc_Status = cl_status c, oc_CreatedAt = cl_created_at c,
               oc_ExpiresAt = cl_expires_at c\<rparr> # items)))"

definition ListPendingClaims :: "int \<Rightarrow> faults \<Rightarrow> string \<Rightarrow> string \<Rightarrow> (db, opaque_claim list) tx" where
  "ListPendingClaims now_ns flt tenantID hostID =
     in_transaction (flt 0) (flt 4)
      (tx_bind (expirePending (\<lambda>i. flt (i + 1)) (UnixMilli now_ns)) (\<lambda>_.
       tx_bind (tx_call (flt 3) ''internal_error'' (tx_query (\<lambda>d.
          sort_key (\<lambda>c. (cl_created_at c, cl_claim_id c))
            (filter (\<lambda>c. cl_tenant_id c = TrimSpace tenantID \<and> cl_host_id c = TrimSpace hostID \<and>
               cl_status c = ClaimPending) (pairing_claims d))))) (\<lambda>rows.
       tx_lift (opaque_claims rows))))"

definition ClaimDeviceID :: "faults \<Rightarrow> string \<Rightarrow> string \<Rightarrow> string \<Rightarrow> (db, string) tx" where
  "ClaimDeviceID flt tenantID hostID claimID =
     tx_bind (tx_call (flt 0) ''internal_error'' (tx_query (\<lambda>d.
        find (\<lambda>c. cl_tenant_id c = TrimSpace tenantID \<and> cl_host_id c = TrimSpace hostID \<and>
          cl_claim_id c = TrimSpace claimID) (pairing_claims d)))) (\<lambda>row.
     tx_bind (tx_some ''claim_not_found'' row) (\<lambda>c. tx_ret (cl_device_id c)))"

section \<open>Approval\<close>

definition approvalMatches :: "crypto \<Rightarrow> approve_claim_request \<Rightarrow> claim_row \<Rightarrow> bool" where
  "approvalMatches cr request c =
     (case (cl_device_signing_public_key c, cl_device_agreement_public_key c, cl_device_key_version c,
            cl_binding_version c, cl_approval_header c, cl_approval_nonce c, cl_approval_ciphertext c) of
        (Some signing, Some agreement, Some keyVersion, Some bindingVersion, Some header, Some nonce,
         Some ciphertext) \<Rightarrow>
          secureEqual cr signing (ar_DeviceSigningPublicKey request) \<and>
          secureEqual cr agreement (ar_DeviceAgreementPublicKey request) \<and>
          keyVersion = ar_DeviceKeyVersion request \<and> bindingVersion = ar_BindingVersion request \<and>
          secureEqual cr header (ar_ApprovalHeader request) \<and>
          secureEqual cr nonce (ar_ApprovalNonce request) \<and>
          secureEqual cr ciphertext (ar_ApprovalCiphertext request)
      | _ \<Rightarrow> False)"

text \<open>The statements that bind the device and settle the claim, its rivals and the invite.\<close>

definition bind_device :: "faults \<Rightarrow> int \<Rightarrow> approve_claim_request \<Rightarrow> claim_row \<Rightarrow> (db, unit) tx" where
  "bind_device flt now request claim =
     (let approvedAt = RFC3339Nano (from_UnixMilli now) in
      tx_bind (tx_call (flt 5) ''internal_error'' (tx_exec ''internal_error''
        (upsert_device
          (\<lambda>v. dv_signing_public_key v = ar_DeviceSigningPublicKey request \<and>
             dv_agreement_public_key v = ar_DeviceAgreementPublicKey request \<and>
             dv_key_version v = ar_DeviceKeyVersion request \<and>
             dv_binding_version v < ar_BindingVersion request)
          (\<lambda>v. v\<lparr>dv_binding_version := ar_BindingVersion request, dv_revoked := 0,
             dv_approved_at := approvedAt\<rparr>)
          \<lparr>dv_tenant_id = ar_TenantID request, dv_host_id = ar_HostID request,
             dv_device_id = cl_device_id claim,
             dv_signing_public_key = ar_DeviceSigningPublicKey request,
             dv_agreement_public_key = ar_DeviceAgreementPublicKey request,
             dv_key_version = ar_DeviceKeyVersion request,
             dv_binding_version = ar_BindingVersion request, dv_revoked = 0,
             dv_approved_at = approvedAt, dv_last_seen_at = None\<rparr>))) (\<lambda>deviceAffected.
      tx_call (flt 6) ''internal_error''
       (tx_guard (deviceAffected = 1) ''device_binding_conflict'' (tx_ret ()))))"

definition settle_claim :: "faults \<Rightarrow> int \<Rightarrow> approve_claim_request \<Rightarrow> claim_row \<Rightarrow> (db, unit) tx" where
  "settle_claim flt now request claim =
     tx_bind (tx_call (flt 7) ''internal_error'' (tx_exec ''internal_error''
        (update_claims
          (\<lambda>c. cl_tenant_id c = ar_TenantID request \<and> cl_host_id c = ar_HostID request \<and>
             cl_claim_id c = ar_ClaimID request \<and> cl_status c = ClaimPending)
          (\<lambda>c. c\<lparr>cl_status := ClaimApproved,
             cl_device_signing_public_key := Some (ar_DeviceSigningPublicKey request),
             cl_device_agreement_public_key := Some (ar_DeviceAgreementPublicKey request),
             cl_device_key_version := Some (ar_DeviceKeyVersion request),
             cl_binding_version := Some (ar_BindingVersion request),
             cl_approval_header := Some (ar_ApprovalHeader request),
             cl_approval_nonce := Some (ar_ApprovalNonce request),
             cl_approval_ciphertext := Some (ar_ApprovalCiphertext request),
             cl_updated_at := now\<rparr>)))) (\<lambda>affected.
     tx_call (flt 8) ''claim_not_pending'' (tx_guard (affected = 1) ''claim_not_pending''
    (tx_bind (tx_call (flt 9) ''internal_error'' (tx_exec ''internal_error''
        (update_claims
          (\<lambda>c. cl_tenant_id c = ar_TenantID request \<and> cl_host_id c = ar_HostID request \<and>
             cl_invite_id c = cl_invite_id claim \<and> cl_claim_id c \<noteq> ar_ClaimID request \<and>
             cl_status c = ClaimPending)
          (\<lambda>c. c\<lparr>cl_status := ClaimConsumed, cl_updated_at := now, cl_consumed_at := Some now\<rparr>)))) (\<lambda>_.
     tx_bind (tx_call (flt 10) ''internal_error'' (tx_exec ''internal_error''
        (update_invites
          (\<lambda>i. iv_tenant_id i = ar_TenantID request \<and> iv_host_id i = ar_HostID request \<and>
             iv_invite_id i = cl_invite_id claim \<and> iv_status i = ClaimPending)
          (\<lambda>i. i\<lparr>iv_status := ClaimConsumed, iv_consumed_at := Some now\<rparr>)))) (\<lambda>inviteAffected.
     tx_call (flt 11) ''invite_not_pending''
       (tx_guard (inviteAffected = 1) ''invite_not_pending'' (tx_ret ())))))))"

definition approve_body :: "crypto \<Rightarrow> faults \<Rightarrow> int \<Rightarrow> approve_claim_request \<Rightarrow> (db, unit) tx" where
  "approve_body cr flt now request =
     tx_bind (expirePending (\<lambda>i. flt (i + 1)) now) (\<lambda>_.
     tx_bind (tx_call (flt 3) ''internal_error'' (tx_query (\<lambda>d.
        find (\<lambda>c. cl_tenant_id c = TrimSpace (ar_TenantID request) \<and>
          cl_host_id c = TrimSpace (ar_HostID request) \<and>
          cl_claim_id c = TrimSpace (ar_ClaimID request)) (pairing_claims d)))) (\<lambda>row.
     tx_bind (tx_some ''claim_not_found'' row) (\<lambda>claim.
     if cl_status claim = ClaimApproved then
       tx_guard (approvalMatches cr request claim) ''approval_conflict'' (tx_ret ())
     else
       tx_guard (cl_status claim = ClaimPending) ''claim_not_pending''
      (tx_bind (tx_some ''internal_error'' (unmarshal_header (cl_header_json claim))) (\<lambda>claimHeader.
       tx_guard (ph_DeviceAgreementPublicKey claimHeader = ar_DeviceAgreementPublicKey request \<and>
                 ph_DeviceKeyVersion claimHeader = ar_DeviceKeyVersion request)
         ''invalid_device_identity''
      (tx_bind (tx_call (flt 4) ''internal_error'' (tx_query (\<lambda>d.
          find (\<lambda>i. iv_tenant_id i = ar_TenantID request \<and> iv_host_id i = ar_HostID request \<and>
            iv_invite_id i = cl_invite_id claim) (pairing_invites d)))) (\<lambda>irow.
       tx_bind (tx_some ''internal_error'' irow) (\<lambda>invite.
       tx_guard (iv_status invite = ClaimPending) ''invite_not_pending''
      (tx_bind (bind_device flt now request claim) (\<lambda>_.
       settle_claim flt now request claim))))))))))"

definition ApproveClaim :: "crypto \<Rightarrow> int \<Rightarrow> faults \<Rightarrow> approve_claim_request \<Rightarrow> (db, unit) tx" where
  "ApproveClaim cr now_ns flt request =
     tx_bind (tx_lift (validateApproval request)) (\<lambda>_.
     in_transaction (flt 0) (flt 12) (approve_body cr flt (UnixMilli now_ns) request))"

section \<open>Rejection and cancellation\<close>

definition RejectClaim :: "int \<Rightarrow> faults \<Rightarrow> string \<Rightarrow> string \<Rightarrow> string \<Rightarrow> (db, unit) tx" where
  "RejectClaim now_ns flt tenantID hostID claimID =
     (let now = UnixMilli now_ns in
      in_transaction (flt 0) (flt 5)
       (tx_bind (expirePending (\<lambda>i. flt (i + 1)) now) (\<lambda>_.
        tx_bind (tx_call (flt 3) ''internal_error'' (tx_exec ''internal_error''
          (update_claims
            (\<lambda>c. cl_tenant_id c = TrimSpace tenantID \<and> cl_host_id c = TrimSpace hostID \<and>
               cl_claim_id c = TrimSpace claimID \<and> cl_status c = ClaimPending)
            (\<lambda>c. c\<lparr>cl_status := ClaimRejected, cl_updated_at := now\<rparr>)))) (\<lambda>affected.
        tx_call (flt 4) ''claim_not_pending''
          (tx_guard (affected = 1) ''claim_not_pending'' (tx_ret ()))))))"

definition CancelClaim :: "crypto \<Rightarrow> int \<Rightarrow> faults \<Rightarrow> string \<Rightarrow> string \<Rightarrow> (db, unit) tx" where
  "CancelClaim cr now_ns flt claimID accessToken =
     tx_bind (tx_lift (hashAccessToken cr accessToken)) (\<lambda>tokenHash.
     let now = UnixMilli now_ns in
     in_transaction (flt 0) (flt 6)
      (tx_bind (expirePending (\<lambda>i. flt (i + 1)) now) (\<lambda>_.
       tx_bind (tx_call (flt 3) ''internal_error'' (tx_query (\<lambda>d.
          find (\<lambda>c. cl_claim_id c = TrimSpace claimID \<and> cl_access_token_hash c = tokenHash)
            (pairing_claims d)))) (\<lambda>row.
       tx_bind (tx_some ''unauthorized'' row) (\<lambda>c.
       tx_guard (cl_status c = ClaimPending) ''claim_not_pending''
      (tx_bind (tx_call (flt 4) ''internal_error'' (tx_exec ''internal_error''
          (update_claims
            (\<lambda>c. cl_claim_id c = TrimSpace claimID \<and> cl_access_token_hash c = tokenHash \<and>
               cl_status c = ClaimPending)
            (\<lambda>c. c\<lparr>cl_status := ClaimCancelled, cl_updated_at := now\<rparr>)))) (\<lambda>affected.
       tx_call (flt 5) ''claim_not_pending''
         (tx_guard (affected = 1) ''claim_not_pending'' (tx_ret ())))))))))"

text \<open>The first statement uses the trimmed identifiers, the second the identifiers as given.\<close>

definition CancelInvite :: "int \<Rightarrow> faults \<Rightarrow> string \<Rightarrow> string \<Rightarrow> string \<Rightarrow> (db, unit) tx" where
  "CancelInvite now_ns flt tenantID hostID inviteID =
     (let now = UnixMilli now_ns in
      in_transaction (flt 0) (flt 6)
       (tx_bind (expirePending (\<lambda>i. flt (i + 1)) now) (\<lambda>_.
        tx_bind (tx_call (flt 3) ''internal_error'' (tx_exec ''internal_error''
          (update_invites
            (\<lambda>i. iv_tenant_id i = TrimSpace tenantID \<and> iv_host_id i = TrimSpace hostID \<and>
               iv_invite_id i = TrimSpace inviteID \<and> iv_status i = ClaimPending)
            (\<lambda>i. i\<lparr>iv_status := ClaimCancelled, iv_consumed_at := Some now\<rparr>)))) (\<lambda>affected.
        tx_call (flt 4) ''invite_not_pending'' (tx_guard (affected = 1) ''invite_not_pending''
       (tx_bind (tx_call (flt 5) ''internal_error'' (tx_exec ''internal_error''
          (update_claims
            (\<lambda>c. cl_tenant_id c = tenantID \<and> cl_host_id c = hostID \<and> cl_invite_id c = inviteID \<and>
               cl_status c = ClaimPending)
            (\<lambda>c. c\<lparr>cl_status := ClaimCancelled, cl_updated_at := now\<rparr>)))) (\<lambda>_.
        tx_ret ())))))))"

section \<open>Devices\<close>

definition scanDevice :: "device_row \<Rightarrow> device" where
  "scanDevice r = \<lparr>de_TenantID = dv_tenant_id r, de_HostID = dv_host_id r, de_DeviceID = dv_device_id r,
     de_SigningPublicKey = dv_signing_public_key r, de_AgreementPublicKey = dv_agreement_public_key r,
     de_KeyVersion = dv_key_version r, de_BindingVersion = dv_binding_version r,
     de_Revoked = (dv_revoked r \<noteq> 0), de_ApprovedAt = parse_RFC3339Nano (dv_approved_at r),
     de_LastSeenAt = map_option parse_RFC3339Nano (dv_last_seen_at r)\<rparr>"

definition GetDevice :: "faults \<Rightarrow> string \<Rightarrow> string \<Rightarrow> string \<Rightarrow> (db, device) tx" where
  "GetDevice flt tenantID hostID deviceID =
     tx_bind (tx_call (flt 0) ''internal_error'' (tx_query (\<lambda>d.
        find (\<lambda>v. dv_tenant_id v = tenantID \<and> dv_host_id v = hostID \<and> dv_device_id v = deviceID)
          (devices d)))) (\<lambda>row.
     tx_bind (tx_some ''device_not_found'' row) (\<lambda>r.
     let dev = scanDevice r in
     tx_guard (\<not> de_Revoked dev) ''device_revoked'' (tx_ret dev)))"

definition ListDevices :: "faults \<Rightarrow> string \<Rightarrow> string \<Rightarrow> (db, device list) tx" where
  "ListDevices flt tenantID hostID =
     tx_call (flt 0) ''internal_error'' (tx_query (\<lambda>d.
       map scanDevice (sort_key (\<lambda>v. (dv_approved_at v, dv_device_id v))
         (filter (\<lambda>v. dv_tenant_id v = tenantID \<and> dv_host_id v = hostID \<and> dv_revoked v = 0)
           (devices d)))))"

definition RevokeDevice :: "faults \<Rightarrow> string \<Rightarrow> string \<Rightarrow> string \<Rightarrow> (db, unit) tx" where
  "RevokeDevice flt tenantID hostID deviceID =
     tx_bind (tx_call (flt 0) ''internal_error'' (tx_exec ''internal_error''
        (update_devices
          (\<lambda>v. dv_tenant_id v = tenantID \<and> dv_host_id v = hostID \<and> dv_device_id v = deviceID \<and>
             dv_revoked v = 0)
          (\<lambda>v. v\<lparr>dv_revoked := 1\<rparr>)))) (\<lambda>affected.
     tx_call (flt 1) ''internal_error''
       (tx_guard (affected = 1) ''device_not_found'' (tx_ret ())))"

lemmas pairing_defs = CreateInvite_def submit_body_def SubmitClaim_def GetClaimWithToken_def
  ListPendingClaims_def ClaimDeviceID_def bind_device_def settle_claim_def approve_body_def
  ApproveClaim_def RejectClaim_def CancelClaim_def CancelInvite_def GetDevice_def ListDevices_def
  RevokeDevice_def

end
