(* ===== verification/Pairing_Lifecycle.thy ===== *)
theory Pairing_Lifecycle
  imports Pairing
begin

text \<open>
  What pairing promises. Claims and invites move from pending to one settled status and stay there;
  a device keeps its keys and its binding version grows; an invite leads to at most one approved
  claim. The contracts are interpretations of the step order of the prelude, so each is proved once
  per statement and inherited by every operation.
\<close>

section \<open>The life of claims and invites\<close>

text \<open>What can happen to a claim: a pending one is settled, once, in one of five ways.\<close>

inductive claim_step :: "claim_row \<Rightarrow> claim_row \<Rightarrow> bool" where
  expire: "cl_status c = ClaimPending \<Longrightarrow> cl_expires_at c \<le> now \<Longrightarrow>
     claim_step c (c\<lparr>cl_status := ClaimExpired, cl_updated_at := now\<rparr>)"
| reject: "cl_status c = ClaimPending \<Longrightarrow>
     claim_step c (c\<lparr>cl_status := ClaimRejected, cl_updated_at := now\<rparr>)"
| cancel: "cl_status c = ClaimPending \<Longrightarrow>
     claim_step c (c\<lparr>cl_status := ClaimCancelled, cl_updated_at := now\<rparr>)"
| consume: "cl_status c = ClaimPending \<Longrightarrow>
     claim_step c (c\<lparr>cl_status := ClaimConsumed, cl_updated_at := now, cl_consumed_at := Some now\<rparr>)"
| approve: "cl_status c = ClaimPending \<Longrightarrow>
     claim_step c (c\<lparr>cl_status := ClaimApproved, cl_device_signing_public_key := Some sk,
       cl_device_agreement_public_key := Some ak, cl_device_key_version := Some kv,
       cl_binding_version := Some bv, cl_approval_header := Some ah, cl_approval_nonce := Some an,
       cl_approval_ciphertext := Some ac, cl_updated_at := now\<rparr>)"

inductive invite_step :: "invite_row \<Rightarrow> invite_row \<Rightarrow> bool" where
  expire: "iv_status i = ClaimPending \<Longrightarrow> iv_expires_at i \<le> now \<Longrightarrow>
     invite_step i (i\<lparr>iv_status := ClaimExpired, iv_consumed_at := Some now\<rparr>)"
| cancel: "iv_status i = ClaimPending \<Longrightarrow>
     invite_step i (i\<lparr>iv_status := ClaimCancelled, iv_consumed_at := Some now\<rparr>)"
| consume: "iv_status i = ClaimPending \<Longrightarrow>
     invite_step i (i\<lparr>iv_status := ClaimConsumed, iv_consumed_at := Some now\<rparr>)"

inductive_cases claim_stepE: "claim_step c c'"
inductive_cases invite_stepE: "invite_step i i'"

lemma claim_step_settles: "claim_step c c' \<Longrightarrow> cl_status c = ClaimPending \<and> cl_status c' \<noteq> ClaimPending"
  by (auto elim: claim_stepE)

lemma invite_step_settles: "invite_step i i' \<Longrightarrow> iv_status i = ClaimPending \<and> iv_status i' \<noteq> ClaimPending"
  by (auto elim: invite_stepE)

definition claim_follows :: "claim_row \<Rightarrow> claim_row \<Rightarrow> bool" where
  "claim_follows c c' \<longleftrightarrow> c' = c \<or> claim_step c c'"

definition invite_follows :: "invite_row \<Rightarrow> invite_row \<Rightarrow> bool" where
  "invite_follows i i' \<longleftrightarrow> i' = i \<or> invite_step i i'"

lemma claim_follows_trans: "claim_follows a b \<Longrightarrow> claim_follows b c \<Longrightarrow> claim_follows a c"
  unfolding claim_follows_def using claim_step_settles by blast

lemma invite_follows_trans: "invite_follows a b \<Longrightarrow> invite_follows b c \<Longrightarrow> invite_follows a c"
  unfolding invite_follows_def using invite_step_settles by blast

definition lifecycle :: "db \<Rightarrow> db \<Rightarrow> bool" where
  "lifecycle d d' \<longleftrightarrow>
     (\<forall>c\<in>set (pairing_claims d). \<exists>c'\<in>set (pairing_claims d'). claim_follows c c') \<and>
     (\<forall>i\<in>set (pairing_invites d). \<exists>i'\<in>set (pairing_invites d'). invite_follows i i')"

lemma follows_refl [simp]: "claim_follows c c" "invite_follows i i"
  by (simp_all add: claim_follows_def invite_follows_def)

interpretation life: tx_order lifecycle
proof
  show "lifecycle d d" for d
    by (force simp: lifecycle_def)
  show "lifecycle d d2" if "lifecycle d d1" "lifecycle d1 d2" for d d1 d2
    using that unfolding lifecycle_def by (meson claim_follows_trans invite_follows_trans)
qed

lemma lifecycle_same:
  "pairing_claims d' = pairing_claims d \<Longrightarrow> pairing_invites d' = pairing_invites d \<Longrightarrow> lifecycle d d'"
  by (force simp: lifecycle_def)

lemma update_claims_Some [tx_inv]:
  "update_claims P f d = Some (n, d') \<longleftrightarrow>
   n = affected P (pairing_claims d) \<and> d' = d\<lparr>pairing_claims := update_where P f (pairing_claims d)\<rparr>"
  by (auto simp: update_claims_def)

lemma update_invites_Some [tx_inv]:
  "update_invites P f d = Some (n, d') \<longleftrightarrow>
   n = affected P (pairing_invites d) \<and> d' = d\<lparr>pairing_invites := update_where P f (pairing_invites d)\<rparr>"
  by (auto simp: update_invites_def)

lemma update_devices_Some [tx_inv]:
  "update_devices P f d = Some (n, d') \<longleftrightarrow>
   n = affected P (devices d) \<and> d' = d\<lparr>devices := update_where P f (devices d)\<rparr>"
  by (auto simp: update_devices_def)

lemma update_claims_life:
  assumes "update_claims P f d = Some (n, d')" "\<And>c. P c \<Longrightarrow> claim_step c (f c)"
  shows "lifecycle d d'"
  using assms(1) update_where_rel [of claim_follows P f "pairing_claims d"] assms(2)
  by (force simp: tx_inv lifecycle_def claim_follows_def)

lemma update_invites_life:
  assumes "update_invites P f d = Some (n, d')" "\<And>i. P i \<Longrightarrow> invite_step i (f i)"
  shows "lifecycle d d'"
  using assms(1) update_where_rel [of invite_follows P f "pairing_invites d"] assms(2)
  by (force simp: tx_inv lifecycle_def invite_follows_def)

lemma inserts_life:
  "insert_claim c d = Some (u, d') \<Longrightarrow> lifecycle d d'"
  "insert_invite i d = Some (u, d') \<Longrightarrow> lifecycle d d'"
  by (force simp: insert_claim_def insert_invite_def lifecycle_def split: if_splits)+

lemma other_tables_life:
  "insert_tenant r1 d = Some (u, d') \<Longrightarrow> lifecycle d d'"
  "insert_host_or_ignore r2 d = Some (n, d') \<Longrightarrow> lifecycle d d'"
  "insert_challenge r3 d = Some (u, d') \<Longrightarrow> lifecycle d d'"
  "insert_ticket r4 d = Some (u, d') \<Longrightarrow> lifecycle d d'"
  "upsert_device ok upd r5 d = Some (n, d') \<Longrightarrow> lifecycle d d'"
  "update_tenants P1 f1 d = Some (n, d') \<Longrightarrow> lifecycle d d'"
  "update_hosts P2 f2 d = Some (n, d') \<Longrightarrow> lifecycle d d'"
  "update_devices P3 f3 d = Some (n, d') \<Longrightarrow> lifecycle d d'"
  "update_tickets P4 f4 d = Some (n, d') \<Longrightarrow> lifecycle d d'"
  "update_challenges P5 f5 d = Some (n, d') \<Longrightarrow> lifecycle d d'"
  by (auto simp: insert_tenant_def insert_host_or_ignore_def insert_challenge_def insert_ticket_def
        upsert_device_def table_update_defs life.refl split: if_splits intro!: lifecycle_same)

lemma expirePending_life: "life.obeys (expirePending flt now)"
  unfolding expirePending_def
  by (intro life.obeys_rules;
      auto elim!: update_claims_life update_invites_life intro: claim_step.intros invite_step.intros)

lemma pairing_ops_life:
  "life.obeys (CreateInvite now flt t h i e)" "life.obeys (SubmitClaim cr rnd now flt sr)"
  "life.obeys (GetClaimWithToken cr now flt cid tok)" "life.obeys (ListPendingClaims now flt t h)"
  "life.obeys (ClaimDeviceID flt t h cid)" "life.obeys (ApproveClaim cr now flt ar)"
  "life.obeys (RejectClaim now flt t h cid)" "life.obeys (CancelClaim cr now flt cid tok)"
  "life.obeys (CancelInvite now flt t h i)" "life.obeys (GetDevice flt t h v)"
  "life.obeys (ListDevices flt t h)" "life.obeys (RevokeDevice flt t h v)"
  unfolding pairing_defs Let_def
  by (intro life.obeys_rules expirePending_life;
      auto elim!: update_claims_life update_invites_life inserts_life other_tables_life
        intro: claim_step.intros invite_step.intros)+
section \<open>Contracts kept by every operation\<close>

lemma expirePending_inv: "inv.obeys (expirePending flt now)"
  unfolding expirePending_def by (intro inv.obeys_rules; auto elim!: store_inv simp: cl_invite_def)

lemma pairing_ops_inv:
  "inv.obeys (CreateInvite now flt t h i e)" "inv.obeys (SubmitClaim cr rnd now flt sr)"
  "inv.obeys (GetClaimWithToken cr now flt cid tok)" "inv.obeys (ListPendingClaims now flt t h)"
  "inv.obeys (ClaimDeviceID flt t h cid)" "inv.obeys (ApproveClaim cr now flt ar)"
  "inv.obeys (RejectClaim now flt t h cid)" "inv.obeys (CancelClaim cr now flt cid tok)"
  "inv.obeys (CancelInvite now flt t h i)" "inv.obeys (GetDevice flt t h v)"
  "inv.obeys (ListDevices flt t h)" "inv.obeys (RevokeDevice flt t h v)"
  unfolding pairing_defs Let_def
  by (intro inv.obeys_rules expirePending_inv; auto elim!: store_inv simp: cl_invite_def)+

lemma expirePending_cred: "cred.obeys (expirePending flt now)"
  unfolding expirePending_def by (intro cred.obeys_rules; auto elim!: other_tables_kept)

lemma pairing_ops_cred:
  "cred.obeys (CreateInvite now flt t h i e)" "cred.obeys (SubmitClaim cr rnd now flt sr)"
  "cred.obeys (GetClaimWithToken cr now flt cid tok)" "cred.obeys (ListPendingClaims now flt t h)"
  "cred.obeys (ClaimDeviceID flt t h cid)" "cred.obeys (ApproveClaim cr now flt ar)"
  "cred.obeys (RejectClaim now flt t h cid)" "cred.obeys (CancelClaim cr now flt cid tok)"
  "cred.obeys (CancelInvite now flt t h i)" "cred.obeys (GetDevice flt t h v)"
  "cred.obeys (ListDevices flt t h)" "cred.obeys (RevokeDevice flt t h v)"
  unfolding pairing_defs Let_def
  by (intro cred.obeys_rules expirePending_cred; auto elim!: other_tables_kept)+

text \<open>
  A device keeps the keys it was first bound with; approving it again needs a larger binding
  version, also after a revocation.
\<close>

definition device_follows :: "device_row \<Rightarrow> device_row \<Rightarrow> bool" where
  "device_follows v v' \<longleftrightarrow> dv_key v' = dv_key v \<and> dv_signing_public_key v' = dv_signing_public_key v \<and>
     dv_agreement_public_key v' = dv_agreement_public_key v \<and> dv_key_version v' = dv_key_version v \<and>
     dv_binding_version v \<le> dv_binding_version v' \<and>
     (dv_binding_version v' = dv_binding_version v \<longrightarrow> dv_revoked v \<noteq> 0 \<longrightarrow> dv_revoked v' \<noteq> 0)"

definition devices_follow :: "db \<Rightarrow> db \<Rightarrow> bool" where
  "devices_follow d d' \<longleftrightarrow> (\<forall>v\<in>set (devices d). \<exists>v'\<in>set (devices d'). device_follows v v')"

lemma device_follows_refl [simp]: "device_follows v v"
  by (simp add: device_follows_def)

lemma device_follows_trans: "device_follows u v \<Longrightarrow> device_follows v w \<Longrightarrow> device_follows u w"
  by (auto simp: device_follows_def)

interpretation dev: tx_order devices_follow
proof
  show "devices_follow d d" for d
    by (force simp: devices_follow_def)
  show "devices_follow d d2" if "devices_follow d d1" "devices_follow d1 d2" for d d1 d2
    using that unfolding devices_follow_def by (meson device_follows_trans)
qed

lemma devices_follow_same: "devices d' = devices d \<Longrightarrow> devices_follow d d'"
  by (force simp: devices_follow_def)

lemma update_devices_follow:
  assumes "update_devices P f d = Some (n, d')" "\<And>v. P v \<Longrightarrow> device_follows v (f v)"
  shows "devices_follow d d'"
  using assms(1) update_where_rel [of device_follows P f "devices d"] assms(2)
  by (force simp: tx_inv devices_follow_def)

lemma upsert_device_follow:
  assumes "upsert_device ok upd r d = Some (n, d')" "\<And>v. ok v \<Longrightarrow> device_follows v (upd v)"
  shows "devices_follow d d'"
  using assms(1) update_where_rel [of device_follows "\<lambda>v. dv_key v = dv_key r \<and> ok v" upd "devices d"] assms(2)
  by (force simp: upsert_device_def devices_follow_def split: if_splits)

lemma other_tables_dev:
  "insert_tenant r1 d = Some (u, d') \<Longrightarrow> devices_follow d d'"
  "insert_host_or_ignore r2 d = Some (n, d') \<Longrightarrow> devices_follow d d'"
  "insert_challenge r3 d = Some (u, d') \<Longrightarrow> devices_follow d d'"
  "insert_ticket r4 d = Some (u, d') \<Longrightarrow> devices_follow d d'"
  "insert_invite r5 d = Some (u, d') \<Longrightarrow> devices_follow d d'"
  "insert_claim r6 d = Some (u, d') \<Longrightarrow> devices_follow d d'"
  "update_tenants P1 f1 d = Some (n, d') \<Longrightarrow> devices_follow d d'"
  "update_hosts P2 f2 d = Some (n, d') \<Longrightarrow> devices_follow d d'"
  "update_invites P3 f3 d = Some (n, d') \<Longrightarrow> devices_follow d d'"
  "update_claims P4 f4 d = Some (n, d') \<Longrightarrow> devices_follow d d'"
  "update_tickets P5 f5 d = Some (n, d') \<Longrightarrow> devices_follow d d'"
  "update_challenges P6 f6 d = Some (n, d') \<Longrightarrow> devices_follow d d'"
  by (auto simp: insert_tenant_def insert_host_or_ignore_def insert_challenge_def insert_ticket_def
        insert_invite_def insert_claim_def table_update_defs dev.refl
        split: if_splits intro!: devices_follow_same)

lemma expirePending_dev: "dev.obeys (expirePending flt now)"
  unfolding expirePending_def by (intro dev.obeys_rules; auto elim!: other_tables_dev)

lemma pairing_ops_dev:
  "dev.obeys (CreateInvite now flt t h i e)" "dev.obeys (SubmitClaim cr rnd now flt sr)"
  "dev.obeys (GetClaimWithToken cr now flt cid tok)" "dev.obeys (ListPendingClaims now flt t h)"
  "dev.obeys (ClaimDeviceID flt t h cid)" "dev.obeys (ApproveClaim cr now flt ar)"
  "dev.obeys (RejectClaim now flt t h cid)" "dev.obeys (CancelClaim cr now flt cid tok)"
  "dev.obeys (CancelInvite now flt t h i)" "dev.obeys (GetDevice flt t h v)"
  "dev.obeys (ListDevices flt t h)" "dev.obeys (RevokeDevice flt t h v)"
  unfolding pairing_defs Let_def
  by (intro dev.obeys_rules expirePending_dev;
      auto elim!: other_tables_dev update_devices_follow upsert_device_follow
        simp: device_follows_def dv_key_def)+

text \<open>Hosts are not touched by pairing.\<close>

lemma host_pinned_same: "hosts d' = hosts d \<Longrightarrow> host_pinned d d'"
  by (simp add: host_pinned_def)

lemma other_tables_pin:
  "insert_tenant r1 d = Some (u, d') \<Longrightarrow> host_pinned d d'"
  "upsert_device ok upd r2 d = Some (n, d') \<Longrightarrow> host_pinned d d'"
  "insert_challenge r3 d = Some (u, d') \<Longrightarrow> host_pinned d d'"
  "insert_ticket r4 d = Some (u, d') \<Longrightarrow> host_pinned d d'"
  "insert_invite r5 d = Some (u, d') \<Longrightarrow> host_pinned d d'"
  "insert_claim r6 d = Some (u, d') \<Longrightarrow> host_pinned d d'"
  "update_tenants P1 f1 d = Some (n, d') \<Longrightarrow> host_pinned d d'"
  "update_devices P2 f2 d = Some (n, d') \<Longrightarrow> host_pinned d d'"
  "update_invites P3 f3 d = Some (n, d') \<Longrightarrow> host_pinned d d'"
  "update_claims P4 f4 d = Some (n, d') \<Longrightarrow> host_pinned d d'"
  "update_tickets P5 f5 d = Some (n, d') \<Longrightarrow> host_pinned d d'"
  "update_challenges P6 f6 d = Some (n, d') \<Longrightarrow> host_pinned d d'"
  by (auto simp: insert_tenant_def upsert_device_def insert_challenge_def insert_ticket_def
        insert_invite_def insert_claim_def table_update_defs pin.refl
        split: if_splits intro!: host_pinned_same)

lemma expirePending_pin: "pin.obeys (expirePending flt now)"
  unfolding expirePending_def by (intro pin.obeys_rules; auto elim!: other_tables_pin)

lemma pairing_ops_pin:
  "pin.obeys (CreateInvite now flt t h i e)" "pin.obeys (SubmitClaim cr rnd now flt sr)"
  "pin.obeys (GetClaimWithToken cr now flt cid tok)" "pin.obeys (ListPendingClaims now flt t h)"
  "pin.obeys (ClaimDeviceID flt t h cid)" "pin.obeys (ApproveClaim cr now flt ar)"
  "pin.obeys (RejectClaim now flt t h cid)" "pin.obeys (CancelClaim cr now flt cid tok)"
  "pin.obeys (CancelInvite now flt t h i)" "pin.obeys (GetDevice flt t h v)"
  "pin.obeys (ListDevices flt t h)" "pin.obeys (RevokeDevice flt t h v)"
  unfolding pairing_defs Let_def
  by (intro pin.obeys_rules expirePending_pin; auto elim!: other_tables_pin)+
section \<open>What successful runs do\<close>

definition expire :: "int \<Rightarrow> db \<Rightarrow> db" where
  "expire now d = d
     \<lparr>pairing_claims := update_where (\<lambda>c. cl_status c = ClaimPending \<and> cl_expires_at c \<le> now)
        (\<lambda>c. c\<lparr>cl_status := ClaimExpired, cl_updated_at := now\<rparr>) (pairing_claims d),
      pairing_invites := update_where (\<lambda>i. iv_status i = ClaimPending \<and> iv_expires_at i \<le> now)
        (\<lambda>i. i\<lparr>iv_status := ClaimExpired, iv_consumed_at := Some now\<rparr>) (pairing_invites d)\<rparr>"

lemma expirePending_ok [tx_inv]:
  "expirePending flt now d = (Inr u, d') \<longleftrightarrow> \<not> flt 0 \<and> \<not> flt 1 \<and> d' = expire now d"
  by (auto simp: expirePending_def expire_def tx_inv)

lemma expire_tables [simp]:
  "tenants (expire now d) = tenants d" "hosts (expire now d) = hosts d"
  "devices (expire now d) = devices d" "auth_tickets (expire now d) = auth_tickets d"
  "auth_challenges (expire now d) = auth_challenges d" "audit_events (expire now d) = audit_events d"
  by (simp_all add: expire_def)

lemma expire_run: "expirePending no_faults now d = (Inr (), expire now d)"
  by (simp add: tx_inv)

lemma expire_inv: "db_inv d \<Longrightarrow> db_inv (expire now d)"
  using inv.obeysD [OF expirePending_inv expire_run] by blast

text \<open>A claim that is still pending after the expiry is not overdue.\<close>

lemma expire_idem: "expire now (expire now d) = expire now d"
  by (simp add: expire_def update_where_def)

definition find_claim :: "string \<Rightarrow> string \<Rightarrow> string \<Rightarrow> db \<Rightarrow> claim_row option" where
  "find_claim t h cid d = find (\<lambda>c. cl_tenant_id c = t \<and> cl_host_id c = h \<and> cl_claim_id c = cid)
     (pairing_claims d)"

definition find_invite :: "string \<Rightarrow> string \<Rightarrow> string \<Rightarrow> db \<Rightarrow> invite_row option" where
  "find_invite t h i d = find (\<lambda>r. iv_tenant_id r = t \<and> iv_host_id r = h \<and> iv_invite_id r = i)
     (pairing_invites d)"

lemma validIdentifier_trim: "validIdentifier v \<Longrightarrow> TrimSpace v = v"
  by (simp add: validIdentifier_def)

lemma validateApproval_ok:
  assumes "validateApproval r = Inr ()"
  shows "validIdentifier (ar_TenantID r)" "validIdentifier (ar_HostID r)" "validIdentifier (ar_ClaimID r)"
    "0 < ar_DeviceKeyVersion r" "0 < ar_BindingVersion r"
    "ar_DeviceSigningPublicKey r \<noteq> ar_DeviceAgreementPublicKey r"
    "validStrictSEC1 (ar_DeviceSigningPublicKey r)" "validStrictSEC1 (ar_DeviceAgreementPublicKey r)"
  using assms unfolding validateApproval_def by (auto split: if_splits)

text \<open>The state after a first approval, from the state after the expiry.\<close>

definition bound_device :: "int \<Rightarrow> approve_claim_request \<Rightarrow> string \<Rightarrow> device_row" where
  "bound_device now r dev = \<lparr>dv_tenant_id = ar_TenantID r, dv_host_id = ar_HostID r,
     dv_device_id = dev, dv_signing_public_key = ar_DeviceSigningPublicKey r,
     dv_agreement_public_key = ar_DeviceAgreementPublicKey r, dv_key_version = ar_DeviceKeyVersion r,
     dv_binding_version = ar_BindingVersion r, dv_revoked = 0,
     dv_approved_at = RFC3339Nano (from_UnixMilli now), dv_last_seen_at = None\<rparr>"

definition approved_row :: "int \<Rightarrow> approve_claim_request \<Rightarrow> claim_row \<Rightarrow> claim_row" where
  "approved_row now r c = c\<lparr>cl_status := ClaimApproved,
     cl_device_signing_public_key := Some (ar_DeviceSigningPublicKey r),
     cl_device_agreement_public_key := Some (ar_DeviceAgreementPublicKey r),
     cl_device_key_version := Some (ar_DeviceKeyVersion r),
     cl_binding_version := Some (ar_BindingVersion r), cl_approval_header := Some (ar_ApprovalHeader r),
     cl_approval_nonce := Some (ar_ApprovalNonce r),
     cl_approval_ciphertext := Some (ar_ApprovalCiphertext r), cl_updated_at := now\<rparr>"

definition settled_row :: "int \<Rightarrow> approve_claim_request \<Rightarrow> string \<Rightarrow> claim_row \<Rightarrow> claim_row" where
  "settled_row now r ivt c =
     (if cl_tenant_id c = ar_TenantID r \<and> cl_host_id c = ar_HostID r \<and> cl_status c = ClaimPending then
        if cl_claim_id c = ar_ClaimID r then approved_row now r c
        else if cl_invite_id c = ivt
        then c\<lparr>cl_status := ClaimConsumed, cl_updated_at := now, cl_consumed_at := Some now\<rparr>
        else c
      else c)"

definition consumed_row :: "int \<Rightarrow> approve_claim_request \<Rightarrow> string \<Rightarrow> invite_row \<Rightarrow> invite_row" where
  "consumed_row now r ivt i =
     (if iv_tenant_id i = ar_TenantID r \<and> iv_host_id i = ar_HostID r \<and> iv_invite_id i = ivt \<and>
         iv_status i = ClaimPending
      then i\<lparr>iv_status := ClaimConsumed, iv_consumed_at := Some now\<rparr> else i)"

lemma settle_claim_ok:
  assumes "settle_claim flt now r c d = (Inr u, d')"
  shows "pairing_claims d' = map (settled_row now r (cl_invite_id c)) (pairing_claims d)"
    "pairing_invites d' = map (consumed_row now r (cl_invite_id c)) (pairing_invites d)"
    "devices d' = devices d" "hosts d' = hosts d" "tenants d' = tenants d"
    "\<exists>q\<in>set (pairing_claims d). cl_tenant_id q = ar_TenantID r \<and> cl_host_id q = ar_HostID r \<and>
       cl_claim_id q = ar_ClaimID r \<and> cl_status q = ClaimPending"
proof -
  from assms obtain d1 d2 where s:
    "d1 = d\<lparr>pairing_claims := update_where
       (\<lambda>c. cl_tenant_id c = ar_TenantID r \<and> cl_host_id c = ar_HostID r \<and>
             cl_claim_id c = ar_ClaimID r \<and> cl_status c = ClaimPending) (approved_row now r) (pairing_claims d)\<rparr>"
    "d2 = d1\<lparr>pairing_claims := update_where
       (\<lambda>q. cl_tenant_id q = ar_TenantID r \<and> cl_host_id q = ar_HostID r \<and>
             cl_invite_id q = cl_invite_id c \<and> cl_claim_id q \<noteq> ar_ClaimID r \<and>
             cl_status q = ClaimPending)
       (\<lambda>c. c\<lparr>cl_status := ClaimConsumed, cl_updated_at := now, cl_consumed_at := Some now\<rparr>) (pairing_claims d1)\<rparr>"
    "d' = d2\<lparr>pairing_invites := update_where
       (\<lambda>i. iv_tenant_id i = ar_TenantID r \<and> iv_host_id i = ar_HostID r \<and>
             iv_invite_id i = cl_invite_id c \<and> iv_status i = ClaimPending)
       (\<lambda>i. i\<lparr>iv_status := ClaimConsumed, iv_consumed_at := Some now\<rparr>) (pairing_invites d2)\<rparr>"
    and one: "affected (\<lambda>c. cl_tenant_id c = ar_TenantID r \<and> cl_host_id c = ar_HostID r \<and>
             cl_claim_id c = ar_ClaimID r \<and> cl_status c = ClaimPending) (pairing_claims d) = 1"
    unfolding settle_claim_def approved_row_def by (auto simp: tx_inv)
  show "pairing_claims d' = map (settled_row now r (cl_invite_id c)) (pairing_claims d)"
    by (simp add: s update_where_def settled_row_def approved_row_def)
  show "pairing_invites d' = map (consumed_row now r (cl_invite_id c)) (pairing_invites d)"
    by (simp add: s update_where_def consumed_row_def)
  show "devices d' = devices d" "hosts d' = hosts d" "tenants d' = tenants d" by (simp_all add: s)
  show "\<exists>q\<in>set (pairing_claims d). cl_tenant_id q = ar_TenantID r \<and> cl_host_id q = ar_HostID r \<and>
       cl_claim_id q = ar_ClaimID r \<and> cl_status q = ClaimPending"
    using affected_update_in [OF one] by blast
qed

lemma bind_device_ok:
  assumes "bind_device flt now r c d = (Inr u, d')"
  shows "pairing_claims d' = pairing_claims d" "pairing_invites d' = pairing_invites d"
    "hosts d' = hosts d" "tenants d' = tenants d"
    "\<exists>v\<in>set (devices d'). dv_key v = (ar_TenantID r, ar_HostID r, cl_device_id c) \<and>
       dv_signing_public_key v = ar_DeviceSigningPublicKey r \<and>
       dv_agreement_public_key v = ar_DeviceAgreementPublicKey r \<and>
       dv_key_version v = ar_DeviceKeyVersion r \<and> dv_binding_version v = ar_BindingVersion r \<and>
       dv_revoked v = 0"
proof -
  let ?ok = "\<lambda>v. dv_signing_public_key v = ar_DeviceSigningPublicKey r \<and>
             dv_agreement_public_key v = ar_DeviceAgreementPublicKey r \<and>
             dv_key_version v = ar_DeviceKeyVersion r \<and> dv_binding_version v < ar_BindingVersion r"
  let ?upd = "\<lambda>v. v\<lparr>dv_binding_version := ar_BindingVersion r, dv_revoked := 0,
             dv_approved_at := RFC3339Nano (from_UnixMilli now)\<rparr>"
  let ?row = "bound_device now r (cl_device_id c)"
  have up: "upsert_device ?ok ?upd ?row d = Some (1, d')"
    using assms unfolding bind_device_def Let_def bound_device_def by (auto simp: tx_inv)
  then show "pairing_claims d' = pairing_claims d" "pairing_invites d' = pairing_invites d"
    "hosts d' = hosts d" "tenants d' = tenants d"
    by (auto simp: upsert_device_def split: if_splits)
  show "\<exists>v\<in>set (devices d'). dv_key v = (ar_TenantID r, ar_HostID r, cl_device_id c) \<and>
       dv_signing_public_key v = ar_DeviceSigningPublicKey r \<and>
       dv_agreement_public_key v = ar_DeviceAgreementPublicKey r \<and>
       dv_key_version v = ar_DeviceKeyVersion r \<and> dv_binding_version v = ar_BindingVersion r \<and>
       dv_revoked v = 0"
  proof (cases "dv_key ?row \<in> set (map dv_key (devices d))")
    case True
    with up have one: "affected (\<lambda>v. dv_key v = dv_key ?row \<and> ?ok v) (devices d) = 1"
      and d': "d' = d\<lparr>devices := update_where (\<lambda>v. dv_key v = dv_key ?row \<and> ?ok v) ?upd (devices d)\<rparr>"
      by (auto simp: upsert_device_def)
    from affected_update_in [OF one, of ?upd] obtain v where
      "v \<in> set (devices d)" "dv_key v = dv_key ?row" "?ok v" "?upd v \<in> set (devices d')"
      by (auto simp: d')
    then show ?thesis by (intro bexI [of _ "?upd v"]) (auto simp: dv_key_def bound_device_def)
  next
    case False
    with up have "?row \<in> set (devices d')" by (auto simp: upsert_device_def split: if_splits)
    then show ?thesis by (intro bexI [of _ ?row]) (auto simp: dv_key_def bound_device_def)
  qed
qed

lemma ApproveClaim_ok:
  assumes "ApproveClaim cr now flt r d = (Inr u, d')"
  defines "t \<equiv> UnixMilli now"
  obtains (again) c where "validateApproval r = Inr ()"
      "find_claim (ar_TenantID r) (ar_HostID r) (ar_ClaimID r) (expire t d) = Some c"
      "cl_status c = ClaimApproved" "approvalMatches cr r c" "d' = expire t d"
  | (first) c h i u1 u2 d1 where "validateApproval r = Inr ()"
      "find_claim (ar_TenantID r) (ar_HostID r) (ar_ClaimID r) (expire t d) = Some c"
      "cl_status c = ClaimPending" "unmarshal_header (cl_header_json c) = Some h"
      "ph_DeviceAgreementPublicKey h = ar_DeviceAgreementPublicKey r"
      "ph_DeviceKeyVersion h = ar_DeviceKeyVersion r"
      "find_invite (ar_TenantID r) (ar_HostID r) (cl_invite_id c) (expire t d) = Some i"
      "iv_status i = ClaimPending"
      "bind_device flt t r c (expire t d) = (Inr u1, d1)" "settle_claim flt t r c d1 = (Inr u2, d')"
proof -
  have v: "validateApproval r = Inr ()" and b: "approve_body cr flt t r d = (Inr u, d')"
    using assms(1) unfolding ApproveClaim_def t_def by (auto simp: tx_inv)
  note trim = validateApproval_ok(1-3) [OF v, THEN validIdentifier_trim]
  from b obtain c where c: "find_claim (ar_TenantID r) (ar_HostID r) (ar_ClaimID r) (expire t d) = Some c"
    unfolding approve_body_def trim find_claim_def by (auto simp: tx_inv)
  show thesis
  proof (cases "cl_status c = ClaimApproved")
    case True
    with b c have "approvalMatches cr r c" "d' = expire t d"
      unfolding approve_body_def trim find_claim_def by (auto simp: tx_inv)
    with True v c show ?thesis by (intro again)
  next
    case False
    with b c show ?thesis
      unfolding approve_body_def trim find_claim_def
      by (auto simp: tx_inv find_invite_def intro!: first [OF v] simp flip: find_claim_def)
  qed
qed

section \<open>At most one approval per invite\<close>

definition pairing_inv :: "db \<Rightarrow> bool" where
  "pairing_inv d \<longleftrightarrow>
     (\<forall>c\<in>set (pairing_claims d). cl_status c = ClaimApproved \<longrightarrow>
        (\<exists>i\<in>set (pairing_invites d). iv_key i = cl_invite c \<and> iv_status i = ClaimConsumed)) \<and>
     (\<forall>c\<in>set (pairing_claims d). \<forall>c'\<in>set (pairing_claims d).
        cl_status c = ClaimApproved \<longrightarrow> cl_status c' = ClaimApproved \<longrightarrow> cl_invite c = cl_invite c' \<longrightarrow>
        c = c') \<and>
     (\<forall>c\<in>set (pairing_claims d). \<forall>i\<in>set (pairing_invites d).
        cl_status c = ClaimPending \<longrightarrow> iv_key i = cl_invite c \<longrightarrow> iv_status i \<noteq> ClaimConsumed)"

definition pairing_ok :: "db \<Rightarrow> bool" where
  "pairing_ok d \<longleftrightarrow> db_inv d \<and> pairing_inv d"

interpretation pair: tx_order "\<lambda>d d'. pairing_ok d \<longrightarrow> pairing_ok d'"
  by unfold_locales auto

lemma pairing_inv_same:
  "pairing_claims d' = pairing_claims d \<Longrightarrow> pairing_invites d' = pairing_invites d \<Longrightarrow>
   pairing_inv d' = pairing_inv d"
  by (simp add: pairing_inv_def)

text \<open>The invariant depends on the pending and approved claims and the consumed invites only.\<close>

lemma pairing_inv_mono:
  assumes "pairing_inv d"
    and "\<And>c. c \<in> set (pairing_claims d') \<Longrightarrow> cl_status c \<in> {ClaimPending, ClaimApproved} \<Longrightarrow>
      c \<in> set (pairing_claims d)"
    and "\<And>i. iv_status i = ClaimConsumed \<Longrightarrow>
      i \<in> set (pairing_invites d') \<longleftrightarrow> i \<in> set (pairing_invites d)"
  shows "pairing_inv d'"
  using assms unfolding pairing_inv_def by blast

lemma update_claims_pairing:
  assumes "update_claims P f d = Some (n, d')" "pairing_inv d"
    and "\<And>c. P c \<Longrightarrow> cl_status (f c) \<notin> {ClaimPending, ClaimApproved}"
  shows "pairing_inv d'"
  using assms(1,3) by (intro pairing_inv_mono [OF assms(2)]) (auto simp: tx_inv table_simps split: if_splits)

lemma update_invites_pairing:
  assumes "update_invites P f d = Some (n, d')" "pairing_inv d"
    and "\<And>i. P i \<Longrightarrow> iv_status i = ClaimPending \<and> iv_status (f i) \<noteq> ClaimConsumed"
  shows "pairing_inv d'"
proof -
  have "i \<in> set (pairing_invites d') \<longleftrightarrow> i \<in> set (pairing_invites d)" if "iv_status i = ClaimConsumed" for i
  proof
    assume "i \<in> set (pairing_invites d')"
    then show "i \<in> set (pairing_invites d)"
      using assms(1,3) that by (auto simp: tx_inv table_simps split: if_splits)
  next
    assume "i \<in> set (pairing_invites d)"
    moreover have "\<not> P i" using assms(3) [of i] that by auto
    ultimately show "i \<in> set (pairing_invites d')"
      using assms(1) by (force simp: tx_inv table_simps)
  qed
  with assms show ?thesis by (intro pairing_inv_mono [OF assms(2)]) (auto simp: tx_inv)
qed

lemma insert_invite_pairing:
  "insert_invite i d = Some (u, d') \<Longrightarrow> iv_status i \<noteq> ClaimConsumed \<Longrightarrow> pairing_inv d \<Longrightarrow> pairing_inv d'"
  by (erule pairing_inv_mono) (auto simp: insert_invite_def split: if_splits)

lemma other_tables_pairing:
  "insert_tenant r1 d = Some (u, d') \<Longrightarrow> pairing_inv d \<Longrightarrow> pairing_inv d'"
  "insert_host_or_ignore r2 d = Some (n, d') \<Longrightarrow> pairing_inv d \<Longrightarrow> pairing_inv d'"
  "insert_challenge r3 d = Some (u, d') \<Longrightarrow> pairing_inv d \<Longrightarrow> pairing_inv d'"
  "insert_ticket r4 d = Some (u, d') \<Longrightarrow> pairing_inv d \<Longrightarrow> pairing_inv d'"
  "update_tenants P1 f1 d = Some (n, d') \<Longrightarrow> pairing_inv d \<Longrightarrow> pairing_inv d'"
  "update_hosts P2 f2 d = Some (n, d') \<Longrightarrow> pairing_inv d \<Longrightarrow> pairing_inv d'"
  "update_devices P3 f3 d = Some (n, d') \<Longrightarrow> pairing_inv d \<Longrightarrow> pairing_inv d'"
  "update_tickets P4 f4 d = Some (n, d') \<Longrightarrow> pairing_inv d \<Longrightarrow> pairing_inv d'"
  "update_challenges P5 f5 d = Some (n, d') \<Longrightarrow> pairing_inv d \<Longrightarrow> pairing_inv d'"
  by (auto simp: insert_tenant_def insert_host_or_ignore_def insert_challenge_def insert_ticket_def
        table_update_defs pairing_inv_def split: if_splits)

lemmas pairing_keeps = update_claims_pairing update_invites_pairing insert_invite_pairing
  other_tables_pairing

lemma expirePending_pair: "pair.obeys (expirePending flt now)"
  unfolding expirePending_def
  by (intro pair.obeys_rules; auto simp: pairing_ok_def cl_invite_def elim!: store_inv pairing_keeps)

lemma expire_pairing: "pairing_ok d \<Longrightarrow> pairing_ok (expire now d)"
  using pair.obeysD [OF expirePending_pair expire_run] by blast

lemma simple_ops_pair:
  "pair.obeys (CreateInvite now flt t h i e)"
  "pair.obeys (GetClaimWithToken cr now flt cid tok)" "pair.obeys (ListPendingClaims now flt t h)"
  "pair.obeys (ClaimDeviceID flt t h cid)"
  "pair.obeys (RejectClaim now flt t h cid)" "pair.obeys (CancelClaim cr now flt cid tok)"
  "pair.obeys (CancelInvite now flt t h i)" "pair.obeys (GetDevice flt t h v)"
  "pair.obeys (ListDevices flt t h)" "pair.obeys (RevokeDevice flt t h v)"
  unfolding pairing_defs Let_def
  by (intro pair.obeys_rules expirePending_pair;
      auto simp: pairing_ok_def cl_invite_def elim!: store_inv pairing_keeps)+
lemma submit_body_ok:
  assumes "submit_body flt t hash r d = (Inr e, d')"
  obtains i c where "find_invite (ph_TenantID (sr_Header r)) (ph_HostID (sr_Header r)) (ph_InviteID (sr_Header r))
      (expire t d) = Some i \<or> i \<in> set (pairing_invites (expire t d))"
    "i \<in> set (pairing_invites (expire t d))" "iv_key i = cl_invite c" "iv_status i = ClaimPending"
    "host_active d (cl_tenant_id c) (cl_host_id c)" "tenant_enabled d (cl_tenant_id c)"
    "e = iv_expires_at i" "cl_expires_at c = e" "cl_status c = ClaimPending"
    "cl_claim_id c = ph_ClaimID (sr_Header r)" "cl_device_id c = ph_DeviceID (sr_Header r)"
    "cl_tenant_id c = ph_TenantID (sr_Header r)" "cl_host_id c = ph_HostID (sr_Header r)"
    "cl_invite_id c = ph_InviteID (sr_Header r)" "cl_header_json c = marshal_header (sr_Header r)"
    "cl_access_token_hash c = hash" "cl_updated_at c = t"
    "cl_approval_header c = None" "cl_approval_nonce c = None" "cl_approval_ciphertext c = None"
    "insert_claim c (expire t d) = Some ((), d')"
proof -
  let ?h = "sr_Header r"
  from assms obtain i where i: "find (\<lambda>i. iv_tenant_id i = ph_TenantID ?h \<and> iv_host_id i = ph_HostID ?h \<and>
           iv_invite_id i = ph_InviteID ?h \<and> host_active (expire t d) (iv_tenant_id i) (iv_host_id i) \<and>
           tenant_enabled (expire t d) (iv_tenant_id i)) (pairing_invites (expire t d)) = Some i"
    and p: "iv_status i = ClaimPending" "e = iv_expires_at i"
    and ins: "insert_claim \<lparr>cl_claim_id = ph_ClaimID ?h, cl_invite_id = ph_InviteID ?h,
            cl_tenant_id = ph_TenantID ?h, cl_host_id = ph_HostID ?h,
            cl_device_id = ph_DeviceID ?h, cl_header_json = marshal_header ?h,
            cl_nonce = sr_Nonce r, cl_ciphertext = sr_Ciphertext r,
            cl_access_token_hash = hash, cl_status = ClaimPending,
            cl_device_signing_public_key = None, cl_device_agreement_public_key = None,
            cl_device_key_version = None, cl_binding_version = None, cl_approval_header = None,
            cl_approval_nonce = None, cl_approval_ciphertext = None, cl_created_at = t,
            cl_updated_at = t, cl_expires_at = iv_expires_at i, cl_consumed_at = None\<rparr> (expire t d) = Some ((), d')"
    unfolding submit_body_def Let_def by (auto simp: tx_inv)
  from find_Some_in [OF i] show thesis
    by (intro that [OF _ _ _ p(1) _ _ p(2) _ _ _ _ _ _ _ _ _ _ _ _ _ ins])
      (auto simp: p iv_key_def cl_invite_def host_active_def tenant_enabled_def)
qed
lemma submit_body_pair:
  assumes "pairing_ok d" "submit_body flt t hash r d = (Inr e, d')"
  shows "pairing_ok d'"
  using assms(2)
proof (rule submit_body_ok)
  fix i c
  assume i: "i \<in> set (pairing_invites (expire t d))" "iv_key i = cl_invite c" "iv_status i = ClaimPending"
    and c: "cl_status c = ClaimPending" and ins: "insert_claim c (expire t d) = Some ((), d')"
  have e: "db_inv (expire t d)" "pairing_inv (expire t d)"
    using expire_pairing [OF assms(1)] by (auto simp: pairing_ok_def)
  have "iv_status j \<noteq> ClaimConsumed" if "j \<in> set (pairing_invites (expire t d))" "iv_key j = cl_invite c" for j
    using that i e(1) key_unique [of iv_key "pairing_invites (expire t d)" i j] by (auto simp: db_inv_defs)
  with c e(2) ins have "pairing_inv d'"
    unfolding pairing_inv_def insert_claim_def by (auto split: if_splits)
  with insert_claim_inv [OF ins e(1)] show ?thesis by (simp add: pairing_ok_def)
qed

lemma settle_pairing:
  assumes e: "db_inv e" "pairing_inv e"
    and c: "c \<in> set (pairing_claims e)" "cl_status c = ClaimPending" "cl_claim_id c = ar_ClaimID r"
      "cl_tenant_id c = ar_TenantID r" "cl_host_id c = ar_HostID r"
    and i: "i \<in> set (pairing_invites e)" "iv_key i = cl_invite c" "iv_status i = ClaimPending"
    and d': "pairing_claims d' = map (settled_row t r (cl_invite_id c)) (pairing_claims e)"
      "pairing_invites d' = map (consumed_row t r (cl_invite_id c)) (pairing_invites e)"
  shows "pairing_inv d'"
proof -
  let ?S = "settled_row t r (cl_invite_id c)" and ?C = "consumed_row t r (cl_invite_id c)"
  have ikey: "j = i" if "j \<in> set (pairing_invites e)" "iv_key j = cl_invite c" for j
    using that i e(1) key_unique [of iv_key "pairing_invites e" j i] by (auto simp: db_inv_defs)
  have ckey: "q = c" if "q \<in> set (pairing_claims e)" "cl_claim_id q = ar_ClaimID r" for q
    using that c e(1) key_unique [of cl_claim_id "pairing_claims e" q c] by (auto simp: db_inv_defs)
  have keyS: "cl_invite (?S q) = cl_invite q" and keyC: "iv_key (?C j) = iv_key j" for q j
    by (simp_all add: settled_row_def approved_row_def consumed_row_def cl_invite_def iv_key_def)
  have Ci: "iv_status (?C i) = ClaimConsumed"
    using i c(4,5) by (auto simp: consumed_row_def iv_key_def cl_invite_def)
  have Cj: "?C j = j" if "iv_status j = ClaimConsumed" for j
    using that by (auto simp: consumed_row_def)
  have Cnew: "j = i \<or> iv_status j = ClaimConsumed"
    if "j \<in> set (pairing_invites e)" "iv_status (?C j) = ClaimConsumed" for j
    using that ikey [of j] c(4,5) by (auto simp: consumed_row_def iv_key_def cl_invite_def split: if_splits)
  have Sapp: "q = c \<or> cl_status q = ClaimApproved \<and> ?S q = q"
    if "q \<in> set (pairing_claims e)" "cl_status (?S q) = ClaimApproved" for q
    using that ckey [of q] by (auto simp: settled_row_def approved_row_def split: if_splits)
  have Spend: "cl_status q = ClaimPending \<and> cl_invite q \<noteq> cl_invite c"
    if "q \<in> set (pairing_claims e)" "cl_status (?S q) = ClaimPending" for q
    using that c(4,5) by (auto simp: settled_row_def approved_row_def cl_invite_def split: if_splits)
  have old: "cl_invite q \<noteq> cl_invite c" if "q \<in> set (pairing_claims e)" "cl_status q = ClaimApproved" for q
  proof
    assume "cl_invite q = cl_invite c"
    with that e(2) obtain j where "j \<in> set (pairing_invites e)" "iv_key j = cl_invite c"
      "iv_status j = ClaimConsumed" unfolding pairing_inv_def by metis
    with ikey [of j] i(3) show False by simp
  qed
  have 1: "\<exists>j\<in>set (pairing_invites e). iv_key (?C j) = cl_invite (?S q) \<and> iv_status (?C j) = ClaimConsumed"
    if q: "q \<in> set (pairing_claims e)" "cl_status (?S q) = ClaimApproved" for q
  proof (cases "q = c")
    case True
    with i Ci keyS keyC show ?thesis by auto
  next
    case False
    with Sapp [OF q] e(2) q(1) obtain j where "j \<in> set (pairing_invites e)" "iv_key j = cl_invite q"
      "iv_status j = ClaimConsumed" unfolding pairing_inv_def by blast
    with keyS keyC Cj show ?thesis by (intro bexI [of _ j]) auto
  qed
  have 2: "?S q = ?S q'" if "q \<in> set (pairing_claims e)" "q' \<in> set (pairing_claims e)"
      "cl_status (?S q) = ClaimApproved" "cl_status (?S q') = ClaimApproved" "cl_invite (?S q) = cl_invite (?S q')" for q q'
    using that Sapp [of q] Sapp [of q'] old [of q] old [of q'] keyS e(2) unfolding pairing_inv_def by metis
  have 3: "iv_status (?C j) \<noteq> ClaimConsumed" if "q \<in> set (pairing_claims e)" "j \<in> set (pairing_invites e)"
      "cl_status (?S q) = ClaimPending" "iv_key (?C j) = cl_invite (?S q)" for q j
    using that Spend [of q] Cnew [of j] keyS keyC i(2) e(2) unfolding pairing_inv_def by metis
  show ?thesis using 1 2 3 unfolding pairing_inv_def d' by (auto simp: image_iff)
qed
lemma find_claimD:
  "find_claim t h cid d = Some c \<Longrightarrow>
   c \<in> set (pairing_claims d) \<and> cl_tenant_id c = t \<and> cl_host_id c = h \<and> cl_claim_id c = cid"
  by (auto simp: find_claim_def dest: find_Some_in)

lemma find_inviteD:
  "find_invite t h ivt d = Some i \<Longrightarrow>
   i \<in> set (pairing_invites d) \<and> iv_tenant_id i = t \<and> iv_host_id i = h \<and> iv_invite_id i = ivt"
  by (auto simp: find_invite_def dest: find_Some_in)

lemma ApproveClaim_pair: "pair.obeys (ApproveClaim cr now flt r)"
proof (unfold pair.obeys_def, intro allI impI)
  fix d res d'
  assume run: "ApproveClaim cr now flt r d = (res, d')" and ok: "pairing_ok d"
  have inv': "db_inv d'" using inv.obeysD [OF pairing_ops_inv(6) run] ok by (simp add: pairing_ok_def)
  show "pairing_ok d'"
  proof (cases res)
    case (Inl x)
    then have "d' = d" using run by (auto simp: ApproveClaim_def tx_inv tx_err dest: in_transaction_Inl)
    with ok show ?thesis by simp
  next
    case (Inr u)
    note e = expire_pairing [OF ok, of "UnixMilli now", unfolded pairing_ok_def]
    from run Inr have "ApproveClaim cr now flt r d = (Inr u, d')" by simp
    then show ?thesis
    proof (cases rule: ApproveClaim_ok)
      case (again c)
      with ok show ?thesis by (simp add: expire_pairing)
    next
      case (first c h i u1 u2 d1)
      note f = find_claimD [OF first(2)] and g = find_inviteD [OF first(7)]
        and b = bind_device_ok [OF first(9)] and s = settle_claim_ok [OF first(10)]
      have "pairing_inv d'"
        by (rule settle_pairing [of "expire (UnixMilli now) d" c r i _ "UnixMilli now"])
          (use e f g b s first(3,8) in \<open>simp_all add: iv_key_def cl_invite_def\<close>)
      with inv' show ?thesis by (simp add: pairing_ok_def)
    qed
  qed
qed

lemma SubmitClaim_pair: "pair.obeys (SubmitClaim cr rnd now flt r)"
proof (unfold pair.obeys_def, intro allI impI)
  fix d res d'
  assume run: "SubmitClaim cr rnd now flt r d = (res, d')" and ok: "pairing_ok d"
  show "pairing_ok d'"
  proof (cases res)
    case (Inl x)
    then have "d' = d"
      using run by (auto simp: SubmitClaim_def tx_inv tx_err dest: in_transaction_Inl)
    with ok show ?thesis by simp
  next
    case (Inr cc)
    with run obtain tok e where "submit_body flt (UnixMilli now) (sha256 cr tok) r d = (Inr e, d')"
      by (auto simp: SubmitClaim_def tx_inv)
    with submit_body_pair [OF ok] show ?thesis by blast
  qed
qed

lemmas pairing_ops_pair = simple_ops_pair SubmitClaim_pair ApproveClaim_pair

section \<open>Looking rows up after an update\<close>

lemma find_map_stable: "(\<And>x. P (f x) = P x) \<Longrightarrow> find P (map f t) = map_option f (find P t)"
  by (induction t) auto

definition expire_claim :: "int \<Rightarrow> claim_row \<Rightarrow> claim_row" where
  "expire_claim now c = (if cl_status c = ClaimPending \<and> cl_expires_at c \<le> now
     then c\<lparr>cl_status := ClaimExpired, cl_updated_at := now\<rparr> else c)"

definition expire_invite :: "int \<Rightarrow> invite_row \<Rightarrow> invite_row" where
  "expire_invite now i = (if iv_status i = ClaimPending \<and> iv_expires_at i \<le> now
     then i\<lparr>iv_status := ClaimExpired, iv_consumed_at := Some now\<rparr> else i)"

lemma expire_rows:
  "pairing_claims (expire now d) = map (expire_claim now) (pairing_claims d)"
  "pairing_invites (expire now d) = map (expire_invite now) (pairing_invites d)"
  by (simp_all add: expire_def update_where_def expire_claim_def expire_invite_def)

lemma expire_claim_keys [simp]:
  "cl_claim_id (expire_claim now c) = cl_claim_id c" "cl_tenant_id (expire_claim now c) = cl_tenant_id c"
  "cl_host_id (expire_claim now c) = cl_host_id c" "cl_invite_id (expire_claim now c) = cl_invite_id c"
  "cl_device_id (expire_claim now c) = cl_device_id c" "cl_header_json (expire_claim now c) = cl_header_json c"
  "cl_access_token_hash (expire_claim now c) = cl_access_token_hash c"
  "cl_approval_header (expire_claim now c) = cl_approval_header c"
  by (simp_all add: expire_claim_def)

lemma expire_invite_keys [simp]:
  "iv_tenant_id (expire_invite now i) = iv_tenant_id i" "iv_host_id (expire_invite now i) = iv_host_id i"
  "iv_invite_id (expire_invite now i) = iv_invite_id i" "iv_expires_at (expire_invite now i) = iv_expires_at i"
  by (simp_all add: expire_invite_def)

lemma find_claim_expire: "find_claim t h cid (expire now d) = map_option (expire_claim now) (find_claim t h cid d)"
  by (simp add: find_claim_def expire_rows find_map_stable)

lemma find_invite_expire: "find_invite t h i (expire now d) = map_option (expire_invite now) (find_invite t h i d)"
  by (simp add: find_invite_def expire_rows find_map_stable)

lemma settled_row_keys [simp]:
  "cl_claim_id (settled_row t r ivt c) = cl_claim_id c" "cl_tenant_id (settled_row t r ivt c) = cl_tenant_id c"
  "cl_host_id (settled_row t r ivt c) = cl_host_id c" "cl_invite_id (settled_row t r ivt c) = cl_invite_id c"
  by (simp_all add: settled_row_def approved_row_def)

lemma consumed_row_keys [simp]:
  "iv_tenant_id (consumed_row t r ivt i) = iv_tenant_id i" "iv_host_id (consumed_row t r ivt i) = iv_host_id i"
  "iv_invite_id (consumed_row t r ivt i) = iv_invite_id i"
  by (simp_all add: consumed_row_def)

lemma expire_settled: "cl_status c \<noteq> ClaimPending \<Longrightarrow> expire_claim now c = c"
  by (simp add: expire_claim_def)

lemma approvalMatches_refl: "approvalMatches cr r (approved_row t r c)"
  by (simp add: approvalMatches_def approved_row_def secureEqual_def)

text \<open>Two requests match one approved claim only when they agree in all seven fields.\<close>

lemma approvalMatches_same:
  assumes "approvalMatches cr r c"
  shows "approvalMatches cr r' c \<longleftrightarrow>
    sha256 cr (ar_DeviceSigningPublicKey r') = sha256 cr (ar_DeviceSigningPublicKey r) \<and>
    sha256 cr (ar_DeviceAgreementPublicKey r') = sha256 cr (ar_DeviceAgreementPublicKey r) \<and>
    ar_DeviceKeyVersion r' = ar_DeviceKeyVersion r \<and> ar_BindingVersion r' = ar_BindingVersion r \<and>
    sha256 cr (ar_ApprovalHeader r') = sha256 cr (ar_ApprovalHeader r) \<and>
    sha256 cr (ar_ApprovalNonce r') = sha256 cr (ar_ApprovalNonce r) \<and>
    sha256 cr (ar_ApprovalCiphertext r') = sha256 cr (ar_ApprovalCiphertext r)"
  using assms unfolding approvalMatches_def secureEqual_def by (auto split: option.splits)

text \<open>After an approval, whichever way it went, the claim is approved with what was requested.\<close>

lemma ApproveClaim_approved:
  assumes "ApproveClaim cr now flt r d = (Inr u, d')"
  shows "\<exists>c. find_claim (ar_TenantID r) (ar_HostID r) (ar_ClaimID r) d' = Some c \<and>
    cl_status c = ClaimApproved \<and> approvalMatches cr r c"
  using assms
proof (cases rule: ApproveClaim_ok)
  case (again c)
  then show ?thesis by auto
next
  case (first c h i u1 u2 d1)
  have "find_claim (ar_TenantID r) (ar_HostID r) (ar_ClaimID r) d' =
     Some (settled_row (UnixMilli now) r (cl_invite_id c) c)"
    using first(2) bind_device_ok(1) [OF first(9)] settle_claim_ok(1) [OF first(10)]
    by (simp add: find_claim_def find_map_stable)
  moreover have "settled_row (UnixMilli now) r (cl_invite_id c) c = approved_row (UnixMilli now) r c"
    using find_claimD [OF first(2)] first(3) by (simp add: settled_row_def)
  ultimately show ?thesis using approvalMatches_refl by (auto simp: approved_row_def)
qed

text \<open>
  C17: Approving is idempotent. Once a claim was approved, another valid request for it at any later
  time succeeds exactly when it repeats the first in both device keys, the key version, the binding
  version and the approval header, nonce and ciphertext (the texts by the digests the code compares);
  it then does nothing but let overdue claims and invites expire. Any other request is refused with
  \<open>approval_conflict\<close> and changes nothing.
\<close>

theorem ApproveClaim_idempotent:
  assumes "ApproveClaim cr now flt r d = (Inr u, d')"
  shows "ApproveClaim cr now2 no_faults r d' = (Inr (), expire (UnixMilli now2) d') \<and>
    (\<forall>r'. validateApproval r' = Inr () \<longrightarrow> ar_TenantID r' = ar_TenantID r \<longrightarrow> ar_HostID r' = ar_HostID r \<longrightarrow>
      ar_ClaimID r' = ar_ClaimID r \<longrightarrow>
      ApproveClaim cr now2 no_faults r' d' =
        (if sha256 cr (ar_DeviceSigningPublicKey r') = sha256 cr (ar_DeviceSigningPublicKey r) \<and>
            sha256 cr (ar_DeviceAgreementPublicKey r') = sha256 cr (ar_DeviceAgreementPublicKey r) \<and>
            ar_DeviceKeyVersion r' = ar_DeviceKeyVersion r \<and> ar_BindingVersion r' = ar_BindingVersion r \<and>
            sha256 cr (ar_ApprovalHeader r') = sha256 cr (ar_ApprovalHeader r) \<and>
            sha256 cr (ar_ApprovalNonce r') = sha256 cr (ar_ApprovalNonce r) \<and>
            sha256 cr (ar_ApprovalCiphertext r') = sha256 cr (ar_ApprovalCiphertext r)
         then (Inr (), expire (UnixMilli now2) d') else (Inl ''approval_conflict'', d')))"
proof -
  let ?t = "UnixMilli now2"
  obtain c where c: "find_claim (ar_TenantID r) (ar_HostID r) (ar_ClaimID r) d' = Some c"
    "cl_status c = ClaimApproved" "approvalMatches cr r c"
    using ApproveClaim_approved [OF assms] by blast
  have v: "validateApproval r = Inr ()" using assms by (auto simp: ApproveClaim_def tx_inv)
  have run: "ApproveClaim cr now2 no_faults r' d' =
      (if approvalMatches cr r' c then (Inr (), expire ?t d') else (Inl ''approval_conflict'', d'))"
    if "validateApproval r' = Inr ()" "ar_TenantID r' = ar_TenantID r" "ar_HostID r' = ar_HostID r"
      "ar_ClaimID r' = ar_ClaimID r" for r'
  proof -
    note trim = validateApproval_ok(1-3) [OF that(1), THEN validIdentifier_trim]
    have "find_claim (ar_TenantID r) (ar_HostID r) (ar_ClaimID r) (expire ?t d') = Some c"
      using c by (simp add: find_claim_expire expire_settled)
    then have "approve_body cr no_faults ?t r' d' =
        (if approvalMatches cr r' c then (Inr (), expire ?t d') else (Inl ''approval_conflict'', expire ?t d'))"
      using c(2) unfolding approve_body_def trim find_claim_def
      by (simp add: that(2-4) tx_bind_run expire_run tx_run)
    then show ?thesis
      unfolding ApproveClaim_def by (simp add: tx_bind_run tx_run that(1) in_transaction_def)
  qed
  with v c(3) approvalMatches_same [OF c(3)] show ?thesis by simp
qed

text \<open>
  C16: What a first approval does. When a pending claim is approved, the claim's own header named the
  approved agreement key and key version; afterwards the device of the claim is bound, unrevoked,
  with the approved keys, key version and binding version; the claim is approved, its invite is
  consumed, and no claim for that invite is left pending.
\<close>

theorem ApproveClaim_binds:
  assumes "pairing_ok d" "ApproveClaim cr now flt r d = (Inr u, d')"
    and "find_claim (ar_TenantID r) (ar_HostID r) (ar_ClaimID r) d = Some c" "cl_status c = ClaimPending"
  shows "(\<exists>h. unmarshal_header (cl_header_json c) = Some h \<and>
        ph_DeviceAgreementPublicKey h = ar_DeviceAgreementPublicKey r \<and>
        ph_DeviceKeyVersion h = ar_DeviceKeyVersion r) \<and>
    (\<exists>v\<in>set (devices d'). dv_key v = (ar_TenantID r, ar_HostID r, cl_device_id c) \<and> dv_revoked v = 0 \<and>
        dv_signing_public_key v = ar_DeviceSigningPublicKey r \<and>
        dv_agreement_public_key v = ar_DeviceAgreementPublicKey r \<and>
        dv_key_version v = ar_DeviceKeyVersion r \<and> dv_binding_version v = ar_BindingVersion r) \<and>
    (\<exists>c'. find_claim (ar_TenantID r) (ar_HostID r) (ar_ClaimID r) d' = Some c' \<and> cl_status c' = ClaimApproved) \<and>
    (\<exists>i. find_invite (ar_TenantID r) (ar_HostID r) (cl_invite_id c) d' = Some i \<and> iv_status i = ClaimConsumed) \<and>
    (\<forall>q\<in>set (pairing_claims d'). cl_invite q = cl_invite c \<longrightarrow> cl_status q \<noteq> ClaimPending)"
  using assms(2)
proof (cases rule: ApproveClaim_ok)
  case (again q)
  then show ?thesis using assms(3,4) by (auto simp: find_claim_expire expire_claim_def split: if_splits)
next
  case (first q h i u1 u2 d1)
  have q: "q = c" using first(2,3) assms(3,4) by (auto simp: find_claim_expire expire_claim_def split: if_splits)
  note c = find_claimD [OF assms(3)] and b = bind_device_ok [OF first(9)] and s = settle_claim_ok [OF first(10)]
  have i: "find_invite (ar_TenantID r) (ar_HostID r) (cl_invite_id c) d' = Some (consumed_row (UnixMilli now) r (cl_invite_id c) i)"
    using first(7) by (simp add: find_invite_def s(2) b(2) q find_map_stable)
  have "iv_status (consumed_row (UnixMilli now) r (cl_invite_id c) i) = ClaimConsumed"
    using first(8) find_inviteD [OF first(7)] by (simp add: consumed_row_def q)
  moreover have "cl_status q' \<noteq> ClaimPending" if "q' \<in> set (pairing_claims d')" "cl_invite q' = cl_invite c" for q'
    using that c by (auto simp: s(1) q settled_row_def approved_row_def cl_invite_def split: if_splits)
  ultimately show ?thesis
    using first(4-6) b(5) s(3) q i ApproveClaim_approved [OF assms(2)] by auto
qed

section \<open>The stored header reads back\<close>

definition header_storable :: "pairing_claim_header \<Rightarrow> bool" where
  "header_storable h \<longleftrightarrow> utf8_valid (ph_InviteID h) \<and> utf8_valid (ph_TenantID h) \<and>
     utf8_valid (ph_HostID h) \<and> utf8_valid (ph_ClaimID h) \<and> utf8_valid (ph_DeviceID h) \<and>
     utf8_valid (ph_DeviceAgreementPublicKey h) \<and> utf8_valid (ph_ClientNonce h) \<and>
     0 \<le> ph_DeviceKeyVersion h \<and> int64_range (ph_DeviceKeyVersion h) \<and>
     0 \<le> ph_CiphertextLength h \<and> int64_range (ph_CiphertextLength h)"

lemma store_string_quote:
  assumes "utf8_valid s"
  shows "store_string upd (json_quote s) h = Some (upd s h)"
  using unquote_quote_body [OF assms] by (simp add: store_string_def json_quote_def)

lemma store_int_Itoa:
  assumes "0 \<le> n" "int64_range n"
  shows "store_int upd (Itoa n) h = Some (upd n h)"
proof -
  obtain x ds where d: "decimal n = x # ds" using decimal_nonempty by (cases "decimal n") blast+
  have dig: "is_digit x" "list_all is_digit (x # ds)"
    using decimal_digits [OF assms(1)] d by (auto simp: list_all_iff)
  have "x \<noteq> CHR ''-''" "x \<noteq> CHR ''+''" "x \<noteq> CHR ''n''" using dig(1) by (auto simp: is_digit_def)
  moreover have "digits_value (x # ds) = n" using digits_value_decimal [OF assms(1)] d by simp
  ultimately have "ParseInt64 (x # ds) = Some n"
    using dig(2) assms(2) by (simp add: ParseInt64_def)
  with d dig(1) \<open>x \<noteq> CHR ''n''\<close> assms(1) show ?thesis by (simp add: store_int_def Itoa_def)
qed

lemma header_members_text:
  assumes "header_storable h"
  shows "\<forall>m\<in>set (header_members h). utf8_valid (fst m) \<and> value_text (snd m)"
proof -
  have "value_text (Itoa (ph_DeviceKeyVersion h))" "value_text (Itoa (ph_CiphertextLength h))"
    using assms value_text_decimal by (auto simp: header_storable_def Itoa_def)
  moreover have "list_all (\<lambda>m. list_all (byte_in 0x00 0x7F) (fst m)) (header_members h)"
    by (simp add: header_members_def byte_in_def)
  ultimately show ?thesis
    using value_text_quote ascii_valid by (auto simp: header_members_def)
qed

lemma header_names:
  "fold_name ''inviteId'' = ''inviteid''" "fold_name ''tenantId'' = ''tenantid''"
  "fold_name ''hostId'' = ''hostid''" "fold_name ''claimId'' = ''claimid''"
  "fold_name ''deviceId'' = ''deviceid''"
  "fold_name ''deviceAgreementPublicKey'' = ''deviceagreementpublickey''"
  "fold_name ''deviceKeyVersion'' = ''devicekeyversion''" "fold_name ''clientNonce'' = ''clientnonce''"
  "fold_name ''ciphertextLength'' = ''ciphertextlength''"
  by code_simp+

lemma store_header_members:
  assumes "header_storable h"
  shows "store_members (header_members h) zero_header = Some h"
  using assms unfolding header_members_def header_storable_def
  by (simp del: fold_name.simps add: store_member_def header_names Let_def store_string_quote store_int_Itoa zero_header_def)

text \<open>
  A claim header survives storage: for texts in UTF-8 and numbers in range, parsing the JSON the
  relay stores gives the header back, field by field.
\<close>

lemma unmarshal_marshal_header:
  assumes "header_storable h"
  shows "unmarshal_header (marshal_header h) = Some h"
proof -
  have "json_members True (print_members (header_members h) @ CHR ''}'' # []) = Some (header_members h, [])"
    using header_members_text [OF assms] by (rule json_members_print)
  then show ?thesis
    using store_header_members [OF assms]
    by (simp add: unmarshal_header_def marshal_header_def skip_space_def json_space_def)
qed

lemma unmarshal_header_stored: "header_storable h \<Longrightarrow> unmarshal_header (marshal_header h) = Some h"
  using header_members_text json_members_print [of "header_members h" "[]"] store_header_members
  by (simp add: unmarshal_header_def marshal_header_def skip_space_def json_space_def)

section \<open>Tokens, cancellation, revocation\<close>

lemma decodeExact_ok: "decodeExact v n = Inr bs \<longleftrightarrow> auth_decodeExact v n = Inr bs"
  by (auto simp: decodeExact_def decodeStrict_def auth_decodeExact_def split: option.splits if_splits)

lemma hashAccessToken_ok:
  "hashAccessToken cr v = Inr h \<longleftrightarrow>
   (\<exists>bs. auth_decodeExact v claimAccessTokenBytes = Inr bs \<and> h = sha256 cr bs)"
proof (cases "decodeExact v claimAccessTokenBytes")
  case (Inl e)
  then have "auth_decodeExact v claimAccessTokenBytes \<noteq> Inr bs" for bs
    by (metis decodeExact_ok sum.distinct(1))
  with Inl show ?thesis by (simp add: hashAccessToken_def)
next
  case (Inr bs)
  then have "auth_decodeExact v claimAccessTokenBytes = Inr bs" by (simp add: decodeExact_ok)
  with Inr show ?thesis by (auto simp: hashAccessToken_def)
qed

lemma SubmitClaim_ok:
  assumes "SubmitClaim cr rnd now flt r d = (Inr cc, d')"
  obtains tok where "validateClaimSubmission r = Inr ()" "rnd claimAccessTokenBytes = Some tok"
    "cc_ClaimID cc = ph_ClaimID (sr_Header r)" "cc_ClaimAccessToken cc = EncodeToString tok"
    "submit_body flt (UnixMilli now) (sha256 cr tok) r d = (Inr (cc_ExpiresAt cc), d')"
  using assms by (auto simp: SubmitClaim_def tx_inv)

lemma submitted_claim:
  assumes "submit_body flt t hash r d = (Inr e, d')"
  shows "\<exists>c. c \<in> set (pairing_claims d') \<and> cl_claim_id c = ph_ClaimID (sr_Header r) \<and>
    cl_status c = ClaimPending \<and> cl_expires_at c = e \<and> cl_access_token_hash c = hash \<and>
    cl_tenant_id c = ph_TenantID (sr_Header r) \<and> cl_host_id c = ph_HostID (sr_Header r) \<and>
    cl_invite_id c = ph_InviteID (sr_Header r) \<and> cl_device_id c = ph_DeviceID (sr_Header r) \<and>
    cl_header_json c = marshal_header (sr_Header r)"
  using assms
proof (rule submit_body_ok)
  fix i c
  assume "insert_claim c (expire t d) = Some ((), d')"
  then have "c \<in> set (pairing_claims d')" by (auto simp: insert_claim_def split: if_splits)
  moreover assume "cl_claim_id c = ph_ClaimID (sr_Header r)" "cl_status c = ClaimPending" "cl_expires_at c = e"
    "cl_access_token_hash c = hash" "cl_tenant_id c = ph_TenantID (sr_Header r)"
    "cl_host_id c = ph_HostID (sr_Header r)" "cl_invite_id c = ph_InviteID (sr_Header r)"
    "cl_device_id c = ph_DeviceID (sr_Header r)" "cl_header_json c = marshal_header (sr_Header r)"
  ultimately show ?thesis by blast
qed

definition claim_view :: "claim_row \<Rightarrow> claim_status_view" where
  "claim_view c = \<lparr>cv_ClaimID = cl_claim_id c, cv_Status = cl_status c, cv_UpdatedAt = cl_updated_at c,
     cv_ApprovalHeader = null_string (cl_approval_header c), cv_ApprovalNonce = null_string (cl_approval_nonce c),
     cv_ApprovalCiphertext = null_string (cl_approval_ciphertext c)\<rparr>"

text \<open>Asking for a stored claim: the token's digest decides.\<close>

lemma GetClaimWithToken_run:
  assumes "db_inv d" "c \<in> set (pairing_claims d)" "cl_claim_id c = TrimSpace cid"
  shows "GetClaimWithToken cr now no_faults cid tk d =
    (case hashAccessToken cr tk of Inl e \<Rightarrow> (Inl e, d)
     | Inr h \<Rightarrow> if h = cl_access_token_hash c
         then (Inr (claim_view (expire_claim (UnixMilli now) c)), expire (UnixMilli now) d)
         else (Inl ''unauthorized'', d))"
proof -
  have k: "distinct (map cl_claim_id (pairing_claims d))" using assms(1) by (simp add: db_inv_defs)
  have "find (\<lambda>q. cl_claim_id q = TrimSpace cid \<and> cl_access_token_hash q = h) (pairing_claims d) =
      (if h = cl_access_token_hash c then Some c else None)" for h
  proof (cases "h = cl_access_token_hash c")
    case True
    then have "find (\<lambda>q. cl_claim_id q = TrimSpace cid \<and> cl_access_token_hash q = h) (pairing_claims d) = Some c"
      by (intro find_key [OF k assms(2,3)]) (simp_all add: assms(3))
    with True show ?thesis by simp
  next
    case False
    have "\<not> (cl_claim_id q = TrimSpace cid \<and> cl_access_token_hash q = h)" if "q \<in> set (pairing_claims d)" for q
      using key_unique [OF k assms(2) that] assms(3) False by auto
    with False show ?thesis by (simp add: find_None_out)
  qed
  then have "find (\<lambda>q. cl_claim_id q = TrimSpace cid \<and> cl_access_token_hash q = h) (pairing_claims (expire t d)) =
      (if h = cl_access_token_hash c then Some (expire_claim t c) else None)" for h t
    by (simp add: expire_rows find_map_stable)
  then show ?thesis
    unfolding GetClaimWithToken_def
    by (simp add: tx_bind_run tx_run in_transaction_def expire_run claim_view_def split: sum.splits)
qed

lemma submitted_token:
  assumes "pairing_ok d" "SubmitClaim cr rnd now flt r d = (Inr cc, d')" "rand_fills rnd"
  obtains tok c where "auth_decodeExact (cc_ClaimAccessToken cc) 32 = Inr tok"
    "hashAccessToken cr (cc_ClaimAccessToken cc) = Inr (cl_access_token_hash c)"
    "cl_access_token_hash c = sha256 cr tok" "TrimSpace (cc_ClaimID cc) = cc_ClaimID cc"
    "c \<in> set (pairing_claims d')" "cl_claim_id c = cc_ClaimID cc" "cl_status c = ClaimPending"
    "cl_expires_at c = cc_ExpiresAt cc" "cl_tenant_id c = ph_TenantID (sr_Header r)"
    "cl_host_id c = ph_HostID (sr_Header r)" "cl_invite_id c = ph_InviteID (sr_Header r)"
    "cl_device_id c = ph_DeviceID (sr_Header r)" "cl_header_json c = marshal_header (sr_Header r)"
  using assms(2)
proof (rule SubmitClaim_ok)
  fix tok
  assume v: "validateClaimSubmission r = Inr ()" and tok: "rnd claimAccessTokenBytes = Some tok"
    and cc: "cc_ClaimID cc = ph_ClaimID (sr_Header r)" "cc_ClaimAccessToken cc = EncodeToString tok"
    and body: "submit_body flt (UnixMilli now) (sha256 cr tok) r d = (Inr (cc_ExpiresAt cc), d')"
  have len: "length tok = 32" using tok assms(3) by (auto simp: rand_fills_def claimAccessTokenBytes_def)
  then have dec: "auth_decodeExact (EncodeToString tok) claimAccessTokenBytes = Inr tok"
    by (auto simp: claimAccessTokenBytes_def)
  have "TrimSpace (ph_ClaimID (sr_Header r)) = ph_ClaimID (sr_Header r)"
    using v by (auto simp: validateClaimSubmission_def Let_def validIdentifier_trim split: if_splits)
  moreover have "hashAccessToken cr (EncodeToString tok) = Inr (sha256 cr tok)"
    using dec by (simp add: hashAccessToken_ok)
  ultimately show thesis
    using submitted_claim [OF body] that [of tok] dec unfolding cc claimAccessTokenBytes_def by auto
qed

text \<open>
  The access token opens the claim it was issued for. After a submission, asking for the claim
  with the returned token gives its identifier and its status, pending until the invite's expiry and
  expired from then on; any other token is refused unless its digest is the same.
\<close>

lemma SubmitClaim_token:
  assumes "pairing_ok d" "SubmitClaim cr rnd now flt r d = (Inr cc, d')" "rand_fills rnd"
  shows "(\<exists>view d2. GetClaimWithToken cr now2 no_faults (cc_ClaimID cc) (cc_ClaimAccessToken cc) d' = (Inr view, d2) \<and>
      cv_ClaimID view = cc_ClaimID cc \<and>
      cv_Status view = (if cc_ExpiresAt cc \<le> UnixMilli now2 then ClaimExpired else ClaimPending)) \<and>
    (\<forall>other view d2. GetClaimWithToken cr now2 no_faults (cc_ClaimID cc) other d' = (Inr view, d2) \<longrightarrow>
      (\<exists>a b. auth_decodeExact other 32 = Inr a \<and> auth_decodeExact (cc_ClaimAccessToken cc) 32 = Inr b \<and>
        sha256 cr a = sha256 cr b))"
  using assms
proof (rule submitted_token)
  fix tok c
  let ?t2 = "UnixMilli now2"
  assume dec: "auth_decodeExact (cc_ClaimAccessToken cc) 32 = Inr tok"
    and h: "hashAccessToken cr (cc_ClaimAccessToken cc) = Inr (cl_access_token_hash c)"
      "cl_access_token_hash c = sha256 cr tok"
    and trim: "TrimSpace (cc_ClaimID cc) = cc_ClaimID cc"
    and c: "c \<in> set (pairing_claims d')" "cl_claim_id c = cc_ClaimID cc" "cl_status c = ClaimPending"
      "cl_expires_at c = cc_ExpiresAt cc"
  have "db_inv d'" using pair.obeysD [OF SubmitClaim_pair assms(2)] assms(1) by (simp add: pairing_ok_def)
  note run = GetClaimWithToken_run [OF this c(1), of "cc_ClaimID cc" cr now2, unfolded trim, OF c(2)]
  have "\<exists>a b. auth_decodeExact other 32 = Inr a \<and>
      auth_decodeExact (cc_ClaimAccessToken cc) 32 = Inr b \<and> sha256 cr a = sha256 cr b"
    if "GetClaimWithToken cr now2 no_faults (cc_ClaimID cc) other d' = (Inr view, d2)" for other view d2
    using that [unfolded run] dec h(2)
    by (auto simp: hashAccessToken_ok claimAccessTokenBytes_def split: sum.splits if_splits)
  moreover have "GetClaimWithToken cr now2 no_faults (cc_ClaimID cc) (cc_ClaimAccessToken cc) d' =
      (Inr (claim_view (expire_claim ?t2 c)), expire ?t2 d')"
    using run h(1) by simp
  ultimately show ?thesis using c by (auto simp: claim_view_def expire_claim_def)
qed

text \<open>
  Cancelling an invite by its exact identifiers cancels it and leaves none of its claims pending.
\<close>

lemma CancelInvite_settles:
  assumes "CancelInvite now flt t h i d = (Inr u, d')" "TrimSpace t = t" "TrimSpace h = h" "TrimSpace i = i"
    and "db_inv d"
  shows "(\<exists>r. find_invite t h i d' = Some r \<and> iv_status r = ClaimCancelled) \<and>
    (\<forall>c\<in>set (pairing_claims d'). cl_invite c = (t, h, i) \<longrightarrow> cl_status c \<noteq> ClaimPending)"
proof -
  let ?P = "\<lambda>r. iv_tenant_id r = t \<and> iv_host_id r = h \<and> iv_invite_id r = i \<and> iv_status r = ClaimPending"
  let ?f = "\<lambda>r. r\<lparr>iv_status := ClaimCancelled, iv_consumed_at := Some (UnixMilli now)\<rparr>"
  let ?Q = "\<lambda>c. cl_tenant_id c = t \<and> cl_host_id c = h \<and> cl_invite_id c = i \<and> cl_status c = ClaimPending"
  let ?g = "\<lambda>c. c\<lparr>cl_status := ClaimCancelled, cl_updated_at := UnixMilli now\<rparr>"
  let ?e = "expire (UnixMilli now) d"
  have one: "affected ?P (pairing_invites ?e) = 1"
    and d': "pairing_invites d' = update_where ?P ?f (pairing_invites ?e)"
      "pairing_claims d' = update_where ?Q ?g (pairing_claims ?e)"
    using assms(1) unfolding CancelInvite_def Let_def assms(2-4) by (auto simp: tx_inv)
  from affected_update_in [OF one, of ?f] obtain r where r: "?P r" "?f r \<in> set (pairing_invites d')"
    by (auto simp: d')
  have "db_inv d'" using inv.obeysD [OF pairing_ops_inv(9) assms(1)] assms(5) by blast
  then have "find_invite t h i d' = Some (?f r)"
    unfolding find_invite_def using r
    by (intro find_key [where k = iv_key and x = "(t, h, i)"]) (auto simp: db_inv_defs iv_key_def)
  moreover have "cl_status c \<noteq> ClaimPending" if "c \<in> set (pairing_claims d')" "cl_invite c = (t, h, i)" for c
    using that(1) unfolding d'(2) by (cases rule: update_whereE) (use that(2) in \<open>auto simp: cl_invite_def\<close>)
  ultimately show ?thesis by auto
qed

text \<open>
  C39: Cancelling with blanks around the invite identifier cancels the invite but not its claims: the
  first statement of \<open>CancelInvite\<close> trims the identifier, the second compares with the untrimmed
  one, so a pending claim stays pending although its invite is cancelled.
\<close>

theorem CancelInvite_padded:
  assumes "db_inv d" "find_invite t h (TrimSpace i) d = Some r" "iv_status r = ClaimPending"
    and "UnixMilli now < iv_expires_at r" "TrimSpace t = t" "TrimSpace h = h" "TrimSpace i \<noteq> i"
    and "c \<in> set (pairing_claims d)" "cl_invite c = (t, h, TrimSpace i)" "cl_status c = ClaimPending"
      "UnixMilli now < cl_expires_at c"
  shows "\<exists>d'. CancelInvite now no_faults t h i d = (Inr (), d') \<and> c \<in> set (pairing_claims d') \<and>
    (\<exists>r'. find_invite t h (TrimSpace i) d' = Some r' \<and> iv_status r' = ClaimCancelled)"
proof -
  let ?t = "UnixMilli now"
  let ?e = "expire ?t d"
  let ?P = "\<lambda>q. iv_tenant_id q = t \<and> iv_host_id q = h \<and> iv_invite_id q = TrimSpace i \<and> iv_status q = ClaimPending"
  let ?f = "\<lambda>q. q\<lparr>iv_status := ClaimCancelled, iv_consumed_at := Some ?t\<rparr>"
  let ?Q = "\<lambda>q. cl_tenant_id q = t \<and> cl_host_id q = h \<and> cl_invite_id q = i \<and> cl_status q = ClaimPending"
  let ?g = "\<lambda>q. q\<lparr>cl_status := ClaimCancelled, cl_updated_at := ?t\<rparr>"
  define d' where "d' = ?e\<lparr>pairing_invites := update_where ?P ?f (pairing_invites ?e),
     pairing_claims := update_where ?Q ?g (pairing_claims ?e)\<rparr>"
  have r: "r \<in> set (pairing_invites ?e)" "?P r"
    using find_inviteD [OF assms(2)] assms(3,4) by (auto simp: expire_rows expire_invite_def image_iff)
  have "affected ?P (pairing_invites ?e) = 1"
    using r expire_inv [OF assms(1)]
    by (subst affected_key_eq_1 [where k = iv_key and x = "(t, h, TrimSpace i)"]) (auto simp: db_inv_defs iv_key_def)
  then have run: "CancelInvite now no_faults t h i d = (Inr (), d')"
    unfolding CancelInvite_def Let_def assms(5,6) d'_def
    by (simp add: tx_bind_run tx_run in_transaction_def expire_run table_update_defs)
  have "c \<in> set (pairing_claims ?e)"
    using assms(8,10,11) by (force simp: expire_rows expire_claim_def image_iff)
  moreover have "\<not> ?Q c" using assms(7,9) by (auto simp: cl_invite_def)
  ultimately have "c \<in> set (pairing_claims d')" by (force simp: d'_def table_simps)
  moreover have "\<exists>r'. find_invite t h (TrimSpace i) d' = Some r' \<and> iv_status r' = ClaimCancelled"
  proof -
    have "db_inv d'" using inv.obeysD [OF pairing_ops_inv(9) run] assms(1) by blast
    moreover have "?f r \<in> set (pairing_invites d')" using r by (force simp: d'_def table_simps)
    ultimately have "find_invite t h (TrimSpace i) d' = Some (?f r)"
      unfolding find_invite_def using r(2)
      by (intro find_key [where k = iv_key and x = "(t, h, TrimSpace i)"]) (auto simp: db_inv_defs iv_key_def)
    then show ?thesis by simp
  qed
  ultimately show ?thesis using run by blast
qed

section \<open>Revocation and failure\<close>

text \<open>
  C18: Revoking a device takes effect at once: reading it reports the revocation, the list of the
  host's devices leaves it out, no challenge finds a key for it, and no ticket issued to it before is
  accepted any more.
\<close>

theorem RevokeDevice_effective:
  assumes "db_inv d" "RevokeDevice flt t h v d = (Inr u, d')"
  shows "GetDevice no_faults t h v d' = (Inl ''device_revoked'', d') \<and>
    (\<forall>ds. fst (ListDevices no_faults t h d') = Inr ds \<longrightarrow> v \<notin> de_DeviceID ` set ds) \<and>
    (\<forall>s. ts_SubjectType s = ''device'' \<longrightarrow> ts_TenantID s = t \<longrightarrow> ts_HostID s = h \<longrightarrow> ts_SubjectID s = v \<longrightarrow>
      subjectSigningKey no_faults s d' = (Inl ''subject_not_found'', d') \<and>
      (\<forall>cr svc now flt raw. \<exists>e. fst (ConsumeTicket cr svc now flt raw s d') = Inl e))"
proof -
  let ?P = "\<lambda>x. dv_tenant_id x = t \<and> dv_host_id x = h \<and> dv_device_id x = v"
  let ?Q = "\<lambda>x. dv_tenant_id x = t \<and> dv_host_id x = h \<and> dv_device_id x = v \<and> dv_revoked x = 0"
  have one: "affected ?Q (devices d) = 1"
    and d': "devices d' = update_where ?Q (\<lambda>x. x\<lparr>dv_revoked := 1\<rparr>) (devices d)"
    using assms(2) unfolding RevokeDevice_def by (auto simp: tx_inv)
  have rev: "dv_revoked x \<noteq> 0" if "x \<in> set (devices d')" "?P x" for x
    using that(1) unfolding d' by (cases rule: update_whereE) (use that(2) in auto)
  from affected_update_in [OF one, of "\<lambda>x. x\<lparr>dv_revoked := 1\<rparr>"] obtain x where
    x: "x \<in> set (devices d')" "?P x" unfolding d' by auto
  then obtain y where y: "find ?P (devices d') = Some y"
    using find_None_out [of ?P "devices d'"] by (cases "find ?P (devices d')") auto
  with rev find_Some_in [OF y] have "GetDevice no_faults t h v d' = (Inl ''device_revoked'', d')"
    by (simp add: GetDevice_def tx_simps scanDevice_def)
  moreover have "v \<notin> de_DeviceID ` set ds" if "fst (ListDevices no_faults t h d') = Inr ds" for ds
    using that rev by (auto simp: ListDevices_def tx_simps scanDevice_def)
  moreover have "subjectSigningKey no_faults s d' = (Inl ''subject_not_found'', d')"
    if "ts_SubjectType s = ''device''" "ts_TenantID s = t" "ts_HostID s = h" "ts_SubjectID s = v" for s
  proof -
    have "subject_key_column d' s = None"
      using that rev by (auto simp: subject_key_column_def find_None_out)
    with that show ?thesis by (simp add: subjectSigningKey_def tx_simps)
  qed
  moreover have "\<exists>e. fst (ConsumeTicket cr svc now flt raw s d') = Inl e"
    if "ts_SubjectType s = ''device''" "ts_TenantID s = t" "ts_HostID s = h" "ts_SubjectID s = v"
    for s cr svc now flt raw
  proof -
    have "\<not> ticket_matches d' s hash n r" for hash n r
      using that rev by (auto simp: ticket_matches_def subject_live_def list_ex_iff)
    then have "affected (ticket_matches d' s hash n) (auth_tickets d') = 0" for hash n
      by (simp add: affected_0_iff)
    then show ?thesis
      by (cases "ConsumeTicket cr svc now flt raw s d'"; cases "fst (ConsumeTicket cr svc now flt raw s d')")
         (auto simp: ConsumeTicket_ok)
  qed
  ultimately show ?thesis by blast
qed

text \<open>A revocation that fails: nothing was revoked, or the driver did not say what was.\<close>

lemma RevokeDevice_error:
  assumes "db_inv d" "RevokeDevice flt t h v d = (Inl x, d')"
  shows "d' = d \<or> \<not> flt 0 \<and> flt 1 \<and> x = ''internal_error'' \<and>
    d' = d\<lparr>devices := map (\<lambda>y. if dv_key y = (t, h, v) \<and> dv_revoked y = 0 then y\<lparr>dv_revoked := 1\<rparr> else y) (devices d)\<rparr>"
proof -
  let ?Q = "\<lambda>y. dv_tenant_id y = t \<and> dv_host_id y = h \<and> dv_device_id y = v \<and> dv_revoked y = 0"
  have "affected ?Q (devices d) \<le> 1"
    using assms(1) by (intro affected_key_le_1 [of dv_key _ _ "(t, h, v)"]) (auto simp: db_inv_defs dv_key_def)
  then have "affected ?Q (devices d) \<noteq> 1 \<Longrightarrow> affected ?Q (devices d) = 0" by linarith
  then have "update_where ?Q f (devices d) = devices d" if "affected ?Q (devices d) \<noteq> 1" for f
    using that update_where_none [of ?Q "devices d" f] unfolding affected_0_iff by blast
  moreover have "update_where ?Q f (devices d) = map (\<lambda>y. if dv_key y = (t, h, v) \<and> dv_revoked y = 0 then f y else y) (devices d)" for f
    by (auto simp: update_where_def dv_key_def)
  ultimately show ?thesis
    using assms(2) by (auto simp: RevokeDevice_def tx_simps update_devices_def split: if_splits)
qed

text \<open>
  C19: A pairing operation that reports an error has done nothing: every error path, a refusal or a
  fault of the database at any call, leaves the state as it was, the expiry of overdue claims included.
  The one exception is \<open>RevokeDevice\<close>, a single statement outside a transaction: when the driver then fails
  to report the number of rows, the error is \<open>internal_error\<close> and an unrevoked device of that name
  is revoked all the same.
\<close>

theorem pairing_errors_leave_no_trace:
  "(CreateInvite now flt t h i e d = (Inl x, d') \<longrightarrow> d' = d) \<and>
   (SubmitClaim cr rnd now flt sr d = (Inl x, d') \<longrightarrow> d' = d) \<and>
   (GetClaimWithToken cr now flt cid tok d = (Inl x, d') \<longrightarrow> d' = d) \<and>
   (ListPendingClaims now flt t h d = (Inl x, d') \<longrightarrow> d' = d) \<and>
   (ClaimDeviceID flt t h cid d = (Inl x, d') \<longrightarrow> d' = d) \<and>
   (ApproveClaim cr now flt ar d = (Inl x, d') \<longrightarrow> d' = d) \<and>
   (RejectClaim now flt t h cid d = (Inl x, d') \<longrightarrow> d' = d) \<and>
   (CancelClaim cr now flt cid tok d = (Inl x, d') \<longrightarrow> d' = d) \<and>
   (CancelInvite now flt t h i d = (Inl x, d') \<longrightarrow> d' = d) \<and>
   (GetDevice flt t h v d = (Inl x, d') \<longrightarrow> d' = d) \<and>
   (ListDevices flt t h d = (Inl x, d') \<longrightarrow> d' = d) \<and>
   (db_inv d \<longrightarrow> RevokeDevice flt t h v d = (Inl x, d') \<longrightarrow> d' = d \<or>
      \<not> flt 0 \<and> flt 1 \<and> x = ''internal_error'' \<and>
      d' = d\<lparr>devices := map (\<lambda>y. if dv_key y = (t, h, v) \<and> dv_revoked y = 0 then y\<lparr>dv_revoked := 1\<rparr> else y) (devices d)\<rparr>)"
proof (intro conjI impI)
  show "d' = d" if "CreateInvite now flt t h i e d = (Inl x, d')"
    using that unfolding CreateInvite_def Let_def by (auto simp: tx_inv tx_err)
  show "d' = d" if "SubmitClaim cr rnd now flt sr d = (Inl x, d')"
    using that unfolding SubmitClaim_def by (auto simp: tx_inv tx_err dest: in_transaction_Inl)
  show "d' = d" if "GetClaimWithToken cr now flt cid tok d = (Inl x, d')"
    using that unfolding GetClaimWithToken_def tx_bind_Inl tx_lift_Inr by (auto simp: tx_err dest: in_transaction_Inl)
  show "d' = d" if "ListPendingClaims now flt t h d = (Inl x, d')"
    using that unfolding ListPendingClaims_def by (rule in_transaction_Inl)
  show "d' = d" if "ClaimDeviceID flt t h cid d = (Inl x, d')"
    using that unfolding ClaimDeviceID_def by (auto simp: tx_inv tx_err)
  show "d' = d" if "ApproveClaim cr now flt ar d = (Inl x, d')"
    using that unfolding ApproveClaim_def tx_bind_Inl tx_lift_Inr by (auto simp: tx_err dest: in_transaction_Inl)
  show "d' = d" if "RejectClaim now flt t h cid d = (Inl x, d')"
    using that unfolding RejectClaim_def Let_def by (rule in_transaction_Inl)
  show "d' = d" if "CancelClaim cr now flt cid tok d = (Inl x, d')"
    using that unfolding CancelClaim_def Let_def tx_bind_Inl tx_lift_Inr by (auto simp: tx_err dest: in_transaction_Inl)
  show "d' = d" if "CancelInvite now flt t h i d = (Inl x, d')"
    using that unfolding CancelInvite_def Let_def by (rule in_transaction_Inl)
  show "d' = d" if "GetDevice flt t h v d = (Inl x, d')"
    using that unfolding GetDevice_def scanDevice_def by (auto simp: tx_inv tx_err split: if_splits)
  show "d' = d" if "ListDevices flt t h d = (Inl x, d')"
    using that unfolding ListDevices_def by (auto simp: tx_inv tx_err)
  show "d' = d \<or> \<not> flt 0 \<and> flt 1 \<and> x = ''internal_error'' \<and>
      d' = d\<lparr>devices := map (\<lambda>y. if dv_key y = (t, h, v) \<and> dv_revoked y = 0 then y\<lparr>dv_revoked := 1\<rparr> else y) (devices d)\<rparr>"
    if "db_inv d" "RevokeDevice flt t h v d = (Inl x, d')"
    using that by (rule RevokeDevice_error)
qed

lemma submitted_invite:
  assumes "SubmitClaim cr rnd now flt r d = (Inr cc, d')"
  shows "devices d' = devices d \<and> (\<exists>i\<in>set (pairing_invites d'). iv_status i = ClaimPending \<and>
    iv_expires_at i = cc_ExpiresAt cc \<and>
    iv_key i = (ph_TenantID (sr_Header r), ph_HostID (sr_Header r), ph_InviteID (sr_Header r)))"
  using assms
proof (rule SubmitClaim_ok)
  fix tok
  assume "submit_body flt (UnixMilli now) (sha256 cr tok) r d = (Inr (cc_ExpiresAt cc), d')"
  then show ?thesis
    by (rule submit_body_ok) (auto simp: insert_claim_def cl_invite_def split: if_splits)
qed

section \<open>Pairing completes\<close>

lemma bind_device_new:
  assumes "(ar_TenantID r, ar_HostID r, cl_device_id c) \<notin> dv_key ` set (devices d)"
    and "(ar_TenantID r, ar_HostID r) \<in> ho_key ` set (hosts d)"
  shows "bind_device no_faults t r c d = (Inr (), d\<lparr>devices := devices d @ [bound_device t r (cl_device_id c)]\<rparr>)"
  using assms by (simp add: bind_device_def Let_def tx_bind_run tx_run upsert_device_def dv_key_def bound_device_def)

lemma settle_claim_run:
  assumes "db_inv d" "c \<in> set (pairing_claims d)" "cl_status c = ClaimPending" "cl_claim_id c = ar_ClaimID r"
    "cl_tenant_id c = ar_TenantID r" "cl_host_id c = ar_HostID r"
    and "i \<in> set (pairing_invites d)" "iv_key i = cl_invite c" "iv_status i = ClaimPending"
  shows "\<exists>d'. settle_claim no_faults t r c d = (Inr (), d')"
proof -
  have "affected (\<lambda>c. cl_tenant_id c = ar_TenantID r \<and> cl_host_id c = ar_HostID r \<and>
             cl_claim_id c = ar_ClaimID r \<and> cl_status c = ClaimPending) (pairing_claims d) = 1"
    using assms by (subst affected_key_eq_1 [where k = cl_claim_id and x = "ar_ClaimID r"])
      (auto simp: db_inv_defs)
  moreover have "affected (\<lambda>i. iv_tenant_id i = ar_TenantID r \<and> iv_host_id i = ar_HostID r \<and>
             iv_invite_id i = cl_invite_id c \<and> iv_status i = ClaimPending) (pairing_invites d) = 1"
    using assms by (subst affected_key_eq_1 [where k = iv_key and x = "cl_invite c"])
      (auto simp: db_inv_defs iv_key_def cl_invite_def)
  ultimately show ?thesis
    by (simp add: settle_claim_def tx_bind_run tx_run table_update_defs)
qed

lemma approve_body_first:
  assumes "db_inv d" "validateApproval r = Inr ()"
    and c: "c \<in> set (pairing_claims d)" "cl_status c = ClaimPending" "cl_claim_id c = ar_ClaimID r"
      "cl_tenant_id c = ar_TenantID r" "cl_host_id c = ar_HostID r" "t < cl_expires_at c"
    and h: "unmarshal_header (cl_header_json c) = Some h"
      "ph_DeviceAgreementPublicKey h = ar_DeviceAgreementPublicKey r" "ph_DeviceKeyVersion h = ar_DeviceKeyVersion r"
    and i: "i \<in> set (pairing_invites d)" "iv_key i = cl_invite c" "iv_status i = ClaimPending" "t < iv_expires_at i"
    and v: "(ar_TenantID r, ar_HostID r, cl_device_id c) \<notin> dv_key ` set (devices d)"
  shows "\<exists>d'. approve_body cr no_faults t r d = (Inr (), d') \<and>
    bound_device t r (cl_device_id c) \<in> set (devices d') \<and> approved_row t r c \<in> set (pairing_claims d')"
proof -
  note trim = validateApproval_ok(1-3) [OF assms(2), THEN validIdentifier_trim]
  have e: "db_inv (expire t d)" using assms(1) by (rule expire_inv)
  have ce: "c \<in> set (pairing_claims (expire t d))" "i \<in> set (pairing_invites (expire t d))"
    using c i by (auto simp: expire_rows expire_claim_def expire_invite_def image_iff intro: bexI [of _ c] bexI [of _ i])
  let ?d1 = "(expire t d)\<lparr>devices := devices d @ [bound_device t r (cl_device_id c)]\<rparr>"
  have "(ar_TenantID r, ar_HostID r) \<in> ho_key ` set (hosts d)"
    using assms(1) i(1,2) c(4,5) by (auto simp: db_inv_defs iv_key_def cl_invite_def)
  with v have b: "bind_device no_faults t r c (expire t d) = (Inr (), ?d1)"
    by (subst bind_device_new) simp_all
  have "db_inv ?d1"
    using \<open>(ar_TenantID r, ar_HostID r) \<in> ho_key ` set (hosts d)\<close> v e
    by (auto simp: db_inv_defs dv_key_def bound_device_def)
  then obtain d' where s: "settle_claim no_faults t r c ?d1 = (Inr (), d')"
    using settle_claim_run [of ?d1 c r i t] ce c i by auto
  have fc: "find (\<lambda>q. cl_tenant_id q = ar_TenantID r \<and> cl_host_id q = ar_HostID r \<and> cl_claim_id q = ar_ClaimID r)
      (pairing_claims (expire t d)) = Some c"
    using e ce(1) c by (intro find_key [where k = cl_claim_id and x = "ar_ClaimID r"]) (auto simp: db_inv_defs)
  have fi: "find (\<lambda>q. iv_tenant_id q = ar_TenantID r \<and> iv_host_id q = ar_HostID r \<and> iv_invite_id q = cl_invite_id c)
      (pairing_invites (expire t d)) = Some i"
    using e ce(2) c(4,5) i(2) by (intro find_key [where k = iv_key and x = "cl_invite c"])
      (auto simp: db_inv_defs iv_key_def cl_invite_def)
  have "approve_body cr no_faults t r d = (Inr (), d')"
    unfolding approve_body_def trim
    using fc fi c(2) h i(3) b s by (simp add: tx_bind_run tx_run expire_run)
  moreover have "settled_row t r (cl_invite_id c) c = approved_row t r c"
    using c by (simp add: settled_row_def)
  then have "approved_row t r c \<in> set (pairing_claims d')"
    using settle_claim_ok(1) [OF s] ce(1) by (force simp: image_iff)
  ultimately show ?thesis using settle_claim_ok(3) [OF s] by auto
qed

text \<open>A valid claim for a live, pending invite is accepted.\<close>

lemma SubmitClaim_run:
  assumes "db_inv d" "validateClaimSubmission r = Inr ()"
    and "int (length (marshal_header (sr_Header r))) \<le> maxOpaqueHeaderBytes" "rnd claimAccessTokenBytes = Some tok"
    and i: "i \<in> set (pairing_invites d)" "iv_status i = ClaimPending" "UnixMilli now < iv_expires_at i"
      "iv_tenant_id i = ph_TenantID (sr_Header r)" "iv_host_id i = ph_HostID (sr_Header r)"
      "iv_invite_id i = ph_InviteID (sr_Header r)"
    and live: "host_active d (iv_tenant_id i) (iv_host_id i)" "tenant_enabled d (iv_tenant_id i)"
    and new: "ph_ClaimID (sr_Header r) \<notin> cl_claim_id ` set (pairing_claims d)"
  shows "\<exists>d'. SubmitClaim cr rnd now no_faults r d =
    (Inr \<lparr>cc_ClaimID = ph_ClaimID (sr_Header r), cc_ClaimAccessToken = EncodeToString tok,
       cc_Status = ClaimPending, cc_ExpiresAt = iv_expires_at i\<rparr>, d')"
proof -
  let ?t = "UnixMilli now" and ?h = "sr_Header r"
  have e: "db_inv (expire ?t d)" using assms(1) by (rule expire_inv)
  have ie: "i \<in> set (pairing_invites (expire ?t d))"
    using i(1-3) by (auto simp: expire_rows expire_invite_def image_iff intro: bexI [of _ i])
  have same: "host_active (expire ?t d) = host_active d" "tenant_enabled (expire ?t d) = tenant_enabled d"
    by (simp_all add: fun_eq_iff host_active_def tenant_enabled_def)
  have fi: "find (\<lambda>q. iv_tenant_id q = ph_TenantID ?h \<and> iv_host_id q = ph_HostID ?h \<and>
      iv_invite_id q = ph_InviteID ?h \<and> host_active d (iv_tenant_id q) (iv_host_id q) \<and>
      tenant_enabled d (iv_tenant_id q)) (pairing_invites (expire ?t d)) = Some i"
    using e ie i(4-6) live by (intro find_key [where k = iv_key and x = "iv_key i"])
      (auto simp: db_inv_defs iv_key_def)
  have none: "affected (\<lambda>c. cl_claim_id c = ph_ClaimID ?h) (pairing_claims (expire ?t d)) = 0"
    using new by (force simp: affected_0_iff expire_rows)
  have "ph_ClaimID ?h \<notin> cl_claim_id ` set (pairing_claims (expire ?t d))"
    using none by (auto simp: affected_0_iff)
  moreover have "(ph_TenantID ?h, ph_HostID ?h, ph_InviteID ?h) \<in> iv_key ` set (pairing_invites (expire ?t d))"
    using ie i(4-6) by (force simp: iv_key_def)
  ultimately have "\<exists>d'. submit_body no_faults ?t (sha256 cr tok) r d = (Inr (iv_expires_at i), d')"
    unfolding submit_body_def Let_def
    using fi none i(2) by (simp add: tx_bind_run tx_run expire_run same insert_claim_def cl_invite_def)
  then show ?thesis
    unfolding SubmitClaim_def using assms(2-4) by (auto simp: tx_bind_run tx_run in_transaction_def)
qed

text \<open>
  C10: Pairing completes. When a claim was submitted and its host approves it, with the keys the claim's
  header names, before the invite expires and for a device not yet bound, then (with the database
  answering) the approval succeeds, the device can be read with the approved keys and versions, and
  from then on the claim's access token shows the claim approved, with the host's answer.
\<close>

theorem pairing_completes:
  assumes "pairing_ok d" "SubmitClaim cr rnd now flt sr d = (Inr cc, d1)" "rand_fills rnd"
    and "header_storable (sr_Header sr)" "validateApproval ar = Inr ()"
    and "ar_TenantID ar = ph_TenantID (sr_Header sr)" "ar_HostID ar = ph_HostID (sr_Header sr)"
      "ar_ClaimID ar = cc_ClaimID cc" "ar_DeviceAgreementPublicKey ar = ph_DeviceAgreementPublicKey (sr_Header sr)"
      "ar_DeviceKeyVersion ar = ph_DeviceKeyVersion (sr_Header sr)"
    and "UnixMilli now2 < cc_ExpiresAt cc"
    and "(ar_TenantID ar, ar_HostID ar, ph_DeviceID (sr_Header sr)) \<notin> dv_key ` set (devices d)"
  shows "\<exists>d2. ApproveClaim cr now2 no_faults ar d1 = (Inr (), d2) \<and>
    (\<exists>dev. GetDevice no_faults (ar_TenantID ar) (ar_HostID ar) (ph_DeviceID (sr_Header sr)) d2 = (Inr dev, d2) \<and>
      de_SigningPublicKey dev = ar_DeviceSigningPublicKey ar \<and>
      de_AgreementPublicKey dev = ar_DeviceAgreementPublicKey ar \<and>
      de_KeyVersion dev = ar_DeviceKeyVersion ar \<and> de_BindingVersion dev = ar_BindingVersion ar) \<and>
    (\<exists>view d3. GetClaimWithToken cr now3 no_faults (cc_ClaimID cc) (cc_ClaimAccessToken cc) d2 = (Inr view, d3) \<and>
      cv_Status view = ClaimApproved \<and> cv_ApprovalHeader view = ar_ApprovalHeader ar \<and>
      cv_ApprovalNonce view = ar_ApprovalNonce ar \<and> cv_ApprovalCiphertext view = ar_ApprovalCiphertext ar)"
  using assms(1-3)
proof (rule submitted_token)
  fix tok c
  let ?h = "sr_Header sr" and ?t = "UnixMilli now2"
  assume h: "hashAccessToken cr (cc_ClaimAccessToken cc) = Inr (cl_access_token_hash c)"
    and trim: "TrimSpace (cc_ClaimID cc) = cc_ClaimID cc"
    and c: "c \<in> set (pairing_claims d1)" "cl_claim_id c = cc_ClaimID cc" "cl_status c = ClaimPending"
      "cl_expires_at c = cc_ExpiresAt cc" "cl_tenant_id c = ph_TenantID ?h" "cl_host_id c = ph_HostID ?h"
      "cl_invite_id c = ph_InviteID ?h" "cl_device_id c = ph_DeviceID ?h" "cl_header_json c = marshal_header ?h"
  have ok: "pairing_ok d1" using pair.obeysD [OF SubmitClaim_pair assms(2)] assms(1) by simp
  obtain i where i: "i \<in> set (pairing_invites d1)" "iv_key i = cl_invite c" "iv_status i = ClaimPending"
      "iv_expires_at i = cc_ExpiresAt cc" and dv: "devices d1 = devices d"
    using submitted_invite [OF assms(2)] c(5-7) by (auto simp: cl_invite_def)
  have "unmarshal_header (cl_header_json c) = Some ?h" using assms(4) c(9) by (simp add: unmarshal_header_stored)
  then obtain d2 where d2: "approve_body cr no_faults ?t ar d1 = (Inr (), d2)"
      "bound_device ?t ar (cl_device_id c) \<in> set (devices d2)" "approved_row ?t ar c \<in> set (pairing_claims d2)"
    using approve_body_first [of d1 ar c ?t ?h i cr] ok assms(5-12) c i dv by (auto simp: pairing_ok_def)
  then have run: "ApproveClaim cr now2 no_faults ar d1 = (Inr (), d2)"
    unfolding ApproveClaim_def by (simp add: tx_bind_run tx_run assms(5) in_transaction_def)
  have inv2: "db_inv d2" using inv.obeysD [OF pairing_ops_inv(6) run] ok by (simp add: pairing_ok_def)
  have "find (\<lambda>v. dv_tenant_id v = ar_TenantID ar \<and> dv_host_id v = ar_HostID ar \<and> dv_device_id v = ph_DeviceID ?h)
      (devices d2) = Some (bound_device ?t ar (ph_DeviceID ?h))"
    using inv2 d2(2) c(8) by (intro find_key [where k = dv_key and x = "(ar_TenantID ar, ar_HostID ar, ph_DeviceID ?h)"])
      (auto simp: db_inv_defs dv_key_def bound_device_def)
  then have "\<exists>dev. GetDevice no_faults (ar_TenantID ar) (ar_HostID ar) (ph_DeviceID ?h) d2 = (Inr dev, d2) \<and>
      de_SigningPublicKey dev = ar_DeviceSigningPublicKey ar \<and>
      de_AgreementPublicKey dev = ar_DeviceAgreementPublicKey ar \<and>
      de_KeyVersion dev = ar_DeviceKeyVersion ar \<and> de_BindingVersion dev = ar_BindingVersion ar"
    by (simp add: GetDevice_def tx_bind_run tx_run scanDevice_def bound_device_def)
  moreover have "GetClaimWithToken cr now3 no_faults (cc_ClaimID cc) (cc_ClaimAccessToken cc) d2 =
      (Inr (claim_view (approved_row ?t ar c)), expire (UnixMilli now3) d2)"
    using GetClaimWithToken_run [OF inv2 d2(3), of "cc_ClaimID cc" cr now3 "cc_ClaimAccessToken cc"] h c(2) trim
    by (simp add: approved_row_def expire_claim_def)
  ultimately show ?thesis
    using run by (auto simp: claim_view_def approved_row_def null_string_def)
qed

end
