(* ===== verification/Services.thy ===== *)
theory Services
  imports Pairing_Lifecycle
begin

text \<open>
  The services together. A run of the relay, seen from the database, is any sequence of calls of the
  operations of the tenant, host, auth and pairing services, each with its own clock reading, random
  bytes, arguments and driver faults, succeeding or failing. Every contract of the components is
  inherited by such runs.
\<close>

section \<open>One contract for all services\<close>

definition relay_order :: "db \<Rightarrow> db \<Rightarrow> bool" where
  "relay_order d d' \<longleftrightarrow> (pairing_ok d \<longrightarrow> pairing_ok d') \<and> credentials_kept d d' \<and> lifecycle d d' \<and>
     devices_follow d d' \<and> host_pinned d d'"

interpretation sys: tx_order relay_order
proof
  show "relay_order d d" for d
    by (simp add: relay_order_def cred.refl life.refl dev.refl pin.refl)
  show "relay_order d d2" if "relay_order d d1" "relay_order d1 d2" for d d1 d2
    using that unfolding relay_order_def by (meson cred.trans life.trans dev.trans pin.trans)
qed

lemma sys_obeysI:
  "pair.obeys m \<Longrightarrow> cred.obeys m \<Longrightarrow> life.obeys m \<Longrightarrow> dev.obeys m \<Longrightarrow> pin.obeys m \<Longrightarrow> sys.obeys m"
  unfolding sys.obeys_def pair.obeys_def cred.obeys_def life.obeys_def dev.obeys_def pin.obeys_def
    relay_order_def by blast

lemmas pairing_ops_sys =
  sys_obeysI [OF simple_ops_pair(1) pairing_ops_cred(1) pairing_ops_life(1) pairing_ops_dev(1) pairing_ops_pin(1)]
  sys_obeysI [OF SubmitClaim_pair pairing_ops_cred(2) pairing_ops_life(2) pairing_ops_dev(2) pairing_ops_pin(2)]
  sys_obeysI [OF simple_ops_pair(2) pairing_ops_cred(3) pairing_ops_life(3) pairing_ops_dev(3) pairing_ops_pin(3)]
  sys_obeysI [OF simple_ops_pair(3) pairing_ops_cred(4) pairing_ops_life(4) pairing_ops_dev(4) pairing_ops_pin(4)]
  sys_obeysI [OF simple_ops_pair(4) pairing_ops_cred(5) pairing_ops_life(5) pairing_ops_dev(5) pairing_ops_pin(5)]
  sys_obeysI [OF ApproveClaim_pair pairing_ops_cred(6) pairing_ops_life(6) pairing_ops_dev(6) pairing_ops_pin(6)]
  sys_obeysI [OF simple_ops_pair(5) pairing_ops_cred(7) pairing_ops_life(7) pairing_ops_dev(7) pairing_ops_pin(7)]
  sys_obeysI [OF simple_ops_pair(6) pairing_ops_cred(8) pairing_ops_life(8) pairing_ops_dev(8) pairing_ops_pin(8)]
  sys_obeysI [OF simple_ops_pair(7) pairing_ops_cred(9) pairing_ops_life(9) pairing_ops_dev(9) pairing_ops_pin(9)]
  sys_obeysI [OF simple_ops_pair(8) pairing_ops_cred(10) pairing_ops_life(10) pairing_ops_dev(10) pairing_ops_pin(10)]
  sys_obeysI [OF simple_ops_pair(9) pairing_ops_cred(11) pairing_ops_life(11) pairing_ops_dev(11) pairing_ops_pin(11)]
  sys_obeysI [OF simple_ops_pair(10) pairing_ops_cred(12) pairing_ops_life(12) pairing_ops_dev(12) pairing_ops_pin(12)]

text \<open>The statements of the other services.\<close>

lemma statements_sys:
  "insert_tenant r1 d = Some (u, d') \<Longrightarrow> relay_order d d'"
  "update_tenants P1 f1 d = Some (n, d') \<Longrightarrow> (\<And>r. tn_tenant_id (f1 r) = tn_tenant_id r) \<Longrightarrow> relay_order d d'"
  "insert_host_or_ignore r2 d = Some (n, d') \<Longrightarrow> relay_order d d'"
  "update_hosts P2 f2 d = Some (n, d') \<Longrightarrow> (\<And>r. ho_tenant_id (f2 r) = ho_tenant_id r \<and>
     ho_host_id (f2 r) = ho_host_id r) \<Longrightarrow> (\<And>r. host_identity (f2 r) = host_identity r) \<Longrightarrow> relay_order d d'"
  "insert_challenge r3 d = Some (u, d') \<Longrightarrow> relay_order d d'"
  "insert_ticket r4 d = Some (u, d') \<Longrightarrow> relay_order d d'"
  "update_challenges P3 (\<lambda>r. r\<lparr>ch_consumed_at := Some t\<rparr>) d = Some (n, d') \<Longrightarrow>
     (\<And>r. P3 r \<Longrightarrow> ch_consumed_at r = None) \<Longrightarrow> relay_order d d'"
  "update_tickets P4 (\<lambda>r. r\<lparr>tk_consumed_at := Some t\<rparr>) d = Some (n, d') \<Longrightarrow>
     (\<And>r. P4 r \<Longrightarrow> tk_consumed_at r = None) \<Longrightarrow> relay_order d d'"
  unfolding relay_order_def pairing_ok_def
  by (intro conjI impI; (elim conjE)?;
      (erule store_inv other_tables_pairing other_tables_kept other_tables_life other_tables_dev other_tables_pin
         insert_host_pinned update_hosts_pinned insert_credential_kept update_challenges_kept update_tickets_kept)+; simp?)+

lemma tenant_ops_sys:
  "sys.obeys (Create cr r1 r2 r3 now flt name)" "sys.obeys (GetTenant flt tid)" "sys.obeys (ListTenants flt)"
  "sys.obeys (SetEnabled flt tid en)" "sys.obeys (RotateSecret cr r1 r2 flt tid)"
  unfolding tenant_defs Let_def by (intro sys.obeys_rules; auto elim!: statements_sys)+

lemma host_ops_sys:
  "sys.obeys (GetHost flt t h)" "sys.obeys (EnrollHost now flt req)" "sys.obeys (UpdateLastSeen now flt t h)"
  unfolding host_defs Let_def
  by (intro sys.obeys_rules; auto elim!: statements_sys simp: host_identity_def ho_key_def)+

lemma auth_ops_sys:
  "sys.obeys (CreateChallenge cr svc r1 r2 now flt s)" "sys.obeys (Prove cr svc r1 now flt rq)"
  "sys.obeys (ConsumeTicket cr svc now flt raw s)"
  unfolding auth_op_defs Let_def case_prod_unfold
  by (intro sys.obeys_rules; auto elim!: statements_sys simp: challenge_matches_def ticket_matches_def)+

section \<open>Bound devices\<close>

text \<open>
  A device that is bound and not revoked stays so through every call but a revocation of that very
  device.
\<close>

definition device_active :: "string \<times> string \<times> string \<Rightarrow> db \<Rightarrow> bool" where
  "device_active k d \<longleftrightarrow> (\<exists>v\<in>set (devices d). dv_key v = k \<and> dv_revoked v = 0)"

definition active_kept :: "string \<times> string \<times> string \<Rightarrow> db \<Rightarrow> db \<Rightarrow> bool" where
  "active_kept k d d' \<longleftrightarrow> (device_active k d \<longrightarrow> device_active k d')"

interpretation act: tx_order "active_kept k" for k
  by unfold_locales (auto simp: active_kept_def)

lemma active_kept_same: "devices d' = devices d \<Longrightarrow> active_kept k d d'"
  by (simp add: active_kept_def device_active_def)

lemma update_devices_active:
  assumes "update_devices P f d = Some (n, d')" "\<And>v. P v \<Longrightarrow> dv_key v \<noteq> k"
  shows "active_kept k d d'"
  unfolding active_kept_def device_active_def
proof
  assume "\<exists>v\<in>set (devices d). dv_key v = k \<and> dv_revoked v = 0"
  then obtain v where v: "v \<in> set (devices d)" "dv_key v = k" "dv_revoked v = 0" by blast
  with assms(2) have "v \<in> set (update_where P f (devices d))" by (force simp: table_simps)
  with assms(1) v show "\<exists>v\<in>set (devices d'). dv_key v = k \<and> dv_revoked v = 0" by (auto simp: tx_inv)
qed

lemma upsert_device_active:
  assumes "upsert_device ok upd r d = Some (n, d')" "\<And>v. dv_key (upd v) = dv_key v \<and> dv_revoked (upd v) = 0"
  shows "active_kept k d d'"
  unfolding active_kept_def device_active_def
proof
  let ?P = "\<lambda>v. dv_key v = dv_key r \<and> ok v"
  assume "\<exists>v\<in>set (devices d). dv_key v = k \<and> dv_revoked v = 0"
  then obtain v where v: "v \<in> set (devices d)" "dv_key v = k" "dv_revoked v = 0" by blast
  let ?v = "if ?P v then upd v else v"
  have "?v \<in> set (update_where ?P upd (devices d))"
    unfolding set_update_where using v(1) by (rule imageI)
  moreover have "dv_key ?v = k \<and> dv_revoked ?v = 0" using assms(2) v by simp
  ultimately have "\<exists>v\<in>set (update_where ?P upd (devices d)). dv_key v = k \<and> dv_revoked v = 0" by blast
  with assms(1) v show "\<exists>v\<in>set (devices d'). dv_key v = k \<and> dv_revoked v = 0"
    by (auto simp: upsert_device_def split: if_splits)
qed

lemma other_tables_active:
  "insert_tenant r1 d = Some (u, d') \<Longrightarrow> active_kept k d d'"
  "insert_host_or_ignore r2 d = Some (n, d') \<Longrightarrow> active_kept k d d'"
  "insert_challenge r3 d = Some (u, d') \<Longrightarrow> active_kept k d d'"
  "insert_ticket r4 d = Some (u, d') \<Longrightarrow> active_kept k d d'"
  "insert_invite r5 d = Some (u, d') \<Longrightarrow> active_kept k d d'"
  "insert_claim r6 d = Some (u, d') \<Longrightarrow> active_kept k d d'"
  "update_tenants P1 f1 d = Some (n, d') \<Longrightarrow> active_kept k d d'"
  "update_hosts P2 f2 d = Some (n, d') \<Longrightarrow> active_kept k d d'"
  "update_invites P3 f3 d = Some (n, d') \<Longrightarrow> active_kept k d d'"
  "update_claims P4 f4 d = Some (n, d') \<Longrightarrow> active_kept k d d'"
  "update_tickets P5 f5 d = Some (n, d') \<Longrightarrow> active_kept k d d'"
  "update_challenges P6 f6 d = Some (n, d') \<Longrightarrow> active_kept k d d'"
  by (auto simp: insert_tenant_def insert_host_or_ignore_def insert_challenge_def insert_ticket_def
        insert_invite_def insert_claim_def table_update_defs act.refl
        split: if_splits intro!: active_kept_same)

lemma expirePending_act: "act.obeys k (expirePending flt now)"
  unfolding expirePending_def by (intro act.obeys_rules; auto elim!: other_tables_active)

lemma pairing_ops_act:
  "act.obeys k (CreateInvite now flt t h i e)" "act.obeys k (SubmitClaim cr rnd now flt sr)"
  "act.obeys k (GetClaimWithToken cr now flt cid tok)" "act.obeys k (ListPendingClaims now flt t h)"
  "act.obeys k (ClaimDeviceID flt t h cid)" "act.obeys k (ApproveClaim cr now flt ar)"
  "act.obeys k (RejectClaim now flt t h cid)" "act.obeys k (CancelClaim cr now flt cid tok)"
  "act.obeys k (CancelInvite now flt t h i)" "act.obeys k (GetDevice flt t h v)"
  "act.obeys k (ListDevices flt t h)" "k \<noteq> (t, h, v) \<Longrightarrow> act.obeys k (RevokeDevice flt t h v)"
  unfolding pairing_defs Let_def
  by (intro act.obeys_rules expirePending_act;
      auto elim!: other_tables_active update_devices_active upsert_device_active simp: dv_key_def)+

lemma tenant_ops_act:
  "act.obeys k (Create cr r1 r2 r3 now flt name)" "act.obeys k (GetTenant flt tid)" "act.obeys k (ListTenants flt)"
  "act.obeys k (SetEnabled flt tid en)" "act.obeys k (RotateSecret cr r1 r2 flt tid)"
  unfolding tenant_defs Let_def by (intro act.obeys_rules; auto elim!: other_tables_active)+

lemma host_ops_act:
  "act.obeys k (GetHost flt t h)" "act.obeys k (EnrollHost now flt req)" "act.obeys k (UpdateLastSeen now flt t h)"
  unfolding host_defs Let_def by (intro act.obeys_rules; auto elim!: other_tables_active)+

lemma auth_ops_act:
  "act.obeys k (CreateChallenge cr svc r1 r2 now flt s)" "act.obeys k (Prove cr svc r1 now flt rq)"
  "act.obeys k (ConsumeTicket cr svc now flt raw s)"
  unfolding auth_op_defs Let_def case_prod_unfold
  by (intro act.obeys_rules; auto elim!: other_tables_active)+

section \<open>Runs\<close>

text \<open>One call of a service, as the database sees it.\<close>

inductive service_call :: "crypto \<Rightarrow> db \<Rightarrow> db \<Rightarrow> bool" for cr where
  create: "Create cr r1 r2 r3 now flt name d = (res, d') \<Longrightarrow> service_call cr d d'"
| get_tenant: "GetTenant flt tid d = (res, d') \<Longrightarrow> service_call cr d d'"
| list_tenants: "ListTenants flt d = (res, d') \<Longrightarrow> service_call cr d d'"
| set_enabled: "SetEnabled flt tid en d = (res, d') \<Longrightarrow> service_call cr d d'"
| rotate_secret: "RotateSecret cr r1 r2 flt tid d = (res, d') \<Longrightarrow> service_call cr d d'"
| get_host: "GetHost flt t h d = (res, d') \<Longrightarrow> service_call cr d d'"
| enroll_host: "EnrollHost now flt req d = (res, d') \<Longrightarrow> service_call cr d d'"
| update_last_seen: "UpdateLastSeen now flt t h d = (res, d') \<Longrightarrow> service_call cr d d'"
| create_challenge: "CreateChallenge cr svc r1 r2 now flt s d = (res, d') \<Longrightarrow> service_call cr d d'"
| prove: "Prove cr svc r1 now flt rq d = (res, d') \<Longrightarrow> service_call cr d d'"
| consume_ticket: "ConsumeTicket cr svc now flt raw s d = (res, d') \<Longrightarrow> service_call cr d d'"
| create_invite: "CreateInvite now flt t h i e d = (res, d') \<Longrightarrow> service_call cr d d'"
| submit_claim: "SubmitClaim cr r1 now flt sr d = (res, d') \<Longrightarrow> service_call cr d d'"
| get_claim: "GetClaimWithToken cr now flt cid tok d = (res, d') \<Longrightarrow> service_call cr d d'"
| list_claims: "ListPendingClaims now flt t h d = (res, d') \<Longrightarrow> service_call cr d d'"
| claim_device: "ClaimDeviceID flt t h cid d = (res, d') \<Longrightarrow> service_call cr d d'"
| approve: "ApproveClaim cr now flt ar d = (res, d') \<Longrightarrow> service_call cr d d'"
| reject: "RejectClaim now flt t h cid d = (res, d') \<Longrightarrow> service_call cr d d'"
| cancel_claim: "CancelClaim cr now flt cid tok d = (res, d') \<Longrightarrow> service_call cr d d'"
| cancel_invite: "CancelInvite now flt t h i d = (res, d') \<Longrightarrow> service_call cr d d'"
| get_device: "GetDevice flt t h v d = (res, d') \<Longrightarrow> service_call cr d d'"
| list_devices: "ListDevices flt t h d = (res, d') \<Longrightarrow> service_call cr d d'"

text \<open>Revocations are kept apart: they are the only calls that end a binding.\<close>

inductive service_step :: "crypto \<Rightarrow> db \<Rightarrow> db \<Rightarrow> bool" for cr where
  call: "service_call cr d d' \<Longrightarrow> service_step cr d d'"
| revoke: "RevokeDevice flt t h v d = (res, d') \<Longrightarrow> service_step cr d d'"

lemma service_call_order: "service_call cr d d' \<Longrightarrow> relay_order d d'"
  by (induction rule: service_call.induct)
    (blast intro: sys.obeysD tenant_ops_sys host_ops_sys auth_ops_sys pairing_ops_sys)+

lemma service_call_active: "service_call cr d d' \<Longrightarrow> active_kept k d d'"
  by (induction rule: service_call.induct)
    (blast intro: act.obeysD tenant_ops_act host_ops_act auth_ops_act pairing_ops_act)+

lemma service_step_order: "service_step cr d d' \<Longrightarrow> relay_order d d'"
  by (induction rule: service_step.induct) (blast intro: service_call_order sys.obeysD pairing_ops_sys)+

definition service_run :: "crypto \<Rightarrow> db \<Rightarrow> db \<Rightarrow> bool" where
  "service_run cr = (service_step cr)\<^sup>*\<^sup>*"

lemma service_run_order: "service_run cr d d' \<Longrightarrow> relay_order d d'"
  unfolding service_run_def
proof (induction rule: rtranclp_induct)
  case base
  show ?case by (rule sys.refl)
next
  case (step d1 d2)
  then show ?case using service_step_order sys.trans by blast
qed

lemma pairing_ok_empty: "pairing_ok empty_db"
  by (simp add: pairing_ok_def pairing_inv_def empty_db_def db_inv_defs)

text \<open>
  C11: The database stays consistent. After any run of the services from an empty database, with
  failures anywhere, primary keys are unique and foreign keys resolve, and an invite has at most one
  approved claim, which consumed it, and no claim that is still pending once it is consumed.
\<close>

theorem reachable_state_ok:
  assumes "service_run cr empty_db d"
  shows "db_inv d \<and> pairing_inv d"
  using service_run_order [OF assms] pairing_ok_empty by (simp add: relay_order_def pairing_ok_def)

lemma ticket_refused_later:
  assumes "pairing_ok d" "ConsumeTicket cr svc now flt raw s d = (Inr u, d1)" "service_run cr d1 d2"
  shows "\<exists>e. fst (ConsumeTicket cr svc' now' flt' raw s' d2) = Inl e"
proof -
  have "relay_order d d2"
    using service_step_order [OF service_step.call [OF service_call.consume_ticket [OF assms(2)]]] service_run_order [OF assms(3)]
    by (rule sys.trans)
  with assms(1) have "db_inv d" "db_inv d2" by (simp_all add: relay_order_def pairing_ok_def)
  with tick.used_at_most_once [of d cr "(svc, now, flt, s)" raw u d1 d2 "(svc', now', flt', s')"] assms(2)
    service_run_order [OF assms(3)]
  show ?thesis by (simp add: relay_order_def)
qed

text \<open>
  C12: A ticket is accepted at most once. After a ticket was accepted in a
  consistent state, no call in any later state of
  the relay, for whatever scope and at whatever time, accepts it again.
\<close>

theorem ticket_at_most_once:
  assumes "pairing_ok d" "ConsumeTicket cr svc now flt raw s d = (Inr u, d1)"
    and "service_run cr d1 d2"
  shows "\<exists>e. fst (ConsumeTicket cr svc' now' flt' raw s' d2) = Inl e"
  using assms by (rule ticket_refused_later)

text \<open>
  C13: A challenge is answered at most once. After a proof for a challenge was accepted in a consistent
  state, no proof for
  the same challenge is accepted in any later state, so a recorded proof cannot be replayed.
\<close>

theorem challenge_at_most_once:
  assumes "pairing_ok d" "Prove cr svc rnd now flt rq d = (Inr t, d1)"
    and "service_run cr d1 d2" "sc_ChallengeID (pr_Challenge rq') = sc_ChallengeID (pr_Challenge rq)"
  shows "\<exists>e. fst (Prove cr svc' rnd' now' flt' rq' d2) = Inl e"
proof -
  have "relay_order d d2"
    using service_step_order [OF service_step.call [OF service_call.prove [OF assms(2)]]] service_run_order [OF assms(3)]
    by (rule sys.trans)
  with assms(1) have "db_inv d" "db_inv d2" by (simp_all add: relay_order_def pairing_ok_def)
  with chal.used_at_most_once [of d cr "(svc, rnd, now, flt, rq)" "sc_ChallengeID (pr_Challenge rq)" t d1 d2
      "(svc', rnd', now', flt', rq')"] assms(2,4) service_run_order [OF assms(3)]
  show ?thesis by (simp add: relay_order_def tx_run)
qed

text \<open>
  C14: Identities are pinned. Whatever the services do, an enrolled host keeps its signing key, its
  agreement key and its key version; a bound device keeps its keys and key version, its binding
  version never decreases, and while the binding version stays the same a revoked device stays revoked.
\<close>

theorem identities_pinned:
  assumes "service_run cr d d'"
  shows "host_identity ` set (hosts d) \<subseteq> host_identity ` set (hosts d') \<and>
    (\<forall>v\<in>set (devices d). \<exists>v'\<in>set (devices d'). dv_key v' = dv_key v \<and>
      dv_signing_public_key v' = dv_signing_public_key v \<and>
      dv_agreement_public_key v' = dv_agreement_public_key v \<and> dv_key_version v' = dv_key_version v \<and>
      dv_binding_version v \<le> dv_binding_version v' \<and>
      (dv_binding_version v' = dv_binding_version v \<longrightarrow> dv_revoked v \<noteq> 0 \<longrightarrow> dv_revoked v' \<noteq> 0))"
  using service_run_order [OF assms]
  by (auto simp: relay_order_def host_pinned_def devices_follow_def device_follows_def)

text \<open>
  C15: A claim is settled once. In any run a claim stays in the table; a pending one is settled by at
  most one of expiry, rejection, cancellation, consumption or approval; and a settled one never
  changes again, its approval included.
\<close>

theorem claims_settle_once:
  assumes "service_run cr d d'" "c \<in> set (pairing_claims d)"
  shows "\<exists>c'\<in>set (pairing_claims d'). c' = c \<or> cl_status c = ClaimPending \<and> claim_step c c'"
proof -
  obtain c' where c': "c' \<in> set (pairing_claims d')" "claim_follows c c'"
    using service_run_order [OF assms(1)] assms(2) unfolding relay_order_def lifecycle_def by blast
  then show ?thesis unfolding claim_follows_def using claim_step_settles [of c c'] by blast
qed

end
