(* ===== verification/Demo.thy ===== *)
theory Demo
  imports Auth Json
begin

text \<open>
  A concrete relay on which the statements about challenges, proofs and tickets are instantiated:
  one enabled tenant with one active host, a toy digest and a signer whose signatures verify. The
  public key is a point of P-256 from the repository's protocol test vectors.
\<close>

definition demo_crypto :: crypto where
  "demo_crypto = \<lparr>sha256 = (\<lambda>m. take 32 (m @ replicate 32 (CHR 0x00))), ecdsa_verify = (\<lambda>_ _ _ _. True)\<rparr>"

definition demo_key :: string where
  "demo_key = ''BHzyexiNA09-ilI4AwS1GsPAiWnid_IbNaYLSPxHZpl4B3dVENuO0EApPZrGn3Qw27p9reY86YIpngS3nSJ4c9E''"

definition demo_signer :: signer where
  "demo_signer = \<lparr>sg_public = the (RawURLStrictDecode demo_key),
     sg_sign = (\<lambda>_. Some (replicate 64 (CHR 0x01)))\<rparr>"

definition demo_service :: "auth_service option" where
  "demo_service = Some \<lparr>as_store = True, as_signer = Some demo_signer\<rparr>"

definition demo_rand :: "char \<Rightarrow> rand" where
  "demo_rand c n = Some (replicate n c)"

definition demo_db :: db where
  "demo_db = empty_db
     \<lparr>tenants := [\<lparr>tn_tenant_id = ''t'', tn_display_name = ''T'', tn_enabled = 1,
        tn_secret_hash = '''', tn_created_at = ''''\<rparr>],
      hosts := [\<lparr>ho_tenant_id = ''t'', ho_host_id = ''h'', ho_display_name = ''H'',
        ho_signing_public_key = demo_key, ho_agreement_public_key = '''', ho_key_version = 1,
        ho_enabled = 1, ho_revoked = 0, ho_registered_at = '''', ho_last_seen_at = None\<rparr>]\<rparr>"

definition demo_scope :: ticket_scope where
  "demo_scope = \<lparr>ts_SubjectType = ''host'', ts_SubjectID = ''h'', ts_TenantID = ''t'',
     ts_HostID = ''h'', ts_DeviceID = '''', ts_Purpose = ''device_list''\<rparr>"

definition demo_challenge :: signed_challenge where
  "demo_challenge = \<lparr>sc_ProtocolVersion = 1,
     sc_RelayFingerprint = FingerprintBase64URL (Public demo_crypto demo_signer),
     sc_ChallengeID = EncodeToString (replicate 18 (CHR ''i'')),
     sc_Challenge = EncodeToString (replicate 32 (CHR ''v'')),
     sc_SubjectType = ''host'', sc_SubjectID = ''h'', sc_TenantID = ''t'', sc_HostID = ''h'',
     sc_DeviceID = '''', sc_Purpose = ''device_list'', sc_IssuedAt = 0, sc_ExpiresAt = 60000,
     sc_RelaySignature = EncodeToString (replicate 64 (CHR 0x01))\<rparr>"

definition demo_db1 :: db where
  "demo_db1 = demo_db\<lparr>auth_challenges :=
     [issued_challenge demo_crypto demo_challenge (replicate 32 (CHR ''v''))]\<rparr>"

definition demo_point :: "int \<times> int" where
  "demo_point = projr (DecodeSEC1PublicKey demo_key)"

lemma demo_trim: "TrimSpace ''h'' = ''h''" "TrimSpace ''t'' = ''t''" "TrimSpace [] = []"
  by (simp_all add: TrimSpace_def space_runes_def strip_front.simps strip_back_def HasPrefix_def)

lemma demo_scope_ok: "validateScope demo_scope = Inr ()"
  by (simp add: validateScope_def demo_scope_def demo_trim validPurpose_def)

lemma demo_key_valid: "isl (DecodeSEC1PublicKey demo_key) = False" "isl (auth_decodeExact demo_key 65) = False"
  by code_simp+

lemma demo_key_ok: "DecodeSEC1PublicKey demo_key = Inr demo_point"
  using demo_key_valid(1) by (simp add: demo_point_def)

lemma demo_public: "PublicKeyBase64URL (Public demo_crypto demo_signer) = demo_key"
  by code_simp

lemma demo_public_ok:
  "DecodeSEC1PublicKey (PublicKeyBase64URL (Public demo_crypto demo_signer)) = Inr demo_point"
  by (simp add: demo_public demo_key_ok)

lemma demo_subject_col: "subject_key_column demo_db1 demo_scope = Some demo_key"
  "subject_key_column demo_db demo_scope = Some demo_key"
  by (simp_all add: subject_key_column_def demo_db1_def demo_scope_def demo_db_def empty_db_def
    tenant_enabled_def)

lemma demo_scope_host: "ts_SubjectType demo_scope = ''host''"
  by (simp add: demo_scope_def)

lemma demo_key_found:
  assumes "subject_key_column d s = Some demo_key" "ts_SubjectType s = ''host'' \<or> ts_SubjectType s = ''device''"
  shows "subjectSigningKey no_faults s d = (Inr demo_point, d)"
proof -
  obtain bs where "auth_decodeExact demo_key 65 = Inr bs"
    using demo_key_valid(2) by (cases "auth_decodeExact demo_key 65") auto
  with demo_key_ok assms show ?thesis by (simp add: subjectSigningKey_ok)
qed

lemmas demo_subject_key =
  demo_subject_col [THEN demo_key_found, OF disjI1 [OF demo_scope_host]]

definition demo_transcript :: bytes where
  "demo_transcript = projr (challengeTranscript demo_challenge)"

definition demo_proof :: bytes where
  "demo_proof = projr (proofTranscript demo_challenge demo_transcript)"

lemma demo_sha_len [simp]: "length (sha256 demo_crypto m) = 32"
  by (simp add: demo_crypto_def)

lemma demo_transcript_ok: "challengeTranscript demo_challenge = Inr demo_transcript"
proof -
  have "sha256 demo_crypto m \<noteq> []" for m
    using demo_sha_len [of m] by (metis list.size(3) zero_neq_numeral)
  then have "\<exists>t. challengeTranscript demo_challenge = Inr t"
    by (simp add: challengeTranscript_ok demo_challenge_def Public_def credentialBytes_def
        field_fits_def MaxUint32_def length_EncodeToString)
  then show ?thesis by (auto simp: demo_transcript_def)
qed

lemma demo_proof_ok: "proofTranscript demo_challenge demo_transcript = Inr demo_proof"
proof -
  obtain fp v where "length fp = 32" "length v = 32"
    and t: "demo_transcript = field_bytes ''MYCODEX-RELAY-CHALLENGE-V1'' @
      int64_bytes (sc_ProtocolVersion demo_challenge) @ field_bytes fp @
      field_bytes (sc_ChallengeID demo_challenge) @ field_bytes v @
      field_bytes (sc_SubjectType demo_challenge) @ field_bytes (sc_SubjectID demo_challenge) @
      field_bytes (sc_TenantID demo_challenge) @ field_bytes (sc_HostID demo_challenge) @
      field_bytes (sc_DeviceID demo_challenge) @ field_bytes (sc_Purpose demo_challenge) @
      int64_bytes (sc_IssuedAt demo_challenge) @ int64_bytes (sc_ExpiresAt demo_challenge)"
    using demo_transcript_ok unfolding challengeTranscript_ok auth_decodeExact_ok credentialBytes_def
    by blast
  then have "length demo_transcript \<le> 4294967295"
    unfolding t by (simp add: demo_challenge_def field_bytes_def int64_bytes_def length_EncodeToString)
  then have "\<exists>t. proofTranscript demo_challenge demo_transcript = Inr t"
    by (simp add: proofTranscript_ok demo_challenge_def field_fits_def MaxUint32_def)
  then show ?thesis by (auto simp: demo_proof_def)
qed

lemma demo_inv: "db_inv demo_db" by (simp add: demo_db_def empty_db_def db_inv_defs key_defs)

lemma demo_unsigned: "challengeTranscript (demo_challenge\<lparr>sc_RelaySignature := []\<rparr>) = Inr demo_transcript"
  using demo_transcript_ok by (simp add: challengeTranscript_ok demo_challenge_def)

lemma demo_create:
  "CreateChallenge demo_crypto demo_service (demo_rand (CHR ''i'')) (demo_rand (CHR ''v'')) 0
     no_faults demo_scope demo_db = (Inr demo_challenge, demo_db1)"
proof -
  have "auth_ready demo_service = Some demo_signer"
    by (simp add: auth_ready_def demo_service_def)
  from CreateChallenge_succeeds [OF this demo_scope_ok demo_subject_key(2), where cr = demo_crypto and now = 0 and cid = "replicate 18 (CHR ''i'')"
      and v = "replicate 32 (CHR ''v'')" and t = demo_transcript
      and sig = "EncodeToString (replicate 64 (CHR 0x01))" and ?r1.0 = "demo_rand (CHR ''i'')" and ?r2.0 = "demo_rand (CHR ''v'')"]
    demo_unsigned
  show ?thesis
    by (simp add: demo_rand_def credentialBytes_def Sign_def demo_signer_def demo_db_def empty_db_def
       demo_db1_def demo_challenge_def demo_scope_def ProtocolVersion_def UnixMilli_def maxLifetime_def Second_def Millisecond_def)
qed

section \<open>Concrete instances of the exchange\<close>

definition demo_sig :: string where
  "demo_sig = EncodeToString (replicate 64 (CHR 0x01))"

lemma demo_signs: "signs_for demo_crypto demo_signer demo_point" "Sign demo_crypto demo_signer m = Inr demo_sig"
  by (auto simp: signs_for_def demo_crypto_def demo_signer_def Sign_def demo_sig_def)

lemma demo_ready: "auth_ready demo_service = Some demo_signer"
  by (simp add: auth_ready_def demo_service_def)

lemma demo_no_tickets: "auth_tickets demo_db1 = []"
  by (simp add: demo_db1_def demo_db_def empty_db_def)

theorem challenge_proof_ticket_witness:
  "\<exists>t d2 d3.
    Prove demo_crypto demo_service (demo_rand (CHR ''k'')) (30 * Second) no_faults
      \<lparr>pr_Challenge = demo_challenge, pr_SubjectSignature = demo_sig\<rparr> demo_db1 = (Inr t, d2) \<and>
    ConsumeTicket demo_crypto demo_service (60 * Second) no_faults (tt_Ticket t) demo_scope d2 = (Inr (), d3)"
  by (rule challenge_proof_ticket [OF demo_inv demo_create demo_ready demo_public_ok demo_signs(1)
        demo_subject_key(1) demo_signs(1) demo_transcript_ok demo_proof_ok demo_signs(2), where tv = "replicate 32 (CHR ''k'')"])
    (simp_all add: demo_rand_def demo_no_tickets credentialBytes_def UnixMilli_def Second_def Millisecond_def)

lemma demo_proved:
  obtains d2 t where "Prove demo_crypto demo_service (demo_rand (CHR ''k'')) 0 no_faults
      \<lparr>pr_Challenge = demo_challenge, pr_SubjectSignature = demo_sig\<rparr> demo_db1 = (Inr t, d2)"
  using exchange_Prove [where rnd = "demo_rand (CHR ''k'')" and tv = "replicate 32 (CHR ''k'')" and ?now2.0 = 0,
     OF demo_inv demo_create demo_ready demo_public_ok demo_signs(1)
        demo_subject_key(1) demo_signs(1) demo_transcript_ok demo_proof_ok demo_signs(2)]
  by (auto simp: demo_rand_def demo_no_tickets credentialBytes_def UnixMilli_def)

theorem Prove_sound_witness:
  "\<exists>t d2. Prove demo_crypto demo_service (demo_rand (CHR ''k'')) 0 no_faults
      \<lparr>pr_Challenge = demo_challenge, pr_SubjectSignature = demo_sig\<rparr> demo_db1 = (Inr t, d2) \<and>
    (\<exists>v. auth_tickets d2 = [issued_ticket demo_crypto demo_scope 0 v] \<and> tt_ExpiresAt t = 60000)"
proof (rule demo_proved)
  fix d2 t
  assume run: "Prove demo_crypto demo_service (demo_rand (CHR ''k'')) 0 no_faults
      \<lparr>pr_Challenge = demo_challenge, pr_SubjectSignature = demo_sig\<rparr> demo_db1 = (Inr t, d2)"
  have s: "scope demo_challenge = demo_scope"
    by (simp add: scope_def demo_challenge_def demo_scope_def)
  from Prove_sound [OF run] show ?thesis
    unfolding Let_def by (intro exI [of _ t] exI [of _ d2]) (auto simp: run demo_no_tickets s UnixMilli_def)
qed

text \<open>
  The same challenge with a line break in the text of its value, which the decoder skips: another
  text with the same signed bytes.
\<close>

definition demo_broken :: signed_challenge where
  "demo_broken = demo_challenge\<lparr>sc_Challenge := take 4 (sc_Challenge demo_challenge) @ [CHR 0x0A] @ drop 4 (sc_Challenge demo_challenge)\<rparr>"

lemma demo_line_break:
  "auth_decodeExact (take 4 (EncodeToString (replicate 32 (CHR ''v''))) @ [CHR 0x0A] @ drop 4 (EncodeToString (replicate 32 (CHR ''v'')))) 32 =
     auth_decodeExact (EncodeToString (replicate 32 (CHR ''v''))) 32"
  by code_simp

lemma demo_broken_sel:
  "sc_ProtocolVersion demo_broken = sc_ProtocolVersion demo_challenge" "sc_RelayFingerprint demo_broken = sc_RelayFingerprint demo_challenge"
  "sc_ChallengeID demo_broken = sc_ChallengeID demo_challenge" "sc_SubjectType demo_broken = sc_SubjectType demo_challenge"
  "sc_SubjectID demo_broken = sc_SubjectID demo_challenge" "sc_TenantID demo_broken = sc_TenantID demo_challenge"
  "sc_HostID demo_broken = sc_HostID demo_challenge" "sc_DeviceID demo_broken = sc_DeviceID demo_challenge"
  "sc_Purpose demo_broken = sc_Purpose demo_challenge" "sc_IssuedAt demo_broken = sc_IssuedAt demo_challenge"
  "sc_ExpiresAt demo_broken = sc_ExpiresAt demo_challenge" "sc_RelaySignature demo_broken = sc_RelaySignature demo_challenge"
  "auth_decodeExact (sc_Challenge demo_broken) credentialBytes = auth_decodeExact (sc_Challenge demo_challenge) credentialBytes"
  using demo_line_break by (simp_all add: demo_broken_def demo_challenge_def credentialBytes_def)

lemma demo_broken_ok: "challengeTranscript demo_broken = Inr demo_transcript" "proofTranscript demo_broken demo_transcript = Inr demo_proof"
  using demo_transcript_ok demo_proof_ok unfolding challengeTranscript_def proofTranscript_def demo_broken_sel by simp_all

lemma demo_broken_differs: "sc_Challenge demo_broken \<noteq> sc_Challenge demo_challenge"
proof -
  have "length (sc_Challenge demo_broken) = length (sc_Challenge demo_challenge) + 1"
    by (simp add: demo_broken_def)
  then show ?thesis by auto
qed

theorem proof_binds_challenge_witness:
  "sc_Challenge demo_broken \<noteq> sc_Challenge demo_challenge \<and>
   proofTranscript demo_broken demo_transcript = proofTranscript demo_challenge demo_transcript \<and>
   signed_content demo_broken = signed_content demo_challenge"
proof -
  have "int64_times demo_broken" "int64_times demo_challenge"
    by (simp_all add: int64_times_def int64_range_def demo_challenge_def demo_broken_def)
  from proof_binds_challenge [OF demo_broken_ok(1) demo_transcript_ok demo_broken_ok(2) demo_proof_ok this]
  show ?thesis using demo_broken_differs demo_broken_ok demo_proof_ok by simp
qed

theorem ConsumeTicket_accepts_witness:
  "fst (ConsumeTicket demo_crypto (Some \<lparr>as_store = True, as_signer = None\<rparr>) 0 no_faults
     (EncodeToString (replicate 32 (CHR ''k''))) demo_scope
     (demo_db\<lparr>auth_tickets := [issued_ticket demo_crypto demo_scope 0 (replicate 32 (CHR ''k''))]\<rparr>)) = Inr ()"
proof -
  let ?d = "demo_db\<lparr>auth_tickets := [issued_ticket demo_crypto demo_scope 0 (replicate 32 (CHR ''k''))]\<rparr>"
  have "db_inv ?d" using demo_inv by (simp add: db_inv_defs)
  from ConsumeTicket_accepts [OF this, of demo_crypto "\<lparr>as_store = True, as_signer = None\<rparr>" 0
        "EncodeToString (replicate 32 (CHR ''k''))" demo_scope] demo_scope_ok
  show ?thesis
    by (simp add: Let_def credentialBytes_def issued_ticket_def demo_scope_def UnixMilli_def demo_db_def empty_db_def
        demo_key_def maxLifetime_ms_def maxLifetime_def Second_def Millisecond_def)
qed

section \<open>Concrete instances for tenants and hosts\<close>

lemma tx_bind_weak_cong: "m = m' \<Longrightarrow> tx_bind m f = tx_bind m' f"
  by simp

lemma demo_secret:
  "GenerateToken (demo_rand c) n = Inr (EncodeToString (replicate (nat (max 16 n)) c))"
  by (simp add: GenerateToken_def demo_rand_def max_def)

lemma demo_hash: "\<exists>h. HashSecret demo_crypto (demo_rand c) (EncodeToString (replicate 32 c')) = Inr h"
  by (simp add: HashSecret_def demo_secret)

lemma demo_trim_T: "TrimSpace ''T'' = ''T''"
  by (simp add: TrimSpace_def space_runes_def strip_front.simps strip_back_def HasPrefix_def)

theorem Create_then_use_witness:
  "\<exists>t secret d'. Create demo_crypto (demo_rand (CHR ''a'')) (demo_rand (CHR ''b'')) (demo_rand (CHR ''c''))
      0 no_faults ''T'' empty_db = (Inr (t, secret), d') \<and>
    length (TenantID t) = 36 \<and>
    (\<exists>t'. GetTenant no_faults (TenantID t) d' = (Inr t', d') \<and>
      VerifySecretHash demo_crypto (SecretHash t') secret)"
proof -
  obtain h where "HashSecret demo_crypto (demo_rand (CHR ''c'')) (EncodeToString (replicate 32 (CHR ''b''))) = Inr h"
    using demo_hash by blast
  then obtain t secret d' where run: "Create demo_crypto (demo_rand (CHR ''a'')) (demo_rand (CHR ''b''))
      (demo_rand (CHR ''c'')) 0 no_faults ''T'' empty_db = (Inr (t, secret), d')"
    by (simp add: Create_def Let_def tx_simps demo_secret demo_trim_T insert_tenant_def empty_db_def demo_rand_def
        cong: tx_bind_weak_cong)
  have "rand_fills (demo_rand (CHR ''a''))" by (simp add: rand_fills_def demo_rand_def)
  from Create_then_use [OF run this] run show ?thesis by blast
qed

definition demo_key2 :: string where
  "demo_key2 = ''BF7L5NGmMwpEyPfvlR1L8WXmxrch762phftBZhvG5_1shzRkDEmY_343SwbOGmSi7NgqsDY4T7g9mnmxJ6J9UDI''"

definition demo_enrollment :: enrollment where
  "demo_enrollment = \<lparr>en_TenantID = ''t'', en_HostID = ''T'', en_DisplayName = ''h'',
     en_SigningPublicKey = demo_key, en_AgreementPublicKey = demo_key2, en_KeyVersion = 1\<rparr>"

lemma demo_key2_valid: "isl (DecodeSEC1PublicKey demo_key2) = False"
  by code_simp

lemma demo_key2_strict: "isl (auth_decodeExact demo_key2 65) = False"
  by code_simp

lemma validStrictSEC1_I:
  assumes "isl (DecodeSEC1PublicKey k) = False" "isl (auth_decodeExact k 65) = False"
  shows "host_validStrictSEC1 k"
proof -
  obtain bs p where "auth_decodeExact k 65 = Inr bs" "DecodeSEC1PublicKey k = Inr p"
    using assms by (cases "auth_decodeExact k 65"; cases "DecodeSEC1PublicKey k") auto
  then show ?thesis by (simp add: auth_decodeExact_ok host_validStrictSEC1_def)
qed

lemmas demo_keys_valid = validStrictSEC1_I [OF demo_key_valid] validStrictSEC1_I [OF demo_key2_valid demo_key2_strict]

theorem EnrollHost_pins_witness:
  "(\<exists>h d'. EnrollHost 0 no_faults demo_enrollment demo_db = (Inr h, d') \<and> ht_HostID h = ''T'' \<and>
     ht_SigningPublicKey h = demo_key \<and> ht_Enabled h) \<and>
   (\<exists>e. EnrollHost 0 no_faults (demo_enrollment\<lparr>en_HostID := ''h'', en_SigningPublicKey := demo_key2\<rparr>) demo_db =
     (Inl e, demo_db))"
proof -
  have keys: "demo_key \<noteq> demo_key2" by (simp add: demo_key_def demo_key2_def)
  then obtain h d' where run: "EnrollHost 0 no_faults demo_enrollment demo_db = (Inr h, d')"
    by (simp add: EnrollHost_def Let_def tx_simps demo_trim demo_trim_T demo_keys_valid demo_enrollment_def
        demo_db_def empty_db_def in_transaction_def enroll_body_def insert_host_or_ignore_def ho_key_def
        GetHost_def cong: tx_bind_weak_cong)
  have "ht_HostID h = ''T'' \<and> ht_SigningPublicKey h = demo_key \<and> ht_Enabled h"
    using EnrollHost_pins [OF demo_inv, of 0 no_faults demo_enrollment] run
    by (auto simp: demo_enrollment_def demo_trim_T)
  moreover have "\<exists>e. EnrollHost 0 no_faults (demo_enrollment\<lparr>en_HostID := ''h'', en_SigningPublicKey := demo_key2\<rparr>) demo_db =
     (Inl e, demo_db)"
    by (intro EnrollHost_conflict [OF demo_inv, of "hd (hosts demo_db)"])
      (use keys in \<open>simp_all add: demo_db_def empty_db_def demo_enrollment_def demo_trim enrolled_as_def\<close>)
  ultimately show ?thesis using run by blast
qed

end
