(* ===== verification/Demo_Pairing.thy ===== *)
theory Demo_Pairing
  imports Services Demo
begin

text \<open>
  Concrete instances of the statements about pairing and about runs of the services: an invite, a
  claim for it and its approval, on the relay of the previous theory.
\<close>

definition demo_pdb :: db where
  "demo_pdb = demo_db\<lparr>pairing_invites := [\<lparr>iv_tenant_id = ''t'', iv_host_id = ''h'', iv_invite_id = ''i'',
     iv_status = ClaimPending, iv_created_at = 0, iv_expires_at = 100000, iv_consumed_at = None\<rparr>]\<rparr>"

definition demo_header :: pairing_claim_header where
  "demo_header = \<lparr>ph_InviteID = ''i'', ph_TenantID = ''t'', ph_HostID = ''h'', ph_ClaimID = ''c'',
     ph_DeviceID = ''v'', ph_DeviceAgreementPublicKey = demo_key2, ph_DeviceKeyVersion = 1,
     ph_ClientNonce = EncodeToString (replicate 32 (CHR ''n'')), ph_CiphertextLength = 16\<rparr>"

definition demo_submit :: submit_claim_request where
  "demo_submit = \<lparr>sr_Header = demo_header, sr_Nonce = EncodeToString (replicate 12 (CHR ''n'')),
     sr_Ciphertext = EncodeToString (replicate 16 (CHR ''x''))\<rparr>"

definition demo_approval :: approve_claim_request where
  "demo_approval = \<lparr>ar_TenantID = ''t'', ar_HostID = ''h'', ar_ClaimID = ''c'',
     ar_DeviceSigningPublicKey = demo_key, ar_DeviceAgreementPublicKey = demo_key2,
     ar_DeviceKeyVersion = 1, ar_BindingVersion = 1,
     ar_ApprovalHeader = EncodeToString (replicate 8 (CHR ''a'')),
     ar_ApprovalNonce = EncodeToString (replicate 12 (CHR ''n'')),
     ar_ApprovalCiphertext = EncodeToString (replicate 16 (CHR ''x''))\<rparr>"

lemma demo_identifiers:
  "validIdentifier ''i''" "validIdentifier ''t''" "validIdentifier ''h''" "validIdentifier ''c''" "validIdentifier ''v''"
  by (simp_all add: validIdentifier_def maxIdentifierBytes_def TrimSpace_def space_runes_def strip_front.simps
      strip_back_def HasPrefix_def)

lemma decodeStrict_Encode: "bs \<noteq> [] \<Longrightarrow> decodeStrict (EncodeToString bs) = Inr bs"
  by (simp add: decodeStrict_def DecodeString_EncodeToString)

lemma decodeExact_Encode: "bs \<noteq> [] \<Longrightarrow> decodeExact (EncodeToString bs) (length bs) = Inr bs"
  by (simp add: decodeExact_def decodeStrict_Encode)

lemma strict_key:
  assumes "isl (DecodeSEC1PublicKey k) = False" "isl (auth_decodeExact k 65) = False"
  shows "validStrictSEC1 k"
proof -
  obtain bs p where *: "auth_decodeExact k 65 = Inr bs" "DecodeSEC1PublicKey k = Inr p"
    using assms by (cases "auth_decodeExact k 65"; cases "DecodeSEC1PublicKey k") auto
  obtain bs' where "RawURLDecode k = Some bs'" "Unmarshal bs' = Some p"
    using DecodeSEC1PublicKey_ok [OF *(2)] by blast
  moreover have "RawURLDecode k = Some bs"
    using *(1) strict_imp_lenient by (auto simp: auth_decodeExact_ok)
  ultimately have "hd bs = CHR 0x04" using Unmarshal_ok(2) [of bs' p] by simp
  then show ?thesis
    using * decodeExact_ok [of k 65 bs] by (simp add: validStrictSEC1_def is_ok_def)
qed

lemmas demo_sec1 = strict_key [OF demo_key_valid] strict_key [OF demo_key2_valid demo_key2_strict]

lemma demo_submit_ok: "validateClaimSubmission demo_submit = Inr ()"
  using decodeExact_Encode [of "replicate 32 (CHR ''n'')"] decodeExact_Encode [of "replicate 12 (CHR ''n'')"]
  by (simp add: validateClaimSubmission_def demo_submit_def demo_header_def demo_identifiers demo_sec1
      clientNonceBytes_def claimNonceBytes_def is_ok_def decodeStrict_Encode maxOpaqueCiphertextBytes_def)

lemma demo_approval_ok: "validateApproval demo_approval = Inr ()"
proof -
  have "demo_key \<noteq> demo_key2" by (simp add: demo_key_def demo_key2_def)
  then show ?thesis
    using decodeExact_Encode [of "replicate 12 (CHR ''n'')"]
    by (simp add: validateApproval_def demo_approval_def demo_identifiers demo_sec1
      claimNonceBytes_def is_ok_def decodeStrict_Encode maxOpaqueCiphertextBytes_def maxOpaqueHeaderBytes_def)
qed

lemma demo_header_len: "int (length (marshal_header demo_header)) \<le> maxOpaqueHeaderBytes"
  by code_simp

lemma demo_header_storable: "header_storable demo_header"
  by code_simp

lemma demo_pairing_ok: "pairing_ok demo_pdb"
  by (simp add: demo_pdb_def demo_db_def empty_db_def db_inv_defs key_defs pairing_ok_def pairing_inv_def)

definition demo_claim :: created_claim where
  "demo_claim = \<lparr>cc_ClaimID = ''c'', cc_ClaimAccessToken = EncodeToString (replicate 32 (CHR ''k'')),
     cc_Status = ClaimPending, cc_ExpiresAt = 100000\<rparr>"

lemma demo_submitted:
  obtains d1 where "SubmitClaim demo_crypto (demo_rand (CHR ''k'')) 0 no_faults demo_submit demo_pdb = (Inr demo_claim, d1)"
proof -
  have "\<exists>d1. SubmitClaim demo_crypto (demo_rand (CHR ''k'')) 0 no_faults demo_submit demo_pdb = (Inr demo_claim, d1)"
    using SubmitClaim_run [of demo_pdb demo_submit "demo_rand (CHR ''k'')" "replicate 32 (CHR ''k'')"
        "hd (pairing_invites demo_pdb)" 0 demo_crypto] demo_submit_ok demo_header_len demo_pairing_ok
    by (simp add: demo_rand_def claimAccessTokenBytes_def demo_pdb_def demo_submit_def demo_header_def UnixMilli_def
        demo_db_def empty_db_def host_active_def tenant_enabled_def pairing_ok_def demo_claim_def)
  then show thesis using that by blast
qed

definition demo_row :: claim_row where
  "demo_row = \<lparr>cl_claim_id = ''c'', cl_invite_id = ''i'', cl_tenant_id = ''t'', cl_host_id = ''h'',
     cl_device_id = ''v'', cl_header_json = marshal_header demo_header, cl_nonce = sr_Nonce demo_submit,
     cl_ciphertext = sr_Ciphertext demo_submit, cl_access_token_hash = replicate 32 (CHR ''k''),
     cl_status = ClaimPending, cl_device_signing_public_key = None, cl_device_agreement_public_key = None,
     cl_device_key_version = None, cl_binding_version = None, cl_approval_header = None,
     cl_approval_nonce = None, cl_approval_ciphertext = None, cl_created_at = 0, cl_updated_at = 0,
     cl_expires_at = 100000, cl_consumed_at = None\<rparr>"

definition demo_cdb :: db where
  "demo_cdb = demo_pdb\<lparr>pairing_claims := [demo_row]\<rparr>"

lemmas demo_state_defs = demo_cdb_def demo_row_def demo_pdb_def demo_db_def empty_db_def

lemma demo_cdb_ok: "pairing_ok demo_cdb"
  by (simp add: demo_state_defs db_inv_defs key_defs pairing_ok_def pairing_inv_def)

lemma demo_fields [simp]:
  "ar_TenantID demo_approval = ''t''" "ar_HostID demo_approval = ''h''" "ar_ClaimID demo_approval = ''c''"
  "ar_DeviceSigningPublicKey demo_approval = demo_key" "ar_DeviceAgreementPublicKey demo_approval = demo_key2"
  "ar_DeviceKeyVersion demo_approval = 1" "sr_Header demo_submit = demo_header"
  "ph_TenantID demo_header = ''t''" "ph_HostID demo_header = ''h''" "ph_DeviceID demo_header = ''v''"
  "ph_DeviceAgreementPublicKey demo_header = demo_key2" "ph_DeviceKeyVersion demo_header = 1"
  "cc_ClaimID demo_claim = ''c''" "cc_ExpiresAt demo_claim = 100000" "cl_device_id demo_row = ''v''"
  "devices demo_pdb = []" "UnixMilli Second = 1000"
  by (simp_all add: demo_approval_def demo_submit_def demo_header_def demo_claim_def demo_row_def
      demo_pdb_def demo_db_def empty_db_def UnixMilli_def Second_def Millisecond_def)

lemma demo_rand_fills: "rand_fills (demo_rand c)"
  by (simp add: rand_fills_def demo_rand_def)

lemma demo_approved:
  obtains d' where "ApproveClaim demo_crypto 0 no_faults demo_approval demo_cdb = (Inr (), d')"
proof -
  have "unmarshal_header (cl_header_json demo_row) = Some demo_header"
    by (simp add: demo_row_def unmarshal_header_stored demo_header_storable)
  then have "\<exists>d'. approve_body demo_crypto no_faults 0 demo_approval demo_cdb = (Inr (), d')"
    using approve_body_first [of demo_cdb demo_approval demo_row 0 demo_header "hd (pairing_invites demo_cdb)" demo_crypto]
      demo_cdb_ok demo_approval_ok
    by (auto simp: pairing_ok_def demo_state_defs demo_approval_def demo_header_def key_defs)
  then show thesis
    using that unfolding ApproveClaim_def
    by (auto simp: tx_bind_run tx_run demo_approval_ok in_transaction_def UnixMilli_def)
qed

theorem pairing_completes_witness:
  "\<exists>d1 d2 dev. SubmitClaim demo_crypto (demo_rand (CHR ''k'')) 0 no_faults demo_submit demo_pdb = (Inr demo_claim, d1) \<and>
    ApproveClaim demo_crypto Second no_faults demo_approval d1 = (Inr (), d2) \<and>
    GetDevice no_faults ''t'' ''h'' ''v'' d2 = (Inr dev, d2) \<and> de_SigningPublicKey dev = demo_key"
proof (rule demo_submitted)
  fix d1
  assume run: "SubmitClaim demo_crypto (demo_rand (CHR ''k'')) 0 no_faults demo_submit demo_pdb = (Inr demo_claim, d1)"
  have "header_storable (sr_Header demo_submit)" by (simp add: demo_submit_def demo_header_storable)
  from pairing_completes [OF demo_pairing_ok run demo_rand_fills this demo_approval_ok, of Second Second] run
  show ?thesis by auto
qed

theorem ApproveClaim_idempotent_witness:
  "\<exists>d'. ApproveClaim demo_crypto 0 no_faults demo_approval demo_cdb = (Inr (), d') \<and>
    ApproveClaim demo_crypto Second no_faults demo_approval d' = (Inr (), expire 1000 d') \<and>
    ApproveClaim demo_crypto Second no_faults (demo_approval\<lparr>ar_BindingVersion := 2\<rparr>) d' = (Inl ''approval_conflict'', d')"
proof (rule demo_approved)
  fix d'
  assume run: "ApproveClaim demo_crypto 0 no_faults demo_approval demo_cdb = (Inr (), d')"
  have "validateApproval (demo_approval\<lparr>ar_BindingVersion := 2\<rparr>) = Inr ()"
    using demo_approval_ok by (auto simp: validateApproval_def split: if_splits sum.splits)
  moreover have "ar_BindingVersion demo_approval \<noteq> 2" by (simp add: demo_approval_def)
  ultimately show ?thesis using ApproveClaim_idempotent [OF run, of Second] run by (auto simp: UnixMilli_def Second_def Millisecond_def)
qed

theorem ApproveClaim_binds_witness:
  "\<exists>d'. ApproveClaim demo_crypto 0 no_faults demo_approval demo_cdb = (Inr (), d') \<and>
    (\<exists>v\<in>set (devices d'). dv_key v = (''t'', ''h'', ''v'') \<and> dv_revoked v = 0 \<and> dv_signing_public_key v = demo_key)"
proof (rule demo_approved)
  fix d'
  assume run: "ApproveClaim demo_crypto 0 no_faults demo_approval demo_cdb = (Inr (), d')"
  have f: "find_claim (ar_TenantID demo_approval) (ar_HostID demo_approval) (ar_ClaimID demo_approval) demo_cdb = Some demo_row"
    "cl_status demo_row = ClaimPending"
    by (simp_all add: find_claim_def demo_approval_def demo_state_defs)
  with ApproveClaim_binds [OF demo_cdb_ok run f] run show ?thesis by auto
qed

lemma demo_trim_i: "TrimSpace ''i'' = ''i''" "TrimSpace '' i'' = ''i''" "TrimSpace ''c'' = ''c''"
  by (simp_all add: TrimSpace_def space_runes_def strip_front.simps strip_back_def HasPrefix_def)

lemma demo_not_due: "expire 0 demo_cdb = demo_cdb"
  by (simp add: expire_def demo_state_defs)

theorem CancelInvite_padded_witness:
  "\<exists>d'. CancelInvite 0 no_faults ''t'' ''h'' '' i'' demo_cdb = (Inr (), d') \<and> demo_row \<in> set (pairing_claims d') \<and>
    cl_status demo_row = ClaimPending"
proof -
  let ?r = "hd (pairing_invites demo_cdb)"
  have "\<exists>d'. CancelInvite 0 no_faults ''t'' ''h'' '' i'' demo_cdb = (Inr (), d') \<and> demo_row \<in> set (pairing_claims d') \<and>
    (\<exists>r'. find_invite ''t'' ''h'' (TrimSpace '' i'') d' = Some r' \<and> iv_status r' = ClaimCancelled)"
    by (rule CancelInvite_padded [of demo_cdb _ _ _ ?r])
      (use demo_cdb_ok in \<open>simp_all add: demo_trim demo_trim_i pairing_ok_def demo_state_defs find_invite_def cl_invite_def UnixMilli_def\<close>)
  moreover have "cl_status demo_row = ClaimPending" by (simp add: demo_row_def)
  ultimately show ?thesis by blast
qed

definition demo_vdb :: db where
  "demo_vdb = demo_db\<lparr>devices := [bound_device 0 demo_approval ''v'']\<rparr>"

lemma demo_vdb_ok: "db_inv demo_vdb"
  by (simp add: demo_vdb_def demo_db_def empty_db_def db_inv_defs key_defs bound_device_def)

theorem RevokeDevice_effective_witness:
  "\<exists>d'. RevokeDevice no_faults ''t'' ''h'' ''v'' demo_vdb = (Inr (), d') \<and>
    GetDevice no_faults ''t'' ''h'' ''v'' d' = (Inl ''device_revoked'', d')"
proof -
  have "\<exists>d'. RevokeDevice no_faults ''t'' ''h'' ''v'' demo_vdb = (Inr (), d')"
    by (simp add: RevokeDevice_def tx_bind_run tx_run update_devices_def affected_def)
      (simp add: demo_vdb_def bound_device_def)
  then show ?thesis using RevokeDevice_effective [OF demo_vdb_ok] by blast
qed

lemma demo_rejected:
  obtains d' where "RejectClaim 0 no_faults ''t'' ''h'' ''c'' demo_cdb = (Inr (), d')"
proof -
  have "\<exists>d'. RejectClaim 0 no_faults ''t'' ''h'' ''c'' demo_cdb = (Inr (), d')"
    unfolding RejectClaim_def Let_def demo_trim demo_trim_i
    by (simp add: tx_bind_run tx_run in_transaction_def expire_run UnixMilli_def demo_not_due table_update_defs affected_def)
      (simp add: demo_state_defs)
  then show thesis using that by blast
qed

theorem pairing_errors_leave_no_trace_witness:
  "(\<exists>x. RejectClaim 0 (\<lambda>i. i = 3) ''t'' ''h'' ''c'' demo_cdb = (Inl x, demo_cdb)) \<and>
   RevokeDevice no_faults ''t'' ''h'' ''x'' demo_vdb = (Inl ''device_not_found'', demo_vdb)"
proof -
  obtain x d' where run: "RejectClaim 0 (\<lambda>i. i = 3) ''t'' ''h'' ''c'' demo_cdb = (Inl x, d')"
    unfolding RejectClaim_def Let_def expirePending_def
    by (simp add: tx_bind_run tx_run in_transaction_def table_update_defs)
  then have "d' = demo_cdb" using pairing_errors_leave_no_trace by blast
  moreover obtain d2 where revoke: "RevokeDevice no_faults ''t'' ''h'' ''x'' demo_vdb = (Inl ''device_not_found'', d2)"
    by (simp add: RevokeDevice_def tx_bind_run tx_run update_devices_def affected_def demo_vdb_def bound_device_def)
  then have "d2 = demo_vdb"
    using pairing_errors_leave_no_trace [where flt = no_faults and t = "''t''" and h = "''h''" and v = "''x''" and d = demo_vdb] demo_vdb_ok
    by simp
  ultimately show ?thesis using run revoke by blast
qed

section \<open>Concrete runs\<close>

theorem reachable_state_ok_witness:
  "\<exists>d. service_run demo_crypto empty_db d \<and> tenants d \<noteq> [] \<and> db_inv d"
proof -
  obtain h where "HashSecret demo_crypto (demo_rand (CHR ''c'')) (EncodeToString (replicate 32 (CHR ''b''))) = Inr h"
    using demo_hash by blast
  then obtain res d where run: "Create demo_crypto (demo_rand (CHR ''a'')) (demo_rand (CHR ''b''))
      (demo_rand (CHR ''c'')) 0 no_faults ''T'' empty_db = (res, d)" and "tenants d \<noteq> []"
    by (simp add: Create_def Let_def tx_simps demo_secret demo_trim_T insert_tenant_def empty_db_def demo_rand_def
        cong: tx_bind_weak_cong)
  have "service_run demo_crypto empty_db d"
    unfolding service_run_def by (rule r_into_rtranclp) (rule service_step.call [OF service_call.create [OF run]])
  with reachable_state_ok [OF this] \<open>tenants d \<noteq> []\<close> show ?thesis by blast
qed

lemma demo_pairing_inv: "pairing_ok demo_db" "pairing_ok demo_db1"
  using demo_inv by (simp_all add: pairing_ok_def demo_db_def demo_db1_def empty_db_def pairing_inv_def db_inv_defs)

theorem ticket_at_most_once_witness:
  "\<exists>d1 e. ConsumeTicket demo_crypto demo_service 0 no_faults (EncodeToString (replicate 32 (CHR ''k''))) demo_scope
     (demo_db\<lparr>auth_tickets := [issued_ticket demo_crypto demo_scope 0 (replicate 32 (CHR ''k''))]\<rparr>) = (Inr (), d1) \<and>
   fst (ConsumeTicket demo_crypto demo_service Second no_faults (EncodeToString (replicate 32 (CHR ''k''))) demo_scope d1) = Inl e"
proof -
  let ?v = "replicate 32 (CHR ''k'')"
  let ?d = "demo_db\<lparr>auth_tickets := [issued_ticket demo_crypto demo_scope 0 ?v]\<rparr>"
  have ok: "pairing_ok ?d" using demo_pairing_inv(1) by (simp add: pairing_ok_def pairing_inv_def db_inv_defs)
  have "subject_live ?d ''t'' ''host'' ''h'' ''h''"
    by (simp add: subject_live_def demo_db_def empty_db_def tenant_enabled_def demo_key_def)
  then have "affected (ticket_matches ?d demo_scope (sha256 demo_crypto ?v) 0) (auth_tickets ?d) = 1"
    by (simp add: affected_def ticket_matches_def issued_ticket_def demo_scope_def maxLifetime_ms_def
        maxLifetime_def Second_def Millisecond_def)
  then have "\<exists>d1. ConsumeTicket demo_crypto demo_service 0 no_faults (EncodeToString ?v) demo_scope ?d = (Inr (), d1)"
    using demo_scope_ok by (simp add: ConsumeTicket_ok demo_service_def credentialBytes_def UnixMilli_def)
  then obtain d1 where run: "ConsumeTicket demo_crypto demo_service 0 no_faults (EncodeToString ?v) demo_scope ?d = (Inr (), d1)"
    by blast
  have "service_run demo_crypto d1 d1" by (simp add: service_run_def)
  with ticket_at_most_once [OF ok run, of d1 demo_service Second no_faults demo_scope] run show ?thesis by blast
qed

theorem challenge_at_most_once_witness:
  "\<exists>t d2 e. Prove demo_crypto demo_service (demo_rand (CHR ''k'')) 0 no_faults
      \<lparr>pr_Challenge = demo_challenge, pr_SubjectSignature = demo_sig\<rparr> demo_db1 = (Inr t, d2) \<and>
    fst (Prove demo_crypto demo_service (demo_rand (CHR ''m'')) Second no_faults
      \<lparr>pr_Challenge = demo_challenge, pr_SubjectSignature = demo_sig\<rparr> d2) = Inl e"
proof (rule demo_proved)
  fix d2 t
  assume run: "Prove demo_crypto demo_service (demo_rand (CHR ''k'')) 0 no_faults
      \<lparr>pr_Challenge = demo_challenge, pr_SubjectSignature = demo_sig\<rparr> demo_db1 = (Inr t, d2)"
  have "service_run demo_crypto d2 d2" by (simp add: service_run_def)
  with challenge_at_most_once [OF demo_pairing_inv(2) run, of d2
      "\<lparr>pr_Challenge = demo_challenge, pr_SubjectSignature = demo_sig\<rparr>" demo_service "demo_rand (CHR ''m'')" Second no_faults]
    run show ?thesis by auto
qed

theorem identities_pinned_witness:
  "\<exists>d'. RevokeDevice no_faults ''t'' ''h'' ''v'' demo_vdb = (Inr (), d') \<and>
    host_identity ` set (hosts demo_vdb) \<subseteq> host_identity ` set (hosts d')"
proof -
  have "\<exists>d'. RevokeDevice no_faults ''t'' ''h'' ''v'' demo_vdb = (Inr (), d')"
    by (simp add: RevokeDevice_def tx_bind_run tx_run update_devices_def affected_def)
      (simp add: demo_vdb_def bound_device_def)
  then obtain d' where run: "RevokeDevice no_faults ''t'' ''h'' ''v'' demo_vdb = (Inr (), d')" by blast
  have "service_run demo_crypto demo_vdb d'"
    unfolding service_run_def by (rule r_into_rtranclp) (rule service_step.revoke [OF run])
  from identities_pinned [OF this] run show ?thesis by blast
qed

theorem claims_settle_once_witness:
  "\<exists>d' c'. RejectClaim 0 no_faults ''t'' ''h'' ''c'' demo_cdb = (Inr (), d') \<and> c' \<in> set (pairing_claims d') \<and>
    (c' = demo_row \<or> claim_step demo_row c')"
proof (rule demo_rejected)
  fix d'
  assume run: "RejectClaim 0 no_faults ''t'' ''h'' ''c'' demo_cdb = (Inr (), d')"
  have "service_run demo_crypto demo_cdb d'"
    unfolding service_run_def by (rule r_into_rtranclp) (rule service_step.call [OF service_call.reject [OF run]])
  from claims_settle_once [OF this, of demo_row] run show ?thesis by (auto simp: demo_cdb_def)
qed

end
