(* ===== verification/Envelope.thy ===== *)
theory Envelope
  imports Canonical Json "HOL-Library.Signed_Division"
begin

text \<open>
  The frames devices and hosts exchange through the relay (\<open>internal/protocol/envelope.go\<close>): the size
  limits, the strict reading of one JSON object, and the four kinds of frame. The relay sees a
  frame's route and sizes; the ciphertext stays opaque.
\<close>

section \<open>Constants and data\<close>

abbreviation (input) DirectionWindowsToMobile :: string where "DirectionWindowsToMobile \<equiv> ''windows_to_mobile''"
abbreviation (input) DirectionMobileToWindows :: string where "DirectionMobileToWindows \<equiv> ''mobile_to_windows''"
abbreviation (input) FrameClientHello :: string where "FrameClientHello \<equiv> ''session.client_hello''"
abbreviation (input) FrameServerHello :: string where "FrameServerHello \<equiv> ''session.server_hello''"
abbreviation (input) FrameConfirmation :: string where "FrameConfirmation \<equiv> ''session.confirmation''"
abbreviation (input) FrameEnvelope :: string where "FrameEnvelope \<equiv> ''session.envelope''"

definition MaxBusinessPlaintextBytes :: int where "MaxBusinessPlaintextBytes = 11 * 1024 * 1024"
definition GCMTagBytes :: int where "GCMTagBytes = 16"
definition MaxWireFrameBytes :: int where "MaxWireFrameBytes = 15444672"
definition MaxEncryptedSequence :: int where "MaxEncryptedSequence = 2 ^ 32 - 1"
definition MaxInt64 :: int where "MaxInt64 = 2 ^ 63 - 1"

record relay_frame =
  rf_ProtocolVersion :: int
  rf_FrameType :: string
  rf_SessionID :: string
  rf_TenantID :: string
  rf_HostID :: string
  rf_DeviceID :: string
  rf_Direction :: string
  rf_BindingVersion :: int
  rf_KeyVersion :: int
  rf_EphemeralKey :: string
  rf_Nonce :: string
  rf_CreatedAt :: int
  rf_Signature :: string
  rf_SenderRole :: string
  rf_Confirmation :: string
  rf_Kind :: string
  rf_MessageID :: string
  rf_Sequence :: int
  rf_PayloadEncoding :: string
  rf_Ciphertext :: string

definition zero_frame :: relay_frame where
  "zero_frame = \<lparr>rf_ProtocolVersion = 0, rf_FrameType = [], rf_SessionID = [], rf_TenantID = [],
     rf_HostID = [], rf_DeviceID = [], rf_Direction = [], rf_BindingVersion = 0, rf_KeyVersion = 0,
     rf_EphemeralKey = [], rf_Nonce = [], rf_CreatedAt = 0, rf_Signature = [], rf_SenderRole = [],
     rf_Confirmation = [], rf_Kind = [], rf_MessageID = [], rf_Sequence = 0, rf_PayloadEncoding = [],
     rf_Ciphertext = []\<rparr>"

section \<open>Sizes\<close>

definition EffectiveMessageBytes :: "int \<Rightarrow> int" where
  "EffectiveMessageBytes configured =
     (if configured < 0 then MaxBusinessPlaintextBytes
      else if configured > MaxBusinessPlaintextBytes then MaxBusinessPlaintextBytes
      else configured)"

definition EncodedLength :: "int \<Rightarrow> int" where
  "EncodedLength sz =
     wrap64 (4 * (sz sdiv 3) + (if sz smod 3 = 0 then 0 else sz smod 3 + 1))"

definition WireFrameLimit :: "int \<Rightarrow> int" where
  "WireFrameLimit configured =
     (let limit = EncodedLength (EffectiveMessageBytes configured + GCMTagBytes) + 64 * 1024 in
      if limit > MaxWireFrameBytes then MaxWireFrameBytes else limit)"

section \<open>Members\<close>

type_synonym members = "(string \<times> string) list"

definition requireKeys :: "members \<Rightarrow> string list \<Rightarrow> unit result" where
  "requireKeys values keys =
     res_check (\<not> (length values \<noteq> length keys \<or> list_ex (\<lambda>key. map_of values key = None) keys)) ''invalid_frame''"

definition requiredString :: "members \<Rightarrow> string \<Rightarrow> string result" where
  "requiredString values key =
     (case map_of values key of
        None \<Rightarrow> Inl ''invalid_frame''
      | Some raw \<Rightarrow>
          if raw = [] then Inl ''invalid_frame''
          else case unmarshal_string raw of
            None \<Rightarrow> Inl ''invalid_frame''
          | Some val \<Rightarrow> if \<not> utf8_valid val \<or> val = [] then Inl ''invalid_frame'' else Inr val)"

definition frame_identifier :: "members \<Rightarrow> string \<Rightarrow> string result" where
  "frame_identifier values key =
     res_bind (requiredString values key) (\<lambda>val.
     if length val > 128 \<or> TrimSpace val \<noteq> val then Inl ''invalid_frame'' else Inr val)"

text \<open>The pattern \<open>^(0|[1-9][0-9]*)$\<close>.\<close>

definition canonicalInteger :: "string \<Rightarrow> bool" where
  "canonicalInteger s \<longleftrightarrow>
     s = ''0'' \<or> s \<noteq> [] \<and> byte_in 0x31 0x39 (hd s) \<and> list_all is_digit (tl s)"

definition raw_text :: "members \<Rightarrow> string \<Rightarrow> string" where
  "raw_text values key = (case map_of values key of None \<Rightarrow> [] | Some raw \<Rightarrow> raw)"

definition boundedInt :: "members \<Rightarrow> string \<Rightarrow> int \<Rightarrow> int \<Rightarrow> int result" where
  "boundedInt values key minimum maximum =
     (let raw = raw_text values key in
      if \<not> canonicalInteger raw then Inl ''invalid_frame''
      else case ParseInt64 raw of
        None \<Rightarrow> Inl ''invalid_frame''
      | Some val \<Rightarrow> if val < minimum \<or> val > maximum then Inl ''invalid_frame'' else Inr val)"

definition boundedUint :: "members \<Rightarrow> string \<Rightarrow> int \<Rightarrow> int \<Rightarrow> int result" where
  "boundedUint values key minimum maximum =
     (let raw = raw_text values key in
      if \<not> canonicalInteger raw then Inl ''invalid_frame''
      else case ParseUint64 raw of
        None \<Rightarrow> Inl ''invalid_frame''
      | Some val \<Rightarrow> if val < minimum \<or> val > maximum then Inl ''invalid_frame'' else Inr val)"

definition positiveInt :: "members \<Rightarrow> string \<Rightarrow> int result" where
  "positiveInt values key = boundedInt values key 1 MaxInt64"

definition nonnegativeInt :: "members \<Rightarrow> string \<Rightarrow> int result" where
  "nonnegativeInt values key = boundedInt values key 0 MaxInt64"

definition decodeBase64 :: "string \<Rightarrow> bytes option" where
  "decodeBase64 val =
     (if CHR ''='' \<in> set val then None
      else case RawURLStrictDecode val of
        None \<Rightarrow> None
      | Some decoded \<Rightarrow> if EncodeToString decoded = val then Some decoded else None)"

definition validBase64 :: "string \<Rightarrow> nat \<Rightarrow> bool" where
  "validBase64 val len = (case decodeBase64 val of None \<Rightarrow> False | Some decoded \<Rightarrow> length decoded = len)"

section \<open>The strict object\<close>

text \<open>The members of the object the text consists of, in order; a repeated name ends the parse.\<close>

definition strictObject :: "string \<Rightarrow> members result" where
  "strictObject data =
     (case skip_space data of
        [] \<Rightarrow> Inl ''invalid_frame''
      | c # t \<Rightarrow>
          if c \<noteq> CHR ''{'' then Inl ''invalid_frame''
          else case json_members True t of
            None \<Rightarrow> Inl ''invalid_frame''
          | Some (ms, rest) \<Rightarrow>
              if \<not> distinct (map fst ms) \<or> skip_space rest \<noteq> [] then Inl ''invalid_frame'' else Inr ms)"

section \<open>Frames\<close>

definition parseRoute :: "members \<Rightarrow> relay_frame \<Rightarrow> relay_frame result" where
  "parseRoute values frame =
     res_bind (positiveInt values ''protocolVersion'') (\<lambda>ver.
     res_bind (res_check (ver = 1) ''invalid_frame'') (\<lambda>_.
     res_bind (requiredString values ''sessionId'') (\<lambda>session.
     res_bind (frame_identifier values ''tenantId'') (\<lambda>tenant.
     res_bind (frame_identifier values ''hostId'') (\<lambda>host.
     res_bind (frame_identifier values ''deviceId'') (\<lambda>device.
     res_bind (requiredString values ''direction'') (\<lambda>direction.
     if \<not> validBase64 session 32 \<or>
        direction \<noteq> DirectionMobileToWindows \<and> direction \<noteq> DirectionWindowsToMobile
     then Inl ''invalid_frame''
     else Inr (frame\<lparr>rf_ProtocolVersion := ver, rf_SessionID := session, rf_TenantID := tenant,
       rf_HostID := host, rf_DeviceID := device, rf_Direction := direction\<rparr>))))))))"

definition hello_keys :: "string list" where
  "hello_keys = [''protocolVersion'', ''frameType'', ''sessionId'', ''tenantId'', ''hostId'', ''deviceId'',
     ''direction'', ''bindingVersion'', ''keyVersion'', ''ephemeralPublicKey'', ''nonce'', ''createdAt'', ''signature'']"

definition parseHello :: "members \<Rightarrow> relay_frame \<Rightarrow> relay_frame result" where
  "parseHello values frame0 =
     res_bind (requireKeys values hello_keys) (\<lambda>_.
     res_bind (parseRoute values frame0) (\<lambda>frame.
     res_bind (positiveInt values ''bindingVersion'') (\<lambda>binding.
     res_bind (positiveInt values ''keyVersion'') (\<lambda>keyver.
     res_bind (requiredString values ''ephemeralPublicKey'') (\<lambda>ephemeral.
     res_bind (requiredString values ''nonce'') (\<lambda>nonce.
     res_bind (nonnegativeInt values ''createdAt'') (\<lambda>created.
     res_bind (requiredString values ''signature'') (\<lambda>signature.
     if \<not> validBase64 ephemeral 65 then Inl ''invalid_frame''
     else if isl (DecodeSEC1PublicKey ephemeral) then Inl ''invalid_frame''
     else if \<not> validBase64 nonce 32 \<or> \<not> validBase64 signature 64 then Inl ''invalid_frame''
     else if rf_FrameType frame = FrameClientHello \<and> rf_Direction frame \<noteq> DirectionMobileToWindows \<or>
             rf_FrameType frame = FrameServerHello \<and> rf_Direction frame \<noteq> DirectionWindowsToMobile
     then Inl ''invalid_frame''
     else Inr (frame\<lparr>rf_BindingVersion := binding, rf_KeyVersion := keyver, rf_EphemeralKey := ephemeral,
       rf_Nonce := nonce, rf_CreatedAt := created, rf_Signature := signature\<rparr>)))))))))"

definition confirmation_keys :: "string list" where
  "confirmation_keys = [''protocolVersion'', ''frameType'', ''sessionId'', ''tenantId'', ''hostId'', ''deviceId'',
     ''direction'', ''senderRole'', ''confirmation'']"

definition parseConfirmation :: "members \<Rightarrow> relay_frame \<Rightarrow> relay_frame result" where
  "parseConfirmation values frame0 =
     res_bind (requireKeys values confirmation_keys) (\<lambda>_.
     res_bind (parseRoute values frame0) (\<lambda>frame.
     res_bind (requiredString values ''senderRole'') (\<lambda>role.
     res_bind (requiredString values ''confirmation'') (\<lambda>confirmation.
     if \<not> validBase64 confirmation 32 \<or>
        role = ''android'' \<and> rf_Direction frame \<noteq> DirectionMobileToWindows \<or>
        role = ''windows'' \<and> rf_Direction frame \<noteq> DirectionWindowsToMobile \<or>
        role \<noteq> ''android'' \<and> role \<noteq> ''windows''
     then Inl ''invalid_frame''
     else Inr (frame\<lparr>rf_SenderRole := role, rf_Confirmation := confirmation\<rparr>)))))"

definition envelope_keys :: "string list" where
  "envelope_keys = [''protocolVersion'', ''frameType'', ''sessionId'', ''tenantId'', ''hostId'', ''deviceId'',
     ''direction'', ''kind'', ''messageId'', ''sequence'', ''createdAt'', ''payloadEncoding'', ''nonce'', ''ciphertext'']"

definition parseEnvelope :: "members \<Rightarrow> int \<Rightarrow> relay_frame \<Rightarrow> relay_frame result" where
  "parseEnvelope values configuredMax frame0 =
     res_bind (requireKeys values envelope_keys) (\<lambda>_.
     res_bind (parseRoute values frame0) (\<lambda>frame.
     res_bind (requiredString values ''kind'') (\<lambda>kind.
     res_bind (frame_identifier values ''messageId'') (\<lambda>message.
     res_bind (boundedUint values ''sequence'' 1 MaxEncryptedSequence) (\<lambda>sequence.
     res_bind (nonnegativeInt values ''createdAt'') (\<lambda>created.
     res_bind (requiredString values ''payloadEncoding'') (\<lambda>encoding.
     res_bind (requiredString values ''nonce'') (\<lambda>nonce.
     res_bind (requiredString values ''ciphertext'') (\<lambda>cipher.
     if encoding \<noteq> ''encrypted-json'' \<or> \<not> validBase64 nonce 12 then Inl ''invalid_frame''
     else case decodeBase64 cipher of
       None \<Rightarrow> Inl ''invalid_frame''
     | Some ciphertext \<Rightarrow>
         if int (length ciphertext) < GCMTagBytes \<or>
            int (length ciphertext) > EffectiveMessageBytes configuredMax + GCMTagBytes
         then Inl ''invalid_frame''
         else if rf_Direction frame = DirectionMobileToWindows \<and> kind \<noteq> ''rpc.request'' \<or>
                 rf_Direction frame = DirectionWindowsToMobile \<and> kind \<noteq> ''rpc.response'' \<and> kind \<noteq> ''event''
         then Inl ''invalid_frame''
         else Inr (frame\<lparr>rf_Kind := kind, rf_MessageID := message, rf_Sequence := sequence,
           rf_CreatedAt := created, rf_PayloadEncoding := encoding, rf_Nonce := nonce,
           rf_Ciphertext := cipher\<rparr>))))))))))"

definition ParseRelayFrame :: "string \<Rightarrow> int \<Rightarrow> relay_frame result" where
  "ParseRelayFrame data configuredMax =
     (if data = [] \<or> \<not> utf8_valid data then Inl ''invalid_frame''
      else
        res_bind (strictObject data) (\<lambda>raw.
        res_bind (requiredString raw ''frameType'') (\<lambda>frameType.
        let frame = zero_frame\<lparr>rf_FrameType := frameType\<rparr> in
        if frameType = FrameClientHello \<or> frameType = FrameServerHello then parseHello raw frame
        else if frameType = FrameConfirmation then parseConfirmation raw frame
        else if frameType = FrameEnvelope then parseEnvelope raw configuredMax frame
        else Inl ''invalid_frame'')))"

end
