(* ===== verification/Frames.thy ===== *)
theory Frames
  imports Envelope
begin

text \<open>
  What the frame parser promises: it accepts exactly the well-formed frames. \<open>frame_ok\<close> says
  what a frame of each kind must satisfy; parsing accepts nothing else, it accepts the canonical text
  of every such frame and reads the same frame back, and that text fits the limit of the socket.
\<close>

section \<open>Well-formed frames\<close>

definition ident_ok :: "string \<Rightarrow> bool" where
  "ident_ok v \<longleftrightarrow> v \<noteq> [] \<and> utf8_valid v \<and> length v \<le> 128 \<and> TrimSpace v = v"

definition base64_of :: "nat \<Rightarrow> string \<Rightarrow> bool" where
  "base64_of n v \<longleftrightarrow> (\<exists>bs. length bs = n \<and> v = EncodeToString bs)"

definition int_ok :: "int \<Rightarrow> bool" where
  "int_ok n \<longleftrightarrow> 0 \<le> n \<and> n \<le> MaxInt64"

definition route_ok :: "relay_frame \<Rightarrow> bool" where
  "route_ok f \<longleftrightarrow> rf_ProtocolVersion f = 1 \<and> base64_of 32 (rf_SessionID f) \<and> ident_ok (rf_TenantID f) \<and>
     ident_ok (rf_HostID f) \<and> ident_ok (rf_DeviceID f) \<and>
     (rf_Direction f = DirectionMobileToWindows \<or> rf_Direction f = DirectionWindowsToMobile)"

definition is_hello :: "relay_frame \<Rightarrow> bool" where
  "is_hello f \<longleftrightarrow> rf_FrameType f = FrameClientHello \<or> rf_FrameType f = FrameServerHello"

definition hello_ok :: "relay_frame \<Rightarrow> bool" where
  "hello_ok f \<longleftrightarrow>
     (rf_FrameType f = FrameClientHello \<longrightarrow> rf_Direction f = DirectionMobileToWindows) \<and>
     (rf_FrameType f = FrameServerHello \<longrightarrow> rf_Direction f = DirectionWindowsToMobile) \<and>
     0 < rf_BindingVersion f \<and> int_ok (rf_BindingVersion f) \<and> 0 < rf_KeyVersion f \<and> int_ok (rf_KeyVersion f) \<and>
     base64_of 65 (rf_EphemeralKey f) \<and> (\<exists>k. DecodeSEC1PublicKey (rf_EphemeralKey f) = Inr k) \<and>
     base64_of 32 (rf_Nonce f) \<and> int_ok (rf_CreatedAt f) \<and> base64_of 64 (rf_Signature f)"

definition confirmation_ok :: "relay_frame \<Rightarrow> bool" where
  "confirmation_ok f \<longleftrightarrow> base64_of 32 (rf_Confirmation f) \<and>
     (rf_SenderRole f = ''android'' \<and> rf_Direction f = DirectionMobileToWindows \<or>
      rf_SenderRole f = ''windows'' \<and> rf_Direction f = DirectionWindowsToMobile)"

definition envelope_ok :: "int \<Rightarrow> relay_frame \<Rightarrow> bool" where
  "envelope_ok configuredMax f \<longleftrightarrow>
     (rf_Direction f = DirectionMobileToWindows \<and> rf_Kind f = ''rpc.request'' \<or>
      rf_Direction f = DirectionWindowsToMobile \<and> rf_Kind f \<in> {''rpc.response'', ''event''}) \<and>
     ident_ok (rf_MessageID f) \<and> 1 \<le> rf_Sequence f \<and> rf_Sequence f \<le> MaxEncryptedSequence \<and>
     int_ok (rf_CreatedAt f) \<and> rf_PayloadEncoding f = ''encrypted-json'' \<and> base64_of 12 (rf_Nonce f) \<and>
     (\<exists>n. base64_of n (rf_Ciphertext f) \<and> GCMTagBytes \<le> int n \<and>
        int n \<le> EffectiveMessageBytes configuredMax + GCMTagBytes)"

text \<open>A frame of each kind has its own fields; the others keep their zero value.\<close>

definition frame_ok :: "int \<Rightarrow> relay_frame \<Rightarrow> bool" where
  "frame_ok configuredMax f \<longleftrightarrow> route_ok f \<and>
     (is_hello f \<and> hello_ok f \<and>
        rf_SenderRole f = [] \<and> rf_Confirmation f = [] \<and> rf_Kind f = [] \<and> rf_MessageID f = [] \<and>
        rf_Sequence f = 0 \<and> rf_PayloadEncoding f = [] \<and> rf_Ciphertext f = [] \<or>
      rf_FrameType f = FrameConfirmation \<and> confirmation_ok f \<and>
        rf_BindingVersion f = 0 \<and> rf_KeyVersion f = 0 \<and> rf_EphemeralKey f = [] \<and> rf_Nonce f = [] \<and>
        rf_CreatedAt f = 0 \<and> rf_Signature f = [] \<and> rf_Kind f = [] \<and> rf_MessageID f = [] \<and>
        rf_Sequence f = 0 \<and> rf_PayloadEncoding f = [] \<and> rf_Ciphertext f = [] \<or>
      rf_FrameType f = FrameEnvelope \<and> envelope_ok configuredMax f \<and>
        rf_BindingVersion f = 0 \<and> rf_KeyVersion f = 0 \<and> rf_EphemeralKey f = [] \<and> rf_Signature f = [] \<and>
        rf_SenderRole f = [] \<and> rf_Confirmation f = [])"

definition frame_keys :: "relay_frame \<Rightarrow> string list" where
  "frame_keys f = (if is_hello f then hello_keys
     else if rf_FrameType f = FrameConfirmation then confirmation_keys else envelope_keys)"

section \<open>What is accepted is well formed\<close>

lemma decodeBase64_iff: "decodeBase64 v = Some bs \<longleftrightarrow> v = EncodeToString bs"
proof
  assume "decodeBase64 v = Some bs"
  then show "v = EncodeToString bs" by (auto simp: decodeBase64_def split: option.splits if_splits)
next
  assume v: "v = EncodeToString bs"
  have "CHR ''='' \<notin> set v" unfolding v by (rule b64_no_char) code_simp
  with v show "decodeBase64 v = Some bs" by (simp add: decodeBase64_def DecodeString_EncodeToString)
qed

lemma validBase64_iff: "validBase64 v n \<longleftrightarrow> base64_of n v"
proof (cases "decodeBase64 v")
  case None
  then have "v \<noteq> EncodeToString bs" for bs using decodeBase64_iff [of v bs] by simp
  with None show ?thesis by (simp add: validBase64_def base64_of_def)
next
  case (Some bs)
  then have "v = EncodeToString bs" by (simp add: decodeBase64_iff)
  with Some show ?thesis using EncodeToString_inj by (auto simp: validBase64_def base64_of_def)
qed

lemma requiredString_ok [tx_inv]:
  "requiredString values key = Inr v \<longleftrightarrow>
   (\<exists>raw. map_of values key = Some raw \<and> raw \<noteq> [] \<and> unmarshal_string raw = Some v) \<and> utf8_valid v \<and> v \<noteq> []"
  by (auto simp: requiredString_def split: option.splits)

lemma frame_identifier_ok [tx_inv]:
  "frame_identifier values key = Inr v \<longleftrightarrow> requiredString values key = Inr v \<and> ident_ok v"
  using requiredString_ok [of "values" key v]
  by (cases "requiredString values key") (auto simp: frame_identifier_def ident_ok_def res_bind_def)

lemma boundedInt_range: "boundedInt values key lo hi = Inr n \<Longrightarrow> lo \<le> n \<and> n \<le> hi"
  by (auto simp: boundedInt_def Let_def split: if_splits option.splits)

lemma boundedUint_range: "boundedUint values key lo hi = Inr n \<Longrightarrow> lo \<le> n \<and> n \<le> hi"
  by (auto simp: boundedUint_def Let_def split: if_splits option.splits)

lemma positiveInt_range: "positiveInt values key = Inr n \<Longrightarrow> 0 < n \<and> int_ok n"
  using boundedInt_range [of "values" key 1 MaxInt64 n] by (auto simp: positiveInt_def int_ok_def)

lemma nonnegativeInt_range: "nonnegativeInt values key = Inr n \<Longrightarrow> int_ok n"
  using boundedInt_range [of "values" key 0 MaxInt64 n] by (auto simp: nonnegativeInt_def int_ok_def)

lemma requireKeys_ok:
  assumes "requireKeys values keys = Inr u" "distinct keys" "distinct (map fst values)"
  shows "set (map fst values) = set keys"
proof -
  have sub: "set keys \<subseteq> set (map fst values)" and len: "length keys = length values"
    using assms(1) by (auto simp: requireKeys_def res_check_def list_ex_iff map_of_eq_None_iff split: if_splits)
  have "card (set (map fst values)) = length values" "card (set keys) = length keys"
    using distinct_card [OF assms(2)] distinct_card [OF assms(3)] by simp_all
  with sub len show ?thesis by (intro card_subset_eq [symmetric]) auto
qed

lemma parseRoute_ok:
  assumes "parseRoute values f0 = Inr f"
  shows "route_ok f \<and> (\<exists>ver s t h v r. f = f0\<lparr>rf_ProtocolVersion := ver, rf_SessionID := s, rf_TenantID := t,
    rf_HostID := h, rf_DeviceID := v, rf_Direction := r\<rparr>)"
proof -
  obtain ver s t h v r where p: "ver = 1" "frame_identifier values ''tenantId'' = Inr t"
      "frame_identifier values ''hostId'' = Inr h" "frame_identifier values ''deviceId'' = Inr v"
    and ok: "\<not> (\<not> validBase64 s 32 \<or> r \<noteq> DirectionMobileToWindows \<and> r \<noteq> DirectionWindowsToMobile)"
    and "Inr (f0\<lparr>rf_ProtocolVersion := ver, rf_SessionID := s, rf_TenantID := t,
      rf_HostID := h, rf_DeviceID := v, rf_Direction := r\<rparr>) = (Inr f :: relay_frame result)"
    using assms unfolding parseRoute_def res_bind_Inr res_check_Inr if_Inl_Inr by blast
  then have f: "f = f0\<lparr>rf_ProtocolVersion := ver, rf_SessionID := s, rf_TenantID := t,
      rf_HostID := h, rf_DeviceID := v, rf_Direction := r\<rparr>" by simp
  with p ok have "route_ok f" by (auto simp: route_ok_def validBase64_iff frame_identifier_ok)
  with f show ?thesis by blast
qed

lemma parseHello_ok:
  assumes "parseHello values (zero_frame\<lparr>rf_FrameType := ty\<rparr>) = Inr f" "ty = FrameClientHello \<or> ty = FrameServerHello"
  shows "frame_ok configuredMax f \<and> rf_FrameType f = ty \<and> (\<exists>u. requireKeys values hello_keys = Inr u)"
proof -
  obtain f1 b k e n c s where r: "parseRoute values (zero_frame\<lparr>rf_FrameType := ty\<rparr>) = Inr f1"
    and ints: "positiveInt values ''bindingVersion'' = Inr b" "positiveInt values ''keyVersion'' = Inr k"
      "nonnegativeInt values ''createdAt'' = Inr c"
    and b64: "validBase64 e 65" "\<not> isl (DecodeSEC1PublicKey e)" "validBase64 n 32" "validBase64 s 64"
    and dir: "\<not> (rf_FrameType f1 = FrameClientHello \<and> rf_Direction f1 \<noteq> DirectionMobileToWindows \<or>
             rf_FrameType f1 = FrameServerHello \<and> rf_Direction f1 \<noteq> DirectionWindowsToMobile)"
    and "Inr (f1\<lparr>rf_BindingVersion := b, rf_KeyVersion := k, rf_EphemeralKey := e,
       rf_Nonce := n, rf_CreatedAt := c, rf_Signature := s\<rparr>) = (Inr f :: relay_frame result)"
    and keys: "\<exists>u. requireKeys values hello_keys = Inr u"
    using assms(1) unfolding parseHello_def res_bind_Inr if_Inl_Inr by blast
  then have f: "f = f1\<lparr>rf_BindingVersion := b, rf_KeyVersion := k, rf_EphemeralKey := e,
       rf_Nonce := n, rf_CreatedAt := c, rf_Signature := s\<rparr>" by simp
  from b64(2) obtain p where "DecodeSEC1PublicKey e = Inr p" by (cases "DecodeSEC1PublicKey e") auto
  with parseRoute_ok [OF r] positiveInt_range [OF ints(1)] positiveInt_range [OF ints(2)]
    nonnegativeInt_range [OF ints(3)] b64 dir assms(2) keys
  show ?thesis
    by (auto simp: f frame_ok_def route_ok_def is_hello_def hello_ok_def validBase64_iff zero_frame_def)
qed

lemma parseConfirmation_ok:
  assumes "parseConfirmation values (zero_frame\<lparr>rf_FrameType := FrameConfirmation\<rparr>) = Inr f"
  shows "frame_ok configuredMax f \<and> rf_FrameType f = FrameConfirmation \<and> (\<exists>u. requireKeys values confirmation_keys = Inr u)"
proof -
  obtain f1 role c where r: "parseRoute values (zero_frame\<lparr>rf_FrameType := FrameConfirmation\<rparr>) = Inr f1"
    and ok: "\<not> (\<not> validBase64 c 32 \<or> role = ''android'' \<and> rf_Direction f1 \<noteq> DirectionMobileToWindows \<or>
        role = ''windows'' \<and> rf_Direction f1 \<noteq> DirectionWindowsToMobile \<or> role \<noteq> ''android'' \<and> role \<noteq> ''windows'')"
    and "Inr (f1\<lparr>rf_SenderRole := role, rf_Confirmation := c\<rparr>) = (Inr f :: relay_frame result)"
    and keys: "\<exists>u. requireKeys values confirmation_keys = Inr u"
    using assms(1) unfolding parseConfirmation_def res_bind_Inr if_Inl_Inr
    by (elim exE conjE) (rule that, assumption+, rule exI)
  then have f: "f = f1\<lparr>rf_SenderRole := role, rf_Confirmation := c\<rparr>" by simp
  have "role = ''android'' \<and> rf_Direction f1 = DirectionMobileToWindows \<or>
      role = ''windows'' \<and> rf_Direction f1 = DirectionWindowsToMobile" "base64_of 32 c"
    using ok validBase64_iff by blast+
  then have "confirmation_ok f" by (simp add: confirmation_ok_def f)
  moreover from parseRoute_ok [OF r] obtain ver s t h v d where "route_ok f1"
    "f1 = zero_frame\<lparr>rf_FrameType := FrameConfirmation, rf_ProtocolVersion := ver, rf_SessionID := s, rf_TenantID := t,
       rf_HostID := h, rf_DeviceID := v, rf_Direction := d\<rparr>" by blast
  ultimately show ?thesis using keys by (simp add: frame_ok_def f route_ok_def zero_frame_def)
qed

lemma parseEnvelope_ok:
  assumes "parseEnvelope values configuredMax (zero_frame\<lparr>rf_FrameType := FrameEnvelope\<rparr>) = Inr f"
  shows "frame_ok configuredMax f \<and> rf_FrameType f = FrameEnvelope \<and> (\<exists>u. requireKeys values envelope_keys = Inr u)"
proof -
  obtain f1 kind m q c n enc ct bs where r: "parseRoute values (zero_frame\<lparr>rf_FrameType := FrameEnvelope\<rparr>) = Inr f1"
    and ids: "frame_identifier values ''messageId'' = Inr m" "boundedUint values ''sequence'' 1 MaxEncryptedSequence = Inr q"
      "nonnegativeInt values ''createdAt'' = Inr c"
    and nonce: "\<not> (enc \<noteq> ''encrypted-json'' \<or> \<not> validBase64 n 12)"
    and ct: "decodeBase64 ct = Some bs" "\<not> (int (length bs) < GCMTagBytes \<or>
      int (length bs) > EffectiveMessageBytes configuredMax + GCMTagBytes)"
    and dir: "\<not> (rf_Direction f1 = DirectionMobileToWindows \<and> kind \<noteq> ''rpc.request'' \<or>
        rf_Direction f1 = DirectionWindowsToMobile \<and> kind \<noteq> ''rpc.response'' \<and> kind \<noteq> ''event'')"
    and "Inr (f1\<lparr>rf_Kind := kind, rf_MessageID := m, rf_Sequence := q, rf_CreatedAt := c,
       rf_PayloadEncoding := enc, rf_Nonce := n, rf_Ciphertext := ct\<rparr>) = (Inr f :: relay_frame result)"
    and keys: "\<exists>u. requireKeys values envelope_keys = Inr u"
    using assms(1) unfolding parseEnvelope_def res_bind_Inr if_Inl_Inr some_Inr
    by (elim exE conjE) (rule that, assumption+, rule exI)
  then have f: "f = f1\<lparr>rf_Kind := kind, rf_MessageID := m, rf_Sequence := q, rf_CreatedAt := c,
       rf_PayloadEncoding := enc, rf_Nonce := n, rf_Ciphertext := ct\<rparr>" by simp
  have "base64_of (length bs) ct" using ct(1) by (auto simp: decodeBase64_iff base64_of_def)
  with parseRoute_ok [OF r] ids(1) boundedUint_range [OF ids(2)] nonnegativeInt_range [OF ids(3)] nonce ct(2) dir keys
  show ?thesis
    by (auto simp: f frame_ok_def route_ok_def is_hello_def envelope_ok_def validBase64_iff zero_frame_def frame_identifier_ok not_less)
qed

lemma strictObject_distinct: "strictObject data = Inr ms \<Longrightarrow> distinct (map fst ms)"
  by (auto simp: strictObject_def split: list.splits if_splits option.splits)

lemma frame_keys_distinct: "distinct hello_keys" "distinct confirmation_keys" "distinct envelope_keys"
  by (simp_all add: hello_keys_def confirmation_keys_def envelope_keys_def)

text \<open>
  C28: Every frame the relay accepts is well formed: protocol version 1, a 32-byte session, trimmed
  UTF-8 identifiers of at most 128 bytes, a direction that fits the kind, canonical base64 of the
  right sizes, a valid P-256 key, integers in range, a sequence number of 32 bits and a ciphertext
  between the tag's 16 bytes and the configured limit; and the text had exactly the members of its
  kind of frame, each once.
\<close>

theorem ParseRelayFrame_sound:
  assumes "ParseRelayFrame data configuredMax = Inr f"
  shows "frame_ok configuredMax f \<and>
    (\<exists>ms. strictObject data = Inr ms \<and> distinct (map fst ms) \<and> set (map fst ms) = set (frame_keys f))"
proof -
  obtain ms ty where ms: "strictObject data = Inr ms"
    and p: "(if ty = FrameClientHello \<or> ty = FrameServerHello then parseHello ms (zero_frame\<lparr>rf_FrameType := ty\<rparr>)
        else if ty = FrameConfirmation then parseConfirmation ms (zero_frame\<lparr>rf_FrameType := ty\<rparr>)
        else if ty = FrameEnvelope then parseEnvelope ms configuredMax (zero_frame\<lparr>rf_FrameType := ty\<rparr>)
        else Inl ''invalid_frame'') = Inr f"
    using assms unfolding ParseRelayFrame_def Let_def if_Inl_Inr res_bind_Inr by blast
  note d = strictObject_distinct [OF ms]
  consider "ty = FrameClientHello \<or> ty = FrameServerHello" | "ty = FrameConfirmation" | "ty = FrameEnvelope"
    using p by (auto split: if_split_asm)
  then show ?thesis
  proof cases
    case 1
    with p have "parseHello ms (zero_frame\<lparr>rf_FrameType := ty\<rparr>) = Inr f" by auto
    from parseHello_ok [OF this 1] 1 ms d requireKeys_ok [OF _ frame_keys_distinct(1) d] show ?thesis
      by (auto simp: frame_keys_def is_hello_def)
  next
    case 2
    with p have "parseConfirmation ms (zero_frame\<lparr>rf_FrameType := FrameConfirmation\<rparr>) = Inr f" by simp
    from parseConfirmation_ok [OF this] ms d requireKeys_ok [OF _ frame_keys_distinct(2) d] show ?thesis
      by (auto simp: frame_keys_def is_hello_def)
  next
    case 3
    with p have "parseEnvelope ms configuredMax (zero_frame\<lparr>rf_FrameType := FrameEnvelope\<rparr>) = Inr f" by simp
    from parseEnvelope_ok [OF this] ms d requireKeys_ok [OF _ frame_keys_distinct(3) d] show ?thesis
      by (auto simp: frame_keys_def is_hello_def)
  qed
qed

section \<open>Well-formed frames are accepted\<close>

text \<open>The canonical text of a frame: its members in the order of the code's key lists.\<close>

definition route_members :: "relay_frame \<Rightarrow> members" where
  "route_members f = [(''protocolVersion'', decimal (rf_ProtocolVersion f)), (''frameType'', json_quote (rf_FrameType f)),
     (''sessionId'', json_quote (rf_SessionID f)), (''tenantId'', json_quote (rf_TenantID f)),
     (''hostId'', json_quote (rf_HostID f)), (''deviceId'', json_quote (rf_DeviceID f)),
     (''direction'', json_quote (rf_Direction f))]"

definition frame_members :: "relay_frame \<Rightarrow> members" where
  "frame_members f = route_members f @
     (if is_hello f then
        [(''bindingVersion'', decimal (rf_BindingVersion f)), (''keyVersion'', decimal (rf_KeyVersion f)),
         (''ephemeralPublicKey'', json_quote (rf_EphemeralKey f)), (''nonce'', json_quote (rf_Nonce f)),
         (''createdAt'', decimal (rf_CreatedAt f)), (''signature'', json_quote (rf_Signature f))]
      else if rf_FrameType f = FrameConfirmation then
        [(''senderRole'', json_quote (rf_SenderRole f)), (''confirmation'', json_quote (rf_Confirmation f))]
      else
        [(''kind'', json_quote (rf_Kind f)), (''messageId'', json_quote (rf_MessageID f)),
         (''sequence'', decimal (rf_Sequence f)), (''createdAt'', decimal (rf_CreatedAt f)),
         (''payloadEncoding'', json_quote (rf_PayloadEncoding f)), (''nonce'', json_quote (rf_Nonce f)),
         (''ciphertext'', json_quote (rf_Ciphertext f))])"

definition print_frame :: "relay_frame \<Rightarrow> string" where
  "print_frame f = ''{'' @ print_members (frame_members f) @ ''}''"

lemma canonicalInteger_decimal: "0 \<le> n \<Longrightarrow> canonicalInteger (decimal n)"
proof -
  assume n: "0 \<le> n"
  show ?thesis
  proof (cases "n = 0")
    case True
    have "decimal 0 = ''0''" by (subst decimal.simps) (simp add: char_of_def)
    with True show ?thesis by (simp add: canonicalInteger_def)
  next
    case False
    with n decimal_hd [of n] decimal_digits [OF n] show ?thesis
      by (auto simp: canonicalInteger_def list_all_iff dest: list.set_sel(2) [OF decimal_nonempty])
  qed
qed

lemma decimal_all_digits: "0 \<le> n \<Longrightarrow> list_all is_digit (decimal n)"
  using decimal_digits by (auto simp: list_all_iff)

lemma read_int:
  assumes "map_of ms key = Some (decimal n)" "int_ok n"
  shows "nonnegativeInt ms key = Inr n" "0 < n \<Longrightarrow> positiveInt ms key = Inr n"
  using assms canonicalInteger_decimal [of n] ParseInt64_digits [of "decimal n"] decimal_all_digits [of n]
    digits_value_decimal [of n]
  by (auto simp: int_ok_def nonnegativeInt_def positiveInt_def boundedInt_def raw_text_def MaxInt64_def)

lemma read_uint:
  assumes "map_of ms key = Some (decimal n)" "1 \<le> n" "n \<le> MaxEncryptedSequence"
  shows "boundedUint ms key 1 MaxEncryptedSequence = Inr n"
  using assms canonicalInteger_decimal [of n] decimal_all_digits [of n] digits_value_decimal [of n]
  by (auto simp: boundedUint_def raw_text_def ParseUint64_def MaxEncryptedSequence_def)

lemma read_string:
  assumes "map_of ms key = Some (json_quote v)" "utf8_valid v" "v \<noteq> []"
  shows "requiredString ms key = Inr v"
  using assms unmarshal_quote [OF assms(2)] by (auto simp: requiredString_ok json_quote_def)

lemma read_identifier:
  assumes "map_of ms key = Some (json_quote v)" "ident_ok v"
  shows "frame_identifier ms key = Inr v"
  using assms read_string by (auto simp: frame_identifier_ok ident_ok_def)

lemma b64_safe: "list_all html_safe (EncodeToString bs)"
proof -
  have "list_all html_safe (map b64_char [0..<64])" by code_simp
  then have "html_safe (b64_char v)" if "v < 64" for v using that by (simp add: list_all_iff)
  then show ?thesis using b64_sextets_bound [of bs] by (auto simp: EncodeToString_def list_all_iff)
qed

lemma html_safe_ascii: "list_all html_safe s \<Longrightarrow> utf8_valid s"
  by (rule ascii_valid) (auto simp: list_all_iff html_safe_def byte_in_def)

lemma read_base64:
  assumes "map_of ms key = Some (json_quote v)" "base64_of n v" "0 < n"
  shows "requiredString ms key = Inr v"
  using assms b64_safe html_safe_ascii
  by (intro read_string) (auto simp: base64_of_def EncodeToString_def elim: b64_sextets.elims)

lemma frame_lookups:
  "map_of (frame_members f) ''protocolVersion'' = Some (decimal (rf_ProtocolVersion f))"
  "map_of (frame_members f) ''frameType'' = Some (json_quote (rf_FrameType f))"
  "map_of (frame_members f) ''sessionId'' = Some (json_quote (rf_SessionID f))"
  "map_of (frame_members f) ''tenantId'' = Some (json_quote (rf_TenantID f))"
  "map_of (frame_members f) ''hostId'' = Some (json_quote (rf_HostID f))"
  "map_of (frame_members f) ''deviceId'' = Some (json_quote (rf_DeviceID f))"
  "map_of (frame_members f) ''direction'' = Some (json_quote (rf_Direction f))"
  by (simp_all add: frame_members_def route_members_def)

lemma frame_members_keys: "map fst (frame_members f) = frame_keys f"
  by (simp add: frame_members_def route_members_def frame_keys_def hello_keys_def confirmation_keys_def envelope_keys_def)

lemma frame_members_distinct: "distinct (map fst (frame_members f))"
  unfolding frame_members_keys using frame_keys_distinct by (simp add: frame_keys_def)

lemma requireKeys_own: "requireKeys (frame_members f) (frame_keys f) = Inr ()"
proof -
  have "length (frame_members f) = length (frame_keys f)"
    by (simp flip: frame_members_keys)
  moreover have "map_of (frame_members f) key \<noteq> None" if "key \<in> set (frame_keys f)" for key
    using that by (simp add: map_of_eq_None_iff flip: frame_members_keys)
  ultimately show ?thesis by (auto simp: requireKeys_def res_check_def list_ex_iff)
qed

lemma parseRoute_own:
  assumes "route_ok f"
  shows "parseRoute (frame_members f) f0 = Inr (f0\<lparr>rf_ProtocolVersion := rf_ProtocolVersion f,
    rf_SessionID := rf_SessionID f, rf_TenantID := rf_TenantID f, rf_HostID := rf_HostID f,
    rf_DeviceID := rf_DeviceID f, rf_Direction := rf_Direction f\<rparr>)"
proof -
  have "positiveInt (frame_members f) ''protocolVersion'' = Inr 1"
    using read_int(2) [OF frame_lookups(1)] assms by (simp add: route_ok_def int_ok_def MaxInt64_def)
  moreover have "requiredString (frame_members f) ''sessionId'' = Inr (rf_SessionID f)"
    using read_base64 [OF frame_lookups(3)] assms by (auto simp: route_ok_def)
  moreover have "frame_identifier (frame_members f) ''tenantId'' = Inr (rf_TenantID f)"
    "frame_identifier (frame_members f) ''hostId'' = Inr (rf_HostID f)"
    "frame_identifier (frame_members f) ''deviceId'' = Inr (rf_DeviceID f)"
    using read_identifier [OF frame_lookups(4)] read_identifier [OF frame_lookups(5)]
      read_identifier [OF frame_lookups(6)] assms by (auto simp: route_ok_def)
  moreover have "utf8_valid (rf_Direction f)" "rf_Direction f \<noteq> []"
    using assms ascii_valid by (auto simp: route_ok_def byte_in_def)
  then have "requiredString (frame_members f) ''direction'' = Inr (rf_Direction f)"
    by (rule read_string [OF frame_lookups(7)])
  moreover have "rf_ProtocolVersion f = 1" using assms by (simp add: route_ok_def)
  ultimately show ?thesis
    unfolding parseRoute_def using assms by (simp add: tx_simps res_check_def route_ok_def validBase64_iff)
qed

lemma hello_own:
  assumes "frame_ok m f" "is_hello f"
  shows "parseHello (frame_members f) (zero_frame\<lparr>rf_FrameType := rf_FrameType f\<rparr>) = Inr f"
proof -
  have look: "map_of (frame_members f) ''bindingVersion'' = Some (decimal (rf_BindingVersion f))"
    "map_of (frame_members f) ''keyVersion'' = Some (decimal (rf_KeyVersion f))"
    "map_of (frame_members f) ''createdAt'' = Some (decimal (rf_CreatedAt f))"
    "map_of (frame_members f) ''ephemeralPublicKey'' = Some (json_quote (rf_EphemeralKey f))"
    "map_of (frame_members f) ''nonce'' = Some (json_quote (rf_Nonce f))"
    "map_of (frame_members f) ''signature'' = Some (json_quote (rf_Signature f))"
    using assms(2) by (simp_all add: frame_members_def route_members_def)
  have nt: "rf_FrameType f \<noteq> FrameConfirmation" "rf_FrameType f \<noteq> FrameEnvelope"
    using assms(2) by (auto simp: is_hello_def)
  have ok: "route_ok f" "hello_ok f" and zero: "rf_SenderRole f = []" "rf_Confirmation f = []" "rf_Kind f = []"
    "rf_MessageID f = []" "rf_Sequence f = 0" "rf_PayloadEncoding f = []" "rf_Ciphertext f = []"
    using assms nt unfolding frame_ok_def by blast+
  have ints: "positiveInt (frame_members f) ''bindingVersion'' = Inr (rf_BindingVersion f)"
    "positiveInt (frame_members f) ''keyVersion'' = Inr (rf_KeyVersion f)"
    "nonnegativeInt (frame_members f) ''createdAt'' = Inr (rf_CreatedAt f)"
    using read_int(2) [OF look(1)] read_int(2) [OF look(2)] read_int(1) [OF look(3)] ok(2)
    by (simp_all add: hello_ok_def)
  have strs: "requiredString (frame_members f) ''ephemeralPublicKey'' = Inr (rf_EphemeralKey f)"
    "requiredString (frame_members f) ''nonce'' = Inr (rf_Nonce f)"
    "requiredString (frame_members f) ''signature'' = Inr (rf_Signature f)"
    using read_base64 [OF look(4)] read_base64 [OF look(5)] read_base64 [OF look(6)] ok(2)
    by (auto simp: hello_ok_def)
  have keys: "requireKeys (frame_members f) hello_keys = Inr ()"
    using requireKeys_own [of f] assms(2) by (simp add: frame_keys_def)
  have b64: "base64_of 65 (rf_EphemeralKey f)" "base64_of 32 (rf_Nonce f)" "base64_of 64 (rf_Signature f)"
    "isl (DecodeSEC1PublicKey (rf_EphemeralKey f)) = False"
    using ok(2) by (auto simp: hello_ok_def)
  have dir: "(rf_FrameType f = FrameClientHello \<and> rf_Direction f \<noteq> DirectionMobileToWindows \<or>
      rf_FrameType f = FrameServerHello \<and> rf_Direction f \<noteq> DirectionWindowsToMobile) = False"
    using ok(2) unfolding hello_ok_def by blast
  have f: "zero_frame\<lparr>rf_FrameType := rf_FrameType f, rf_ProtocolVersion := rf_ProtocolVersion f,
      rf_SessionID := rf_SessionID f, rf_TenantID := rf_TenantID f, rf_HostID := rf_HostID f,
      rf_DeviceID := rf_DeviceID f, rf_Direction := rf_Direction f, rf_BindingVersion := rf_BindingVersion f,
      rf_KeyVersion := rf_KeyVersion f, rf_EphemeralKey := rf_EphemeralKey f, rf_Nonce := rf_Nonce f,
      rf_CreatedAt := rf_CreatedAt f, rf_Signature := rf_Signature f\<rparr> = f"
    by (simp add: zero_frame_def zero)
  have proj: "rf_FrameType (g\<lparr>rf_FrameType := a, rf_ProtocolVersion := b, rf_SessionID := c, rf_TenantID := d,
      rf_HostID := e, rf_DeviceID := x, rf_Direction := y\<rparr>) = a" "rf_Direction (g\<lparr>rf_Direction := y\<rparr>) = y"
    for g :: relay_frame and a b c d e x y by simp_all
  show ?thesis
    unfolding parseHello_def keys res_bind_run parseRoute_own [OF ok(1)] ints strs validBase64_iff
    by (simp only: b64 proj dir f if_False if_True simp_thms refl)
qed

lemma confirmation_own:
  assumes "frame_ok m f" "rf_FrameType f = FrameConfirmation"
  shows "parseConfirmation (frame_members f) (zero_frame\<lparr>rf_FrameType := rf_FrameType f\<rparr>) = Inr f"
proof -
  have nh: "\<not> is_hello f" using assms(2) by (simp add: is_hello_def)
  have look: "map_of (frame_members f) ''senderRole'' = Some (json_quote (rf_SenderRole f))"
    "map_of (frame_members f) ''confirmation'' = Some (json_quote (rf_Confirmation f))"
    using nh assms(2) by (simp_all add: frame_members_def route_members_def)
  have ok: "route_ok f" "confirmation_ok f" and zero: "rf_BindingVersion f = 0" "rf_KeyVersion f = 0"
    "rf_EphemeralKey f = []" "rf_Nonce f = []" "rf_CreatedAt f = 0" "rf_Signature f = []" "rf_Kind f = []"
    "rf_MessageID f = []" "rf_Sequence f = 0" "rf_PayloadEncoding f = []" "rf_Ciphertext f = []"
    using assms(1) nh by (simp_all add: frame_ok_def assms(2))
  have "utf8_valid (rf_SenderRole f)" "rf_SenderRole f \<noteq> []"
    using ok(2) ascii_valid by (auto simp: confirmation_ok_def byte_in_def)
  then have role: "requiredString (frame_members f) ''senderRole'' = Inr (rf_SenderRole f)"
    by (rule read_string [OF look(1)])
  have conf: "requiredString (frame_members f) ''confirmation'' = Inr (rf_Confirmation f)"
    using read_base64 [OF look(2)] ok(2) by (auto simp: confirmation_ok_def)
  have keys: "requireKeys (frame_members f) confirmation_keys = Inr ()"
    using requireKeys_own [of f] nh assms(2) by (simp add: frame_keys_def)
  show ?thesis
    unfolding parseConfirmation_def using ok(2)
    by (simp add: tx_simps keys parseRoute_own [OF ok(1)] role conf confirmation_ok_def validBase64_iff)
      (auto simp: zero_frame_def zero)
qed

lemma envelope_own:
  assumes "frame_ok m f" "rf_FrameType f = FrameEnvelope"
  shows "parseEnvelope (frame_members f) m (zero_frame\<lparr>rf_FrameType := rf_FrameType f\<rparr>) = Inr f"
proof -
  have nh: "\<not> is_hello f" using assms(2) by (simp add: is_hello_def)
  have look: "map_of (frame_members f) ''kind'' = Some (json_quote (rf_Kind f))"
    "map_of (frame_members f) ''messageId'' = Some (json_quote (rf_MessageID f))"
    "map_of (frame_members f) ''sequence'' = Some (decimal (rf_Sequence f))"
    "map_of (frame_members f) ''createdAt'' = Some (decimal (rf_CreatedAt f))"
    "map_of (frame_members f) ''payloadEncoding'' = Some (json_quote (rf_PayloadEncoding f))"
    "map_of (frame_members f) ''nonce'' = Some (json_quote (rf_Nonce f))"
    "map_of (frame_members f) ''ciphertext'' = Some (json_quote (rf_Ciphertext f))"
    using nh by (simp_all add: frame_members_def route_members_def assms(2))
  have ok: "route_ok f" "envelope_ok m f" and zero: "rf_BindingVersion f = 0" "rf_KeyVersion f = 0"
    "rf_EphemeralKey f = []" "rf_Signature f = []" "rf_SenderRole f = []" "rf_Confirmation f = []"
    using assms(1) nh by (simp_all add: frame_ok_def assms(2))
  obtain bs where ct: "rf_Ciphertext f = EncodeToString bs" "GCMTagBytes \<le> int (length bs)"
      "int (length bs) \<le> EffectiveMessageBytes m + GCMTagBytes" "base64_of (length bs) (rf_Ciphertext f)"
    using ok(2) by (auto simp: envelope_ok_def base64_of_def)
  have e: "ident_ok (rf_MessageID f)" "1 \<le> rf_Sequence f" "rf_Sequence f \<le> MaxEncryptedSequence"
      "int_ok (rf_CreatedAt f)" "rf_PayloadEncoding f = ''encrypted-json''" "base64_of 12 (rf_Nonce f)"
    and dir: "rf_Direction f = DirectionMobileToWindows \<and> rf_Kind f = ''rpc.request'' \<or>
      rf_Direction f = DirectionWindowsToMobile \<and> rf_Kind f \<in> {''rpc.response'', ''event''}"
    using ok(2) unfolding envelope_ok_def by blast+
  have "utf8_valid (rf_Kind f)" "rf_Kind f \<noteq> []" using dir ascii_valid by (auto simp: byte_in_def)
  then have kind: "requiredString (frame_members f) ''kind'' = Inr (rf_Kind f)" by (rule read_string [OF look(1)])
  have "utf8_valid (rf_PayloadEncoding f)" "rf_PayloadEncoding f \<noteq> []"
    unfolding e(5) using ascii_valid by (auto simp: byte_in_def)
  then have enc: "requiredString (frame_members f) ''payloadEncoding'' = Inr ''encrypted-json''"
    using read_string [OF look(5)] e(5) by simp
  have strs: "requiredString (frame_members f) ''nonce'' = Inr (rf_Nonce f)"
    "requiredString (frame_members f) ''ciphertext'' = Inr (rf_Ciphertext f)"
    using read_base64 [OF look(6) e(6)] read_base64 [OF look(7) ct(4)] ct(2) by (force simp: GCMTagBytes_def)+
  have keys: "requireKeys (frame_members f) envelope_keys = Inr ()"
    using requireKeys_own [of f] nh by (simp add: frame_keys_def assms(2))
  have dec: "decodeBase64 (rf_Ciphertext f) = Some bs" by (simp add: decodeBase64_iff ct(1))
  show ?thesis
    unfolding parseEnvelope_def
    using dir ct(2,3) e(6)
    by (simp add: tx_simps keys parseRoute_own [OF ok(1)] kind enc strs read_identifier [OF look(2) e(1)]
        read_uint [OF look(3) e(2,3)] read_int(1) [OF look(4) e(4)] dec validBase64_iff)
      (auto simp: zero_frame_def zero e(5))
qed

lemma utf8_decimal: "0 \<le> n \<Longrightarrow> utf8_valid (decimal n)"
  using decimal_digits by (intro ascii_valid) (force simp: list_all_iff is_digit_def byte_in_def)

lemma utf8_print_members:
  assumes "\<forall>m\<in>set ms. utf8_valid (snd m)"
  shows "utf8_valid (print_members ms)"
  using assms
proof (induction ms rule: print_members.induct)
  have c: "utf8_valid '':''" "utf8_valid '',''" by (rule ascii_valid; simp add: byte_in_def)+
  have m: "utf8_valid (print_member m)" if "utf8_valid (snd m)" for m
    unfolding print_member_def by (intro utf8_append utf8_quote c that)
  { case 1
    show ?case by (simp add: utf8_valid.simps)
  next
    case (2 k)
    then show ?case by (simp add: m)
  next
    case (3 k k' ms)
    then show ?case unfolding print_members.simps by (intro utf8_append m c "3.IH") auto }
qed

lemma frame_ok_route: "frame_ok m f \<Longrightarrow> route_ok f"
  by (simp add: frame_ok_def)

lemma frame_ok_cases:
  assumes "frame_ok m f"
  obtains (hello) "is_hello f" "hello_ok f"
  | (confirmation) "rf_FrameType f = FrameConfirmation" "\<not> is_hello f" "confirmation_ok f"
  | (envelope) "rf_FrameType f = FrameEnvelope" "\<not> is_hello f" "rf_FrameType f \<noteq> FrameConfirmation" "envelope_ok m f"
proof -
  have "\<not> is_hello f" if "rf_FrameType f = FrameConfirmation \<or> rf_FrameType f = FrameEnvelope"
    using that by (auto simp: is_hello_def)
  moreover have "rf_FrameType f \<noteq> FrameConfirmation" if "rf_FrameType f = FrameEnvelope" using that by simp
  ultimately show thesis using assms that unfolding frame_ok_def by blast
qed

text \<open>All values of a well-formed frame are texts of JSON values in UTF-8.\<close>

lemma frame_values:
  assumes "frame_ok m f"
  shows "\<forall>q\<in>set (frame_members f). utf8_valid (snd q) \<and> value_text (snd q)"
proof -
  have d: "utf8_valid (decimal n) \<and> value_text (decimal n)" if "0 \<le> n" for n
    using that utf8_decimal value_text_decimal by blast
  have q: "utf8_valid (json_quote s) \<and> value_text (json_quote s)" for s
    using utf8_quote value_text_quote by blast
  have "0 \<le> rf_ProtocolVersion f" using frame_ok_route [OF assms] by (simp add: route_ok_def)
  then have r: "\<forall>q\<in>set (route_members f). utf8_valid (snd q) \<and> value_text (snd q)"
    by (simp add: route_members_def d q)
  from assms show ?thesis
  proof (cases rule: frame_ok_cases)
    case hello
    with r show ?thesis by (auto simp: frame_members_def hello_ok_def int_ok_def d q)
  next
    case confirmation
    with r show ?thesis by (auto simp: frame_members_def q)
  next
    case envelope
    then have "0 \<le> rf_Sequence f" "0 \<le> rf_CreatedAt f" by (simp_all add: envelope_ok_def int_ok_def)
    with envelope(2,3) r show ?thesis by (auto simp: frame_members_def d q)
  qed
qed

lemma strictObject_print:
  assumes "frame_ok m f"
  shows "strictObject (print_frame f) = Inr (frame_members f)" "utf8_valid (print_frame f)" "print_frame f \<noteq> []"
proof -
  have keys: "utf8_valid k" if "k \<in> set (frame_keys f)" for k
  proof -
    have "\<forall>k\<in>set (frame_keys f). list_all (byte_in 0x00 0x7F) k"
      by (simp add: frame_keys_def hello_keys_def confirmation_keys_def envelope_keys_def byte_in_def)
    with that show ?thesis using ascii_valid by blast
  qed
  then have "\<forall>q\<in>set (frame_members f). utf8_valid (fst q) \<and> value_text (snd q)"
    using frame_values [OF assms] by (auto simp flip: frame_members_keys)
  from json_members_print [OF this, of "[]"] frame_members_distinct [of f]
  show "strictObject (print_frame f) = Inr (frame_members f)"
    by (simp add: strictObject_def print_frame_def skip_space_def json_space_def)
  have b: "utf8_valid ''{''" "utf8_valid ''}''" by (rule ascii_valid; simp add: byte_in_def)+
  show "utf8_valid (print_frame f)"
    unfolding print_frame_def using frame_values [OF assms]
    by (intro utf8_append b utf8_print_members) auto
  show "print_frame f \<noteq> []" by (simp add: print_frame_def)
qed

lemma parse_print_frame:
  assumes "frame_ok configuredMax f"
  shows "ParseRelayFrame (print_frame f) configuredMax = Inr f"
proof -
  have "utf8_valid (rf_FrameType f)" "rf_FrameType f \<noteq> []"
    using assms by (cases rule: frame_ok_cases; auto simp: is_hello_def byte_in_def intro!: ascii_valid)+
  then have ty: "requiredString (frame_members f) ''frameType'' = Inr (rf_FrameType f)"
    by (rule read_string [OF frame_lookups(2)])
  have "ParseRelayFrame (print_frame f) configuredMax =
      (if rf_FrameType f = FrameClientHello \<or> rf_FrameType f = FrameServerHello
       then parseHello (frame_members f) (zero_frame\<lparr>rf_FrameType := rf_FrameType f\<rparr>)
       else if rf_FrameType f = FrameConfirmation
       then parseConfirmation (frame_members f) (zero_frame\<lparr>rf_FrameType := rf_FrameType f\<rparr>)
       else if rf_FrameType f = FrameEnvelope
       then parseEnvelope (frame_members f) configuredMax (zero_frame\<lparr>rf_FrameType := rf_FrameType f\<rparr>)
       else Inl ''invalid_frame'')"
    using strictObject_print [OF assms] unfolding ParseRelayFrame_def Let_def
    by (simp only: res_bind_run ty if_False simp_thms)
  also have "\<dots> = Inr f"
    using assms
  proof (cases rule: frame_ok_cases)
    case hello
    then show ?thesis using hello_own [OF assms hello(1)] by (simp add: is_hello_def)
  next
    case confirmation
    then show ?thesis using confirmation_own [OF assms confirmation(1)] by (simp add: is_hello_def)
  next
    case envelope
    then show ?thesis using envelope_own [OF assms envelope(1)] by (simp add: is_hello_def)
  qed
  finally show ?thesis .
qed

text \<open>
  C29: Every well-formed frame is accepted and read back field by field when it is written as one JSON
  object; so well-formedness is exactly what the parser asks for.
\<close>

theorem ParseRelayFrame_complete:
  assumes "frame_ok configuredMax f"
  shows "ParseRelayFrame (print_frame f) configuredMax = Inr f"
  using assms by (rule parse_print_frame)

section \<open>The wire limit is enough\<close>

lemma encoded_formula: "4 * (k div 3) + (if k mod 3 = 0 then 0 else k mod 3 + 1) = (4 * k + 2) div 3" for k :: int
proof -
  have "k = 3 * (k div 3) + k mod 3" by simp
  then have "4 * k + 2 = (4 * (k mod 3) + 2) + (4 * (k div 3)) * 3" by linarith
  then have "(4 * k + 2) div 3 = 4 * (k div 3) + (4 * (k mod 3) + 2) div 3" by (simp only: div_mult_self1)
  moreover have "k mod 3 = 0 \<or> k mod 3 = 1 \<or> k mod 3 = 2" by presburger
  ultimately show ?thesis by auto
qed

lemma length_Encode: "int (length (EncodeToString bs)) = (4 * int (length bs) + 2) div 3"
proof -
  have "(int (length bs) mod 3 = 0) = (length bs mod 3 = 0)"
    by (metis of_nat_0_eq_iff of_nat_mod of_nat_numeral)
  with encoded_formula [of "int (length bs)"] show ?thesis
    by (simp add: length_EncodeToString zdiv_int zmod_int split: if_splits)
qed

lemma EncodedLength_eq:
  assumes "0 \<le> n" "n \<le> 2 ^ 60"
  shows "EncodedLength n = (4 * n + 2) div 3"
proof -
  have "n sdiv 3 = n div 3" "n smod 3 = n mod 3" using assms by (auto simp: signed_divide_int_def signed_modulo_int_def sgn_if)
  moreover note encoded_formula [of n]
  moreover have "int64_range ((4 * n + 2) div 3)" 
  proof -
    have "(4 * n + 2) div 3 \<le> (4 * 2 ^ 60 + 2) div 3" using assms(2) by (intro zdiv_mono1) auto
    moreover have "0 \<le> (4 * n + 2) div 3" using assms(1) by (simp add: pos_imp_zdiv_nonneg_iff)
    ultimately show ?thesis by (simp add: int64_range_def)
  qed
  ultimately show ?thesis unfolding EncodedLength_def by (simp only: wrap64_id)
qed

lemma WireFrameLimit_eq:
  "WireFrameLimit configured = EncodedLength (EffectiveMessageBytes configured + GCMTagBytes) + 65536"
proof -
  have "0 \<le> EffectiveMessageBytes configured + 16" "EffectiveMessageBytes configured + 16 \<le> 11534352"
    by (simp_all add: EffectiveMessageBytes_def MaxBusinessPlaintextBytes_def)
  then show ?thesis
    by (simp add: WireFrameLimit_def Let_def EncodedLength_eq GCMTagBytes_def MaxWireFrameBytes_def)
qed

text \<open>
  C32: The relay computes the size of base64 text exactly, without overflow, and the cap on the wire
  limit is never what limits a frame: it equals the limit for the largest message.
\<close>

theorem wire_limit_exact:
  assumes "int (length bs) \<le> MaxBusinessPlaintextBytes + GCMTagBytes"
  shows "EncodedLength (int (length bs)) = int (length (EncodeToString bs)) \<and>
    WireFrameLimit configured = EncodedLength (EffectiveMessageBytes configured + GCMTagBytes) + 64 * 1024 \<and>
    WireFrameLimit MaxBusinessPlaintextBytes = MaxWireFrameBytes"
proof -
  have "int (length bs) \<le> 2 ^ 60" using assms by (simp add: MaxBusinessPlaintextBytes_def GCMTagBytes_def)
  moreover note length_Encode [of bs]
  moreover have "WireFrameLimit MaxBusinessPlaintextBytes = MaxWireFrameBytes"
    by (simp add: WireFrameLimit_eq EncodedLength_eq EffectiveMessageBytes_def MaxBusinessPlaintextBytes_def
        GCMTagBytes_def MaxWireFrameBytes_def)
  ultimately show ?thesis using WireFrameLimit_eq [of configured] by (simp add: EncodedLength_eq)
qed

lemma length_decimal: "0 \<le> n \<Longrightarrow> n < 10 ^ Suc k \<Longrightarrow> length (decimal n) \<le> Suc k"
proof (induction k arbitrary: n)
  case 0
  then show ?case by (subst decimal.simps) simp
next
  case (Suc k)
  then have "length (decimal (n div 10)) \<le> Suc k" by (intro Suc.IH) auto
  then show ?case by (subst decimal.simps) simp
qed

lemma length_int: "int_ok n \<Longrightarrow> length (decimal n) \<le> 19"
  using length_decimal [of n 18] by (simp add: int_ok_def MaxInt64_def)

lemma length_quote: "length (json_quote s) \<le> 6 * length s + 2"
  using length_quote_body [of s] by (simp add: json_quote_def)

lemma length_quote_base64: "base64_of n v \<Longrightarrow> int (length (json_quote v)) = (4 * int n + 2) div 3 + 2"
proof -
  assume "base64_of n v"
  then obtain bs where bs: "length bs = n" "v = EncodeToString bs" by (auto simp: base64_of_def)
  have "int (length (json_quote v)) = int (length v) + 2"
    using quote_body_safe [OF b64_safe [of bs]] by (simp add: json_quote_def bs)
  moreover have "int (length v) = (4 * int n + 2) div 3" using length_Encode [of bs] bs by simp
  ultimately show ?thesis by simp
qed

lemma length_quote_ident: "ident_ok v \<Longrightarrow> length (json_quote v) \<le> 770"
  using length_quote [of v] by (simp add: ident_ok_def)

lemma length_print_members:
  "length (print_members ms) \<le> (\<Sum>m\<leftarrow>ms. 6 * length (fst m) + 4 + length (snd m))"
proof (induction ms rule: print_members.induct)
  case (2 m)
  then show ?case using length_quote [of "fst m"] by (simp add: print_member_def)
next
  case (3 m m' ms)
  then show ?case using length_quote [of "fst m"] by (simp add: print_member_def)
qed simp

lemma route_members_length:
  assumes "route_ok f" "length (rf_FrameType f) \<le> 20"
  shows "(\<Sum>m\<leftarrow>route_members f. 6 * length (fst m) + 4 + length (snd m)) \<le> 3100"
proof -
  have "length (rf_Direction f) \<le> 17" using assms(1) by (auto simp: route_ok_def)
  moreover have "int (length (json_quote (rf_SessionID f))) = (4 * int 32 + 2) div 3 + 2"
    using assms(1) length_quote_base64 [of 32] by (simp add: route_ok_def)
  moreover have "length (decimal (rf_ProtocolVersion f)) \<le> 19"
    using assms(1) length_int [of 1] by (simp add: route_ok_def int_ok_def MaxInt64_def)
  moreover have "length (json_quote (rf_TenantID f)) \<le> 770" "length (json_quote (rf_HostID f)) \<le> 770"
    "length (json_quote (rf_DeviceID f)) \<le> 770"
    using assms(1) length_quote_ident by (auto simp: route_ok_def)
  ultimately show ?thesis
    using assms(2) length_quote [of "rf_FrameType f"] length_quote [of "rf_Direction f"]
    by (simp add: route_members_def)
qed

lemma wire_limit_value:
  "WireFrameLimit configuredMax = (4 * (EffectiveMessageBytes configuredMax + GCMTagBytes) + 2) div 3 + 65536"
  "0 \<le> (4 * (EffectiveMessageBytes configuredMax + GCMTagBytes) + 2) div 3"
proof -
  have "0 \<le> EffectiveMessageBytes configuredMax + GCMTagBytes" "EffectiveMessageBytes configuredMax + GCMTagBytes \<le> 2 ^ 60"
    by (simp_all add: EffectiveMessageBytes_def MaxBusinessPlaintextBytes_def GCMTagBytes_def)
  then show "WireFrameLimit configuredMax = (4 * (EffectiveMessageBytes configuredMax + GCMTagBytes) + 2) div 3 + 65536"
    "0 \<le> (4 * (EffectiveMessageBytes configuredMax + GCMTagBytes) + 2) div 3"
    by (simp_all add: WireFrameLimit_eq EncodedLength_eq)
qed

text \<open>
  C33: Every well-formed frame, written as one JSON object, fits the limit with which the relay reads
  from a socket, whatever message size is configured.
\<close>

theorem frame_fits_wire_limit:
  assumes "frame_ok configuredMax f"
  shows "int (length (print_frame f)) \<le> WireFrameLimit configuredMax"
proof -
  let ?w = "\<lambda>ms. (\<Sum>m\<leftarrow>ms. 6 * length (fst m) + 4 + length (snd m)) :: nat"
  let ?L = "(4 * (EffectiveMessageBytes configuredMax + GCMTagBytes) + 2) div 3"
  note L = wire_limit_value [of configuredMax]
  have p: "length (print_frame f) \<le> ?w (frame_members f) + 2"
    using length_print_members [of "frame_members f"] by (simp add: print_frame_def)
  note route = frame_ok_route [OF assms]
  from assms show ?thesis
  proof (cases rule: frame_ok_cases)
    case hello
    then have "?w (route_members f) \<le> 3100" using route by (intro route_members_length) (auto simp: is_hello_def)
    moreover have "int (length (json_quote (rf_EphemeralKey f))) = (4 * int 65 + 2) div 3 + 2"
      "int (length (json_quote (rf_Nonce f))) = (4 * int 32 + 2) div 3 + 2"
      "int (length (json_quote (rf_Signature f))) = (4 * int 64 + 2) div 3 + 2"
      "length (decimal (rf_BindingVersion f)) \<le> 19" "length (decimal (rf_KeyVersion f)) \<le> 19"
      "length (decimal (rf_CreatedAt f)) \<le> 19"
      using hello(2) length_quote_base64 length_int unfolding hello_ok_def by blast+
    ultimately show ?thesis using p L hello(1) by (simp add: frame_members_def)
  next
    case confirmation
    then have "?w (route_members f) \<le> 3100" using route by (intro route_members_length) simp_all
    moreover have "int (length (json_quote (rf_Confirmation f))) = (4 * int 32 + 2) div 3 + 2"
      using confirmation(3) length_quote_base64 unfolding confirmation_ok_def by blast
    moreover have "length (rf_SenderRole f) \<le> 7" using confirmation(3) by (auto simp: confirmation_ok_def)
    ultimately show ?thesis using p L confirmation(1,2) length_quote [of "rf_SenderRole f"]
      by (simp add: frame_members_def)
  next
    case envelope
    then have "?w (route_members f) \<le> 3100" using route by (intro route_members_length) simp_all
    moreover obtain n where n: "base64_of n (rf_Ciphertext f)" "int n \<le> EffectiveMessageBytes configuredMax + GCMTagBytes"
      using envelope(4) unfolding envelope_ok_def by blast
    then have "int (length (json_quote (rf_Ciphertext f))) \<le> ?L + 2"
      using length_quote_base64 [OF n(1)] by (simp add: zdiv_mono1)
    moreover have "int (length (json_quote (rf_Nonce f))) = (4 * int 12 + 2) div 3 + 2"
      "length (json_quote (rf_MessageID f)) \<le> 770" "length (decimal (rf_CreatedAt f)) \<le> 19"
      using envelope(4) length_quote_base64 length_int length_quote_ident unfolding envelope_ok_def by blast+
    moreover have "length (decimal (rf_Sequence f)) \<le> 19"
      using envelope(4) by (intro length_int) (simp add: envelope_ok_def int_ok_def MaxEncryptedSequence_def MaxInt64_def)
    moreover have "length (rf_Kind f) \<le> 12" "length (rf_PayloadEncoding f) = 14"
      using envelope(4) by (auto simp: envelope_ok_def)
    ultimately show ?thesis
      using p L(1) envelope(2,3) length_quote [of "rf_Kind f"] length_quote [of "rf_PayloadEncoding f"]
      by (simp add: frame_members_def)
  qed
qed

end
