(* ===== verification/Session.thy ===== *)
theory Session
  imports Prelude
begin

text \<open>
  Relay sessions (\<open>internal/session/registry.go\<close>): the identity a socket was opened for, and the
  registry that keeps the latest session per host and per device, under keys made of the
  identifiers. A Go map is the list of its entries with distinct keys.
\<close>

section \<open>Go maps\<close>

definition map_put :: "'k \<Rightarrow> 'v \<Rightarrow> ('k \<times> 'v) list \<Rightarrow> ('k \<times> 'v) list" where
  "map_put k v m = (k, v) # filter (\<lambda>e. fst e \<noteq> k) m"

definition map_delete :: "'k \<Rightarrow> ('k \<times> 'v) list \<Rightarrow> ('k \<times> 'v) list" where
  "map_delete k m = filter (\<lambda>e. fst e \<noteq> k) m"

definition map_keys_ok :: "('k \<times> 'v) list \<Rightarrow> bool" where
  "map_keys_ok m \<longleftrightarrow> distinct (map fst m)"

lemma map_of_delete [simp]: "map_of (map_delete k m) = (map_of m)(k := None)"
  by (induction m) (auto simp: map_delete_def fun_eq_iff)

lemma map_of_put [simp]: "map_of (map_put k v m) = (map_of m)(k \<mapsto> v)"
  using map_of_delete [of k m] by (simp add: map_put_def map_delete_def fun_eq_iff)

lemma distinct_filter_keys: "distinct (map fst m) \<Longrightarrow> distinct (map fst (filter P m))"
  by (induction m) auto

lemma map_keys_put [simp]: "map_keys_ok m \<Longrightarrow> map_keys_ok (map_put k v m)"
  by (auto simp: map_keys_ok_def map_put_def distinct_filter_keys)

lemma map_keys_delete [simp]: "map_keys_ok m \<Longrightarrow> map_keys_ok (map_delete k m)"
  by (simp add: map_keys_ok_def map_delete_def distinct_filter_keys)

lemma map_keys_Nil [simp]: "map_keys_ok []"
  by (simp add: map_keys_ok_def)

lemma in_map_put: "e \<in> set (map_put k v m) \<longleftrightarrow> e = (k, v) \<or> e \<in> set m \<and> fst e \<noteq> k"
  by (auto simp: map_put_def)

lemma in_map_delete: "e \<in> set (map_delete k m) \<longleftrightarrow> e \<in> set m \<and> fst e \<noteq> k"
  by (auto simp: map_delete_def)

lemma map_entry: "map_keys_ok m \<Longrightarrow> map_of m k = Some v \<longleftrightarrow> (k, v) \<in> set m"
  by (simp add: map_keys_ok_def)

section \<open>Sessions\<close>

abbreviation (input) ConnectionHost :: string where "ConnectionHost \<equiv> ''windows_host''"
abbreviation (input) ConnectionDevice :: string where "ConnectionDevice \<equiv> ''mobile_device''"

record session =
  se_TenantID :: string
  se_HostID :: string
  se_DeviceID :: string
  se_SessionID :: string
  se_ConnectionType :: string

record registry =
  rg_hosts :: "(string \<times> session) list"
  rg_devices :: "(string \<times> session) list"

definition hostKey :: "string \<Rightarrow> string \<Rightarrow> string" where
  "hostKey tenantID hostID = tenantID @ ''/'' @ hostID"

definition session_deviceKey :: "string \<Rightarrow> string \<Rightarrow> string \<Rightarrow> string" where
  "session_deviceKey tenantID hostID deviceID = tenantID @ ''/'' @ hostID @ ''/'' @ deviceID"

definition NewRegistry :: registry where
  "NewRegistry = \<lparr>rg_hosts = [], rg_devices = []\<rparr>"

definition Add :: "session \<Rightarrow> registry \<Rightarrow> registry" where
  "Add s r =
     (let r1 = (if se_ConnectionType s = ConnectionHost
                then r\<lparr>rg_hosts := map_put (hostKey (se_TenantID s) (se_HostID s)) s (rg_hosts r)\<rparr> else r)
      in if se_ConnectionType s = ConnectionDevice
         then r1\<lparr>rg_devices := map_put (session_deviceKey (se_TenantID s) (se_HostID s) (se_DeviceID s)) s (rg_devices r1)\<rparr>
         else r1)"

definition FindHost :: "string \<Rightarrow> string \<Rightarrow> registry \<Rightarrow> session option" where
  "FindHost tenantID hostID r = map_of (rg_hosts r) (hostKey tenantID hostID)"

definition FindDevice :: "string \<Rightarrow> string \<Rightarrow> string \<Rightarrow> registry \<Rightarrow> session option" where
  "FindDevice tenantID hostID deviceID r = map_of (rg_devices r) (session_deviceKey tenantID hostID deviceID)"

section \<open>Keys\<close>

text \<open>
  The keys tell identities apart as long as the identifiers before the last have no slash; with a
  slash in a host identifier they do not.
\<close>

definition no_slash :: "string \<Rightarrow> bool" where
  "no_slash s \<longleftrightarrow> CHR ''/'' \<notin> set s"

lemma slash_split:
  assumes "a @ CHR ''/'' # b = c @ CHR ''/'' # d" "no_slash a" "no_slash c"
  shows "a = c \<and> b = d"
  using assms
proof (induction a arbitrary: c)
  case Nil
  then show ?case by (cases c) (auto simp: no_slash_def)
next
  case (Cons x a)
  then show ?case by (cases c) (auto simp: no_slash_def)
qed

text \<open>The interface routing needs of keys: they are injective on the identities in use.\<close>

locale routing_key =
  fixes key :: "'i \<Rightarrow> 'k" and ok :: "'i \<Rightarrow> bool"
  assumes key_inj: "ok x \<Longrightarrow> ok y \<Longrightarrow> key x = key y \<Longrightarrow> x = y"
begin

lemma key_eq_iff: "ok x \<Longrightarrow> ok y \<Longrightarrow> key x = key y \<longleftrightarrow> x = y"
  using key_inj by blast

text \<open>A map by key, read as a map by identity, is updated where it is put.\<close>

lemma put_reads:
  "ok x \<Longrightarrow> ok y \<Longrightarrow> map_of (map_put (key x) v m) (key y) = (if x = y then Some v else map_of m (key y))"
  using key_inj by auto

lemma delete_reads:
  "ok x \<Longrightarrow> ok y \<Longrightarrow> map_of (map_delete (key x) m) (key y) = (if x = y then None else map_of m (key y))"
  using key_inj by auto

end

interpretation hkey: routing_key "\<lambda>(t, h). hostKey t h" "\<lambda>(t, h). no_slash t"
  by unfold_locales (auto simp: hostKey_def dest: slash_split)

lemma deviceKey_split:
  assumes "session_deviceKey t h v = session_deviceKey t' h' v'" "no_slash t" "no_slash h" "no_slash t'" "no_slash h'"
  shows "t = t' \<and> h = h' \<and> v = v'"
  using assms slash_split [of t "h @ CHR ''/'' # v" t' "h' @ CHR ''/'' # v'"] slash_split [of h v h' v']
  by (simp add: session_deviceKey_def)

interpretation dkey: routing_key "\<lambda>(t, h, v). session_deviceKey t h v" "\<lambda>(t, h, v). no_slash t \<and> no_slash h"
  by unfold_locales (auto dest: deviceKey_split)

text \<open>
  The registry returns the session last added for a host or device, and adding one changes no
  other, for identifiers without slashes in tenant and host.
\<close>

lemma registry_lookup:
  assumes "no_slash (se_TenantID s)" "no_slash (se_HostID s)" "no_slash t" "no_slash h"
  shows "FindHost t h (Add s r) =
      (if se_ConnectionType s = ConnectionHost \<and> se_TenantID s = t \<and> se_HostID s = h then Some s else FindHost t h r) \<and>
    FindDevice t h v (Add s r) =
      (if se_ConnectionType s = ConnectionDevice \<and> se_TenantID s = t \<and> se_HostID s = h \<and> se_DeviceID s = v
       then Some s else FindDevice t h v r)"
  using hkey.put_reads [of "(se_TenantID s, se_HostID s)" "(t, h)"]
    dkey.put_reads [of "(se_TenantID s, se_HostID s, se_DeviceID s)" "(t, h, v)"] assms
  by (auto simp: Add_def Let_def FindHost_def FindDevice_def)

end
