(* ===== verification/Server.thy ===== *)
theory Server
  imports Services Frames Session
begin

text \<open>
  The relay server (\<open>internal/relay/server.go\<close>): its state, reading a WebSocket request, the ticket
  check, and the registries of connected sockets. Registry operations run under one lock, so each is
  one function on the state; it also returns the sockets the code goes on to close, with code and
  reason. A socket carries a number that stands for its pointer: Go compares sockets by pointer.
\<close>

section \<open>State\<close>

abbreviation (input) closeInvalidFrame :: int where "closeInvalidFrame \<equiv> 4001"
abbreviation (input) closeRouteMissing :: int where "closeRouteMissing \<equiv> 4004"
abbreviation (input) closeIdentity :: int where "closeIdentity \<equiv> 4008"
abbreviation (input) closeReplaced :: int where "closeReplaced \<equiv> 4009"
abbreviation (input) StatusNormalClosure :: int where "StatusNormalClosure \<equiv> 1000"
abbreviation (input) StatusGoingAway :: int where "StatusGoingAway \<equiv> 1001"

record web_socket =
  wk_id :: nat
  wk_session :: session

record challenge_attempt =
  ca_windowStart :: int
  ca_count :: int

record server =
  sv_MaxMessageBytes :: int
  sv_PairingAttemptsPerMinute :: int
  sv_store :: bool
  sv_db :: db
  sv_authOnce :: bool
  sv_identity :: "signer option"
  sv_authService :: "auth_service option"
  sv_authErr :: "string option"
  sv_challengeAttempts :: "(string \<times> challenge_attempt) list"
  sv_hosts :: "(string \<times> web_socket) list"
  sv_devices :: "(string \<times> web_socket) list"
  sv_shuttingDown :: bool
  sv_webSocketWG :: int
  sv_shutdownOnce :: bool

definition NewServer :: "int \<Rightarrow> int \<Rightarrow> server" where
  "NewServer maxMessageBytes attempts =
     \<lparr>sv_MaxMessageBytes = maxMessageBytes, sv_PairingAttemptsPerMinute = attempts, sv_store = False,
      sv_db = empty_db, sv_authOnce = False, sv_identity = None, sv_authService = None,
      sv_authErr = None, sv_challengeAttempts = [], sv_hosts = [], sv_devices = [],
      sv_shuttingDown = False, sv_webSocketWG = 0, sv_shutdownOnce = False\<rparr>"

definition NewServerWithStore :: "int \<Rightarrow> int \<Rightarrow> db \<Rightarrow> server" where
  "NewServerWithStore maxMessageBytes attempts d =
     (NewServer maxMessageBytes attempts)\<lparr>sv_store := True, sv_db := d\<rparr>"

text \<open>What a call closes: a socket, the close code and the reason.\<close>

type_synonym closing = "web_socket \<times> int \<times> string"

definition closeSessions :: "web_socket list \<Rightarrow> int \<Rightarrow> string \<Rightarrow> closing list" where
  "closeSessions sessions code reason = map (\<lambda>w. (w, code, reason)) sessions"

text \<open>A service call on the server's store.\<close>

definition on_store :: "(db, 'a) tx \<Rightarrow> server \<Rightarrow> 'a result \<times> server" where
  "on_store m s = (case m (sv_db s) of (r, d') \<Rightarrow> (r, s\<lparr>sv_db := d'\<rparr>))"

section \<open>Requests\<close>

record request =
  rq_Method :: string
  rq_RemoteAddr :: string
  rq_Authorization :: string
  rq_Query :: "(string \<times> string list) list"
  rq_Path :: "(string \<times> string) list"

text \<open>\<open>url.Values.Get\<close>: the first value of a key, or the empty string.\<close>

definition query_get :: "(string \<times> string list) list \<Rightarrow> string \<Rightarrow> string" where
  "query_get q key = (case map_of q key of Some (v # _) \<Rightarrow> v | _ \<Rightarrow> [])"

definition PathValue :: "request \<Rightarrow> string \<Rightarrow> string" where
  "PathValue r key = (case map_of (rq_Path r) key of None \<Rightarrow> [] | Some v \<Rightarrow> v)"

definition query_keys :: "string list" where
  "query_keys = [''connection'', ''tenantId'', ''hostId'', ''deviceId'']"

definition sessionFromRequest :: "request \<Rightarrow> session result" where
  "sessionFromRequest r =
     (let q = rq_Query r in
      if length q \<noteq> 4 then Inl ''invalid query''
      else if list_ex (\<lambda>key. case map_of q key of None \<Rightarrow> True
             | Some vs \<Rightarrow> length vs \<noteq> 1 \<or> hd vs = []) query_keys then Inl ''invalid query''
      else if list_ex (\<lambda>(key, _). key \<notin> set query_keys) q then Inl ''invalid query''
      else
        let t = query_get q ''tenantId''; h = query_get q ''hostId''; v = query_get q ''deviceId'' in
        if length t > 128 \<or> length h > 128 \<or> length v > 128 then Inl ''invalid query''
        else
          let res = \<lparr>se_TenantID = t, se_HostID = h, se_DeviceID = v, se_SessionID = [], se_ConnectionType = []\<rparr> in
          if query_get q ''connection'' = ''host'' then Inr (res\<lparr>se_ConnectionType := ConnectionHost\<rparr>)
          else if query_get q ''connection'' = ''device'' then Inr (res\<lparr>se_ConnectionType := ConnectionDevice\<rparr>)
          else Inl ''invalid query'')"

definition bearerToken :: "string \<Rightarrow> string option" where
  "bearerToken header =
     (if length header \<le> length ''Bearer '' \<or> take (length ''Bearer '') header \<noteq> ''Bearer '' then None
      else Some (drop (length ''Bearer '') header))"

text \<open>
  The identity is loaded once, by \<open>LoadOrCreateRelayIdentity\<close>, whose outcome is the argument
  \<open>load\<close>; later calls repeat the first result.
\<close>

definition ensureAuth :: "signer result \<Rightarrow> server \<Rightarrow> string option \<times> server" where
  "ensureAuth load s =
     (if sv_authOnce s then (sv_authErr s, s)
      else
        let s1 = (case load of
            Inl e \<Rightarrow> s\<lparr>sv_authOnce := True, sv_identity := None, sv_authErr := Some e\<rparr>
          | Inr sg \<Rightarrow> (s\<lparr>sv_authOnce := True, sv_identity := Some sg, sv_authErr := None\<rparr>)
              \<lparr>sv_authService := (if sv_store s then Some \<lparr>as_store = True, as_signer = Some sg\<rparr>
                 else sv_authService s)\<rparr>)
        in (sv_authErr s1, s1))"

definition session_scope :: "session \<Rightarrow> ticket_scope option" where
  "session_scope a =
     (if se_ConnectionType a = ConnectionHost then
        Some \<lparr>ts_SubjectType = ''host'', ts_SubjectID = se_HostID a, ts_TenantID = se_TenantID a,
          ts_HostID = se_HostID a, ts_DeviceID = se_DeviceID a, ts_Purpose = ''websocket_host''\<rparr>
      else if se_ConnectionType a = ConnectionDevice then
        Some \<lparr>ts_SubjectType = ''device'', ts_SubjectID = se_DeviceID a, ts_TenantID = se_TenantID a,
          ts_HostID = se_HostID a, ts_DeviceID = se_DeviceID a, ts_Purpose = ''websocket_device''\<rparr>
      else None)"

definition is_Inr :: "'a result \<Rightarrow> bool" where
  "is_Inr r = (case r of Inl _ \<Rightarrow> False | Inr _ \<Rightarrow> True)"

definition authenticateSession ::
  "crypto \<Rightarrow> signer result \<Rightarrow> int \<Rightarrow> faults \<Rightarrow> request \<Rightarrow> session \<Rightarrow> server \<Rightarrow> bool \<times> server" where
  "authenticateSession cr load now flt r active s =
     (if \<not> sv_store s then (True, s)
      else case bearerToken (rq_Authorization r) of None \<Rightarrow> (False, s) | Some token \<Rightarrow>
      case session_scope active of None \<Rightarrow> (False, s) | Some sc \<Rightarrow>
      case ensureAuth load s of (err, s1) \<Rightarrow>
      if err \<noteq> None \<or> sv_authService s1 = None then (False, s1)
      else case on_store (ConsumeTicket cr (sv_authService s1) now flt token sc) s1 of
        (res, s2) \<Rightarrow> (is_Inr res, s2))"

section \<open>The registries\<close>

definition deviceKey :: "string \<Rightarrow> string \<Rightarrow> string \<Rightarrow> string" where
  "deviceKey tenantID hostID deviceID = tenantID @ ''/'' @ hostID @ ''/'' @ deviceID"

definition session_key :: "web_socket \<Rightarrow> string" where
  "session_key w = deviceKey (se_TenantID (wk_session w)) (se_HostID (wk_session w)) (se_DeviceID (wk_session w))"

text \<open>The socket under a key, as the list of none or one socket to close.\<close>

definition entry :: "'k \<Rightarrow> ('k \<times> 'v) list \<Rightarrow> 'v list" where
  "entry k m = (case map_of m k of None \<Rightarrow> [] | Some w \<Rightarrow> [w])"

text \<open>Whether the socket under a key is this one, by pointer.\<close>

definition holds :: "(string \<times> web_socket) list \<Rightarrow> string \<Rightarrow> web_socket \<Rightarrow> bool" where
  "holds m k w = (case map_of m k of None \<Rightarrow> False | Some x \<Rightarrow> wk_id x = wk_id w)"

definition routeActiveLocked :: "faults \<Rightarrow> session \<Rightarrow> server \<Rightarrow> bool" where
  "routeActiveLocked flt active s =
     (if \<not> sv_store s then True
      else is_Inr (fst (GetDevice flt (se_TenantID active) (se_HostID active) (se_DeviceID active) (sv_db s))))"

definition addSessionWithLifecycle ::
  "bool \<Rightarrow> faults \<Rightarrow> web_socket \<Rightarrow> server \<Rightarrow> bool \<times> closing list \<times> server" where
  "addSessionWithLifecycle trackLifecycle flt ws s =
     (let key = session_key ws in
      if sv_shuttingDown s \<or> \<not> routeActiveLocked flt (wk_session ws) s then (False, [], s)
      else
        let track = (\<lambda>s. if trackLifecycle then s\<lparr>sv_webSocketWG := sv_webSocketWG s + 1\<rparr> else s) in
        if se_ConnectionType (wk_session ws) = ConnectionHost then
          (True, closeSessions (entry key (sv_hosts s) @ entry key (sv_devices s)) closeReplaced ''peer_replaced'',
           track (s\<lparr>sv_hosts := map_put key ws (sv_hosts s), sv_devices := map_delete key (sv_devices s)\<rparr>))
        else if se_ConnectionType (wk_session ws) = ConnectionDevice then
          (True, closeSessions (entry key (sv_devices s)) closeReplaced ''peer_replaced'',
           track (s\<lparr>sv_devices := map_put key ws (sv_devices s)\<rparr>))
        else (False, [], s))"

definition addSession :: "faults \<Rightarrow> web_socket \<Rightarrow> server \<Rightarrow> bool \<times> closing list \<times> server" where
  "addSession = addSessionWithLifecycle False"

definition beginWebSocket :: "faults \<Rightarrow> web_socket \<Rightarrow> server \<Rightarrow> bool \<times> closing list \<times> server" where
  "beginWebSocket = addSessionWithLifecycle True"

definition removeSession :: "web_socket \<Rightarrow> server \<Rightarrow> closing list \<times> server" where
  "removeSession ws s =
     (let key = session_key ws;
          gone = s\<lparr>sv_hosts := map_delete key (sv_hosts s), sv_devices := map_delete key (sv_devices s)\<rparr> in
      if se_ConnectionType (wk_session ws) = ConnectionHost \<and> holds (sv_hosts s) key ws then
        (closeSessions (entry key (sv_devices s)) closeRouteMissing ''route_unavailable'', gone)
      else if se_ConnectionType (wk_session ws) = ConnectionDevice \<and> holds (sv_devices s) key ws then
        (closeSessions (entry key (sv_hosts s)) closeRouteMissing ''route_unavailable'', gone)
      else ([], s))"

definition isDeviceOnline :: "string \<Rightarrow> string \<Rightarrow> string \<Rightarrow> server \<Rightarrow> bool" where
  "isDeviceOnline tenantID hostID deviceID s = (map_of (sv_devices s) (deviceKey tenantID hostID deviceID) \<noteq> None)"

definition revokeDevice ::
  "faults \<Rightarrow> string \<Rightarrow> string \<Rightarrow> string \<Rightarrow> server \<Rightarrow> unit result \<times> closing list \<times> server" where
  "revokeDevice flt tenantID hostID deviceID s =
     (let key = deviceKey tenantID hostID deviceID in
      case on_store (RevokeDevice flt tenantID hostID deviceID) s of
        (Inl e, s1) \<Rightarrow> (Inl e, [], s1)
      | (Inr _, s1) \<Rightarrow>
          (Inr (), closeSessions (entry key (sv_hosts s1) @ entry key (sv_devices s1)) closeIdentity
             ''identity_or_direction_mismatch'',
           s1\<lparr>sv_hosts := map_delete key (sv_hosts s1), sv_devices := map_delete key (sv_devices s1)\<rparr>))"

section \<open>Frames\<close>

text \<open>Zero when the frame is the sender's to send, and the close code otherwise.\<close>

definition validateSenderFrame :: "session \<Rightarrow> relay_frame \<Rightarrow> int" where
  "validateSenderFrame sender frame =
     (if rf_TenantID frame \<noteq> se_TenantID sender \<or> rf_HostID frame \<noteq> se_HostID sender \<or>
         rf_DeviceID frame \<noteq> se_DeviceID sender then closeIdentity
      else if se_ConnectionType sender = ConnectionHost \<and> rf_Direction frame \<noteq> DirectionWindowsToMobile
      then closeIdentity
      else if se_ConnectionType sender = ConnectionDevice \<and> rf_Direction frame \<noteq> DirectionMobileToWindows
      then closeIdentity
      else 0)"

text \<open>
  \<open>routeFrame\<close> reads the target under the lock and writes after releasing it. The first part yields
  the target or the closing of the sender; the second the closing of the sender when the write fails.
\<close>

definition routeTarget :: "web_socket \<Rightarrow> relay_frame \<Rightarrow> server \<Rightarrow> closing + web_socket" where
  "routeTarget sender frame s =
     (let key = deviceKey (rf_TenantID frame) (rf_HostID frame) (rf_DeviceID frame);
          current = (if se_ConnectionType (wk_session sender) = ConnectionDevice then sv_devices s else sv_hosts s)
      in
      if \<not> holds current key sender then Inl (sender, closeReplaced, ''peer_replaced'')
      else case map_of (if rf_Direction frame = DirectionWindowsToMobile then sv_devices s else sv_hosts s) key of
        None \<Rightarrow> Inl (sender, closeRouteMissing, ''route_unavailable'')
      | Some target \<Rightarrow> Inr target)"

definition routeFrame :: "(web_socket \<Rightarrow> bool) \<Rightarrow> web_socket \<Rightarrow> relay_frame \<Rightarrow> server \<Rightarrow> bool \<times> closing list" where
  "routeFrame writeRaw sender frame s =
     (case routeTarget sender frame s of
        Inl c \<Rightarrow> (False, [c])
      | Inr target \<Rightarrow>
          if writeRaw target then (True, []) else (False, [(sender, closeRouteMissing, ''route_unavailable'')]))"

section \<open>Shutdown\<close>

text \<open>The sockets of both registries, each once.\<close>

definition beginShutdown :: "server \<Rightarrow> closing list \<times> server" where
  "beginShutdown s =
     (if sv_shutdownOnce s then ([], s)
      else
        (closeSessions (remdups (map snd (sv_hosts s) @ map snd (sv_devices s))) StatusGoingAway ''server_shutdown'',
         s\<lparr>sv_shutdownOnce := True, sv_shuttingDown := True, sv_hosts := [], sv_devices := []\<rparr>))"

end
