(* ===== verification/Limiter.thy ===== *)
theory Limiter
  imports Server
begin

text \<open>
  The limit on challenge requests per source address (\<open>allowChallenge\<close> in
  \<open>internal/relay/auth_handlers.go\<close>): a table of at most 1024 sources, each with the start of its
  minute and the requests counted since.
\<close>

section \<open>The source address\<close>

text \<open>\<open>strings.IndexByte\<close> and \<open>strings.LastIndexByte\<close>\<close>

definition index_byte :: "char \<Rightarrow> string \<Rightarrow> nat option" where
  "index_byte c s = find (\<lambda>i. s ! i = c) [0..<length s]"

definition last_index_byte :: "char \<Rightarrow> string \<Rightarrow> nat option" where
  "last_index_byte c s = find (\<lambda>i. s ! i = c) (rev [0..<length s])"

text \<open>\<open>net.SplitHostPort\<close>: the host of an address that splits into host and port.\<close>

definition SplitHostPort :: "string \<Rightarrow> string option" where
  "SplitHostPort hostport =
     (case last_index_byte (CHR '':'') hostport of
        None \<Rightarrow> None
      | Some i \<Rightarrow>
          if hd hostport = CHR ''['' then
            (case index_byte (CHR '']'') hostport of
               None \<Rightarrow> None
             | Some e \<Rightarrow>
                 if e + 1 \<noteq> i then None
                 else if CHR ''['' \<in> set (drop 1 hostport) \<or> CHR '']'' \<in> set (drop (e + 1) hostport) then None
                 else Some (take (e - 1) (drop 1 hostport)))
          else
            let host = take i hostport in
            if CHR '':'' \<in> set host \<or> CHR ''['' \<in> set hostport \<or> CHR '']'' \<in> set hostport then None
            else Some host)"

definition source_address :: "request \<Rightarrow> string" where
  "source_address r = (case SplitHostPort (rq_RemoteAddr r) of None \<Rightarrow> rq_RemoteAddr r | Some host \<Rightarrow> host)"

section \<open>The limit\<close>

definition maxChallengeSources :: nat where "maxChallengeSources = 1024"

text \<open>\<open>Time.Sub\<close>: the difference, saturated to the range of a duration.\<close>

definition time_Sub :: "int \<Rightarrow> int \<Rightarrow> int" where
  "time_Sub t u = max (- (2 ^ 63)) (min (2 ^ 63 - 1) (t - u))"

definition expired_window :: "int \<Rightarrow> challenge_attempt \<Rightarrow> bool" where
  "expired_window now attempt \<longleftrightarrow> time_Sub now (ca_windowStart attempt) \<ge> Minute"

definition zero_attempt :: challenge_attempt where
  "zero_attempt = \<lparr>ca_windowStart = zero_time, ca_count = 0\<rparr>"

definition count_attempt ::
  "int \<Rightarrow> int \<Rightarrow> string \<Rightarrow> (string \<times> challenge_attempt) list \<Rightarrow> bool \<times> (string \<times> challenge_attempt) list" where
  "count_attempt limit now address table =
     (let swept = filter (\<lambda>(source, attempt). \<not> expired_window now attempt) table;
          attempt = (case map_of swept address of None \<Rightarrow> zero_attempt | Some a \<Rightarrow> a);
          fresh = (ca_windowStart attempt = zero_time \<or> expired_window now attempt)
      in
      if fresh \<and> map_of swept address = None \<and> length swept \<ge> maxChallengeSources then (False, swept)
      else
        let attempt = (if fresh then \<lparr>ca_windowStart = now, ca_count = 0\<rparr> else attempt) in
        if ca_count attempt \<ge> limit then (False, map_put address attempt swept)
        else (True, map_put address (attempt\<lparr>ca_count := ca_count attempt + 1\<rparr>) swept))"

definition allowChallenge :: "int \<Rightarrow> request \<Rightarrow> server \<Rightarrow> bool \<times> server" where
  "allowChallenge now r s =
     (let limit = sv_PairingAttemptsPerMinute s in
      if limit \<le> 0 then (False, s)
      else case count_attempt limit now (source_address r) (sv_challengeAttempts s) of
        (ok, table) \<Rightarrow> (ok, s\<lparr>sv_challengeAttempts := table\<rparr>))"

section \<open>Bounds\<close>

text \<open>Saturation does not matter for the comparison with a minute.\<close>

lemma expired_iff: "expired_window now a \<longleftrightarrow> now - ca_windowStart a \<ge> Minute"
  by (auto simp: expired_window_def time_Sub_def Minute_def Second_def)

text \<open>A table of the limiter: one entry per source, at most 1024, counts between zero and the
  limit, and no window that starts at Go's zero time.\<close>

definition limiter_ok :: "int \<Rightarrow> (string \<times> challenge_attempt) list \<Rightarrow> bool" where
  "limiter_ok limit table \<longleftrightarrow> map_keys_ok table \<and> length table \<le> maxChallengeSources \<and>
     (\<forall>attempt\<in>snd ` set table. 0 \<le> ca_count attempt \<and> ca_count attempt \<le> limit \<and> ca_windowStart attempt \<noteq> zero_time)"

lemma map_delete_absent: "k \<notin> fst ` set m \<Longrightarrow> map_delete k m = m"
  by (force simp: map_delete_def filter_id_conv)

lemma length_delete: "map_keys_ok m \<Longrightarrow> map_of m k = Some w \<Longrightarrow> Suc (length (map_delete k m)) = length m"
proof (induction m)
  case (Cons e m)
  show ?case
  proof (cases "fst e = k")
    case True
    with Cons.prems(1) have "map_delete k m = m" by (intro map_delete_absent) (auto simp: map_keys_ok_def)
    with True show ?thesis by (simp add: map_delete_def)
  next
    case False
    with Cons show ?thesis by (cases e) (auto simp: map_keys_ok_def map_delete_def)
  qed
qed simp

lemma length_put:
  assumes "map_keys_ok m"
  shows "length (map_put k v m) = (if map_of m k = None then Suc (length m) else length m)"
  using length_delete [OF assms] map_delete_absent [of k m]
  by (cases "map_of m k") (auto simp: map_put_def map_delete_def map_of_eq_None_iff)

lemma map_of_sweep:
  assumes "map_keys_ok m" shows "map_of (filter (\<lambda>(k, v). P v) m) k = (case map_of m k of None \<Rightarrow> None | Some v \<Rightarrow> if P v then Some v else None)"
  using assms
proof (induction m)
  case (Cons e m)
  then have "k \<notin> fst ` set m" if "fst e = k" using that by (auto simp: map_keys_ok_def)
  then have "map_of m k = None" if "fst e = k" using that by (simp add: map_of_eq_None_iff)
  with Cons show ?case by (cases e) (auto simp: map_keys_ok_def)
qed simp

definition sweep :: "int \<Rightarrow> (string \<times> challenge_attempt) list \<Rightarrow> (string \<times> challenge_attempt) list" where
  "sweep now table = filter (\<lambda>(source, attempt). \<not> expired_window now attempt) table"

lemma sweep_ok: "limiter_ok limit table \<Longrightarrow> limiter_ok limit (sweep now table)"
  unfolding limiter_ok_def sweep_def
  by (auto simp: map_keys_ok_def distinct_filter_keys intro: le_trans [OF length_filter_le])

lemma sweep_get:
  "limiter_ok limit table \<Longrightarrow> map_of (sweep now table) k =
     (case map_of table k of None \<Rightarrow> None | Some a \<Rightarrow> if expired_window now a then None else Some a)"
  unfolding sweep_def limiter_ok_def by (auto simp: map_of_sweep split: option.splits)

lemma limiter_entry:
  "limiter_ok limit table \<Longrightarrow> map_of table k = Some a \<Longrightarrow>
   0 \<le> ca_count a \<and> ca_count a \<le> limit \<and> ca_windowStart a \<noteq> zero_time"
  unfolding limiter_ok_def by (force dest: map_of_SomeD)

text \<open>The outcomes of one request.\<close>

lemma count_attempt_cases:
  assumes "limiter_ok limit table" "0 < limit" "count_attempt limit now address table = (ok, table')"
  obtains (full) "map_of (sweep now table) address = None" "maxChallengeSources \<le> length (sweep now table)"
      "\<not> ok" "table' = sweep now table"
  | (first) "map_of (sweep now table) address = None" "length (sweep now table) < maxChallengeSources" "ok"
      "table' = map_put address \<lparr>ca_windowStart = now, ca_count = 1\<rparr> (sweep now table)"
  | (over) a where "map_of (sweep now table) address = Some a" "limit \<le> ca_count a" "\<not> ok"
      "table' = map_put address a (sweep now table)"
  | (counted) a where "map_of (sweep now table) address = Some a" "ca_count a < limit" "ok"
      "table' = map_put address (a\<lparr>ca_count := ca_count a + 1\<rparr>) (sweep now table)"
proof (cases "map_of (sweep now table) address")
  case None
  have run: "count_attempt limit now address table =
      (if maxChallengeSources \<le> length (sweep now table) then (False, sweep now table)
       else (True, map_put address \<lparr>ca_windowStart = now, ca_count = 1\<rparr> (sweep now table)))"
    unfolding count_attempt_def Let_def sweep_def [symmetric] None using assms(2) by (simp add: zero_attempt_def)
  show ?thesis
  proof (cases "maxChallengeSources \<le> length (sweep now table)")
    case True
    with run assms(3) None show ?thesis by (intro that(1)) auto
  next
    case False
    with run assms(3) None show ?thesis by (intro that(2)) auto
  qed
next
  case (Some a)
  have "ca_windowStart a \<noteq> zero_time" using limiter_entry [OF sweep_ok [OF assms(1)] Some] by blast
  moreover have "\<not> expired_window now a"
    using Some sweep_get [OF assms(1), of now address] by (auto split: option.splits if_splits)
  ultimately have run: "count_attempt limit now address table =
      (if limit \<le> ca_count a then (False, map_put address a (sweep now table))
       else (True, map_put address (a\<lparr>ca_count := ca_count a + 1\<rparr>) (sweep now table)))"
    unfolding count_attempt_def Let_def sweep_def [symmetric] Some by simp
  show ?thesis
  proof (cases "limit \<le> ca_count a")
    case True
    with run assms(3) Some show ?thesis by (intro that(3)) auto
  next
    case False
    with run assms(3) Some show ?thesis by (intro that(4)) auto
  qed
qed

lemma limiter_put:
  assumes "limiter_ok limit m" "0 \<le> ca_count a" "ca_count a \<le> limit" "ca_windowStart a \<noteq> zero_time"
    and "map_of m k \<noteq> None \<or> length m < maxChallengeSources"
  shows "limiter_ok limit (map_put k a m)"
  using assms length_put [of m k a] unfolding limiter_ok_def by (auto simp: in_map_put)

lemma count_attempt_ok:
  assumes "limiter_ok limit table" "0 < limit" "now \<noteq> zero_time" "count_attempt limit now address table = (ok, table')"
  shows "limiter_ok limit table'"
  using assms(1,2,4)
proof (cases rule: count_attempt_cases)
  case full
  then show ?thesis using sweep_ok [OF assms(1)] by simp
next
  case first
  then show ?thesis using sweep_ok [OF assms(1)] assms(2,3) by (simp add: limiter_put)
next
  case (over a)
  then show ?thesis using sweep_ok [OF assms(1)] limiter_entry [OF sweep_ok [OF assms(1)] over(1)] by (simp add: limiter_put)
next
  case (counted a)
  then show ?thesis using sweep_ok [OF assms(1)] limiter_entry [OF sweep_ok [OF assms(1)] counted(1)] by (simp add: limiter_put)
qed

text \<open>
  What a source may still be granted before \<open>t0\<close> plus a minute: the rest of a window that starts in
  this minute, or the rest of the current one and another full one.
\<close>

definition budget :: "int \<Rightarrow> int \<Rightarrow> string \<Rightarrow> (string \<times> challenge_attempt) list \<Rightarrow> int" where
  "budget limit t0 source table = (case map_of table source of None \<Rightarrow> limit
     | Some a \<Rightarrow> (if t0 \<le> ca_windowStart a then limit else 2 * limit) - ca_count a)"

lemma budget_range: "limiter_ok limit table \<Longrightarrow> 0 < limit \<Longrightarrow> 0 \<le> budget limit t0 source table \<and> budget limit t0 source table \<le> 2 * limit"
  using limiter_entry [of limit table source] by (force simp: budget_def split: option.splits)

lemma budget_sweep:
  assumes "limiter_ok limit table" "0 < limit" "now < t0 + Minute"
  shows "budget limit t0 source (sweep now table) \<le> budget limit t0 source table"
  using limiter_entry [OF assms(1), of source] assms
  by (auto simp: budget_def sweep_get expired_iff split: option.splits)

lemma budget_step:
  assumes "limiter_ok limit table" "0 < limit" "t0 \<le> now" "now < t0 + Minute"
    and "count_attempt limit now address table = (ok, table')"
  shows "(if ok \<and> address = source then 1 else 0) + budget limit t0 source table' \<le> budget limit t0 source table"
proof -
  have sw: "budget limit t0 source (sweep now table) \<le> budget limit t0 source table"
    using assms by (intro budget_sweep)
  from assms(1,2,5) show ?thesis
  proof (cases rule: count_attempt_cases)
    case full
    with sw show ?thesis by simp
  next
    case first
    with sw assms(3) show ?thesis by (cases "address = source") (auto simp: budget_def)
  next
    case (over a)
    with sw show ?thesis by (cases "address = source") (auto simp: budget_def)
  next
    case (counted a)
    with sw show ?thesis by (cases "address = source") (auto simp: budget_def)
  qed
qed

section \<open>Sequences of requests\<close>

fun challenge_calls :: "(int \<times> request) list \<Rightarrow> server \<Rightarrow> bool list \<times> server" where
  "challenge_calls [] s = ([], s)"
| "challenge_calls ((now, r) # calls) s =
     (case allowChallenge now r s of (ok, s1) \<Rightarrow>
      case challenge_calls calls s1 of (oks, s2) \<Rightarrow> (ok # oks, s2))"

text \<open>How many requests of a source were let through.\<close>

definition admitted :: "string \<Rightarrow> (int \<times> request) list \<Rightarrow> server \<Rightarrow> nat" where
  "admitted source calls s =
     length (filter (\<lambda>((now, r), ok). ok \<and> source_address r = source) (zip calls (fst (challenge_calls calls s))))"

lemma admitted_simps:
  "admitted source [] s = 0"
  "allowChallenge now r s = (ok, s1) \<Longrightarrow>
   admitted source ((now, r) # calls) s = (if ok \<and> source_address r = source then 1 else 0) + admitted source calls s1"
  by (simp_all add: admitted_def split: prod.splits)

lemma allowChallenge_limit:
  "allowChallenge now r s = (ok, s1) \<Longrightarrow> sv_PairingAttemptsPerMinute s1 = sv_PairingAttemptsPerMinute s"
  by (auto simp: allowChallenge_def Let_def split: if_splits prod.splits)

lemma allowChallenge_step:
  assumes "allowChallenge now r s = (ok, s1)"
  shows "sv_PairingAttemptsPerMinute s \<le> 0 \<and> \<not> ok \<and> s1 = s \<or>
    0 < sv_PairingAttemptsPerMinute s \<and> count_attempt (sv_PairingAttemptsPerMinute s) now (source_address r)
      (sv_challengeAttempts s) = (ok, sv_challengeAttempts s1)"
  using assms by (auto simp: allowChallenge_def Let_def split: if_splits prod.splits)

definition limiter_inv :: "server \<Rightarrow> bool" where
  "limiter_inv s \<longleftrightarrow> limiter_ok (max 0 (sv_PairingAttemptsPerMinute s)) (sv_challengeAttempts s)"

lemma allowChallenge_inv:
  "allowChallenge now r s = (ok, s1) \<Longrightarrow> now \<noteq> zero_time \<Longrightarrow> limiter_inv s \<Longrightarrow> limiter_inv s1"
  using allowChallenge_step [of now r s ok s1] allowChallenge_limit [of now r s ok s1]
    count_attempt_ok [of "sv_PairingAttemptsPerMinute s" "sv_challengeAttempts s" now "source_address r" ok "sv_challengeAttempts s1"]
  by (auto simp: limiter_inv_def)

lemma challenge_calls_inv:
  "challenge_calls calls s = (oks, s') \<Longrightarrow> zero_time \<notin> fst ` set calls \<Longrightarrow> limiter_inv s \<Longrightarrow>
   limiter_inv s' \<and> sv_PairingAttemptsPerMinute s' = sv_PairingAttemptsPerMinute s"
proof (induction calls arbitrary: s oks)
  case (Cons c calls)
  obtain now r where c: "c = (now, r)" by (cases c)
  obtain ok s1 where a: "allowChallenge now r s = (ok, s1)" by (cases "allowChallenge now r s")
  obtain oks1 where "challenge_calls calls s1 = (oks1, s')"
    using Cons.prems(1) by (auto simp: c a split: prod.splits)
  with Cons.IH Cons.prems allowChallenge_inv [OF a] allowChallenge_limit [OF a] show ?case by (auto simp: c)
qed simp

lemma admitted_budget:
  assumes "\<forall>(now, r)\<in>set calls. t0 \<le> now \<and> now < t0 + Minute" "zero_time \<notin> fst ` set calls" "limiter_inv s"
    and "0 < sv_PairingAttemptsPerMinute s"
  shows "int (admitted source calls s) \<le> budget (sv_PairingAttemptsPerMinute s) t0 source (sv_challengeAttempts s)"
  using assms
proof (induction calls arbitrary: s)
  case Nil
  then show ?case using budget_range by (simp add: admitted_simps limiter_inv_def)
next
  case (Cons c calls)
  obtain now r where c: "c = (now, r)" by (cases c)
  obtain ok s1 where a: "allowChallenge now r s = (ok, s1)" by (cases "allowChallenge now r s")
  have "count_attempt (sv_PairingAttemptsPerMinute s) now (source_address r) (sv_challengeAttempts s) = (ok, sv_challengeAttempts s1)"
    using allowChallenge_step [OF a] Cons.prems(4) by auto
  then have "(if ok \<and> source_address r = source then 1 else 0) + budget (sv_PairingAttemptsPerMinute s) t0 source (sv_challengeAttempts s1)
      \<le> budget (sv_PairingAttemptsPerMinute s) t0 source (sv_challengeAttempts s)"
    using Cons.prems by (intro budget_step) (auto simp: c limiter_inv_def)
  moreover have "int (admitted source calls s1) \<le> budget (sv_PairingAttemptsPerMinute s1) t0 source (sv_challengeAttempts s1)"
    using Cons.prems allowChallenge_inv [OF a] allowChallenge_limit [OF a] by (intro Cons.IH) (auto simp: c)
  ultimately show ?case using admitted_simps(2) [OF a] allowChallenge_limit [OF a] by (auto simp: c split: if_splits)
qed

lemma admitted_none: "sv_PairingAttemptsPerMinute s \<le> 0 \<Longrightarrow> admitted source calls s = 0"
proof (induction calls)
  case (Cons c calls)
  have "allowChallenge (fst c) (snd c) s = (False, s)" using Cons.prems by (simp add: allowChallenge_def)
  with Cons admitted_simps(2) [of "fst c" "snd c" s False s source calls] show ?case by simp
qed (simp add: admitted_simps)

text \<open>
  C30: The challenge limit holds. After any earlier requests, in any order, the relay remembers at
  most 1024 sources, and of the requests that arrive within one minute it lets at most twice the
  configured number per minute through from each source; none when the configured number is not
  positive.
\<close>

theorem challenge_rate_bounded:
  assumes "sv_challengeAttempts s0 = []" "challenge_calls earlier s0 = (oks, s)"
    and "zero_time \<notin> fst ` set (earlier @ calls)" "\<forall>(now, r)\<in>set calls. t0 \<le> now \<and> now < t0 + Minute"
  shows "length (sv_challengeAttempts s) \<le> maxChallengeSources \<and>
    int (admitted source calls s) \<le> 2 * max 0 (sv_PairingAttemptsPerMinute s0)"
proof -
  have "limiter_inv s0" using assms(1) by (simp add: limiter_inv_def limiter_ok_def)
  then have s: "limiter_inv s" "sv_PairingAttemptsPerMinute s = sv_PairingAttemptsPerMinute s0"
    using challenge_calls_inv [OF assms(2)] assms(3) by auto
  have "int (admitted source calls s) \<le> 2 * max 0 (sv_PairingAttemptsPerMinute s)"
  proof (cases "0 < sv_PairingAttemptsPerMinute s")
    case True
    with admitted_budget [OF assms(4) _ s(1) True, of source] assms(3)
      budget_range [of "sv_PairingAttemptsPerMinute s" "sv_challengeAttempts s" t0 source] s(1)
    show ?thesis by (simp add: limiter_inv_def image_Un)
  next
    case False
    then show ?thesis by (simp add: admitted_none)
  qed
  with s show ?thesis by (simp add: limiter_inv_def limiter_ok_def)
qed

end
