(* ===== verification/Relay_Run.thy ===== *)
theory Relay_Run
  imports Limiter
begin

text \<open>
  The relay as a state machine: any number of WebSocket handlers (\<open>handleWebSocket\<close>), API calls and
  the shutdown, interleaved at the granularity of the server's lock. A handler accepts a request,
  enters the registry, serves messages one by one, and on its way out removes itself and counts down
  the wait group. What sockets are sent and how they are closed is the trace of a run.
\<close>

section \<open>Handlers as steps\<close>

datatype phase =
    Accepted
  | Serving
  | Writing web_socket bytes
  | Returning
  | Removed

record relay =
  rl_server :: server
  rl_conns :: "(web_socket \<times> phase) list"

datatype event =
    Close closing
  | Sent web_socket web_socket bytes

text \<open>One message of a socket: the target to write it to, or the closing of the sender.\<close>

definition serve_message :: "web_socket \<Rightarrow> bytes \<Rightarrow> server \<Rightarrow> closing + web_socket" where
  "serve_message ws data s =
     (case ParseRelayFrame data (sv_MaxMessageBytes s) of
        Inl _ \<Rightarrow> Inl (ws, closeInvalidFrame, ''invalid_frame'')
      | Inr frame \<Rightarrow>
          let code = validateSenderFrame (wk_session ws) frame in
          if code \<noteq> 0 then Inl (ws, code, ''identity_or_direction_mismatch'')
          else routeTarget ws frame s)"

definition at :: "web_socket \<Rightarrow> phase \<Rightarrow> relay \<Rightarrow> bool" where
  "at w p r \<longleftrightarrow> map_of (rl_conns r) w = Some p"

definition goto :: "web_socket \<Rightarrow> phase \<Rightarrow> relay \<Rightarrow> relay" where
  "goto w p r = r\<lparr>rl_conns := map_put w p (rl_conns r)\<rparr>"

definition leave :: "web_socket \<Rightarrow> relay \<Rightarrow> relay" where
  "leave w r = r\<lparr>rl_conns := map_delete w (rl_conns r)\<rparr>"

definition serving :: "server \<Rightarrow> relay \<Rightarrow> relay" where
  "serving s r = r\<lparr>rl_server := s\<rparr>"

definition used_ids :: "relay \<Rightarrow> nat set" where
  "used_ids r = (wk_id \<circ> fst) ` set (rl_conns r)"

text \<open>
  The steps of the handlers, and those of the relay. A request that is not authenticated, or whose
  upgrade then fails, leaves no socket. The flag says whether the driver can be relied on to report
  the number of rows a revocation changed.
\<close>

inductive conn_step :: "relay \<Rightarrow> event list \<Rightarrow> relay \<Rightarrow> bool" where
  enter: "at w Accepted r \<Longrightarrow> beginWebSocket flt w (rl_server r) = (True, cs, s') \<Longrightarrow>
    conn_step r (map Close cs) (goto w Serving (serving s' r))"
| enter_refused: "at w Accepted r \<Longrightarrow> beginWebSocket flt w (rl_server r) = (False, cs, s') \<Longrightarrow>
    conn_step r (map Close cs @ [Close (w, closeIdentity, ''identity_or_direction_mismatch'')])
      (leave w (serving s' r))"
| read_error: "at w Serving r \<Longrightarrow> conn_step r [] (goto w Returning r)"
| not_text: "at w Serving r \<Longrightarrow> conn_step r [Close (w, closeInvalidFrame, ''invalid_frame'')] (goto w Returning r)"
| message_refused: "at w Serving r \<Longrightarrow> serve_message w data (rl_server r) = Inl c \<Longrightarrow>
    conn_step r [Close c] (goto w Returning r)"
| message_routed: "at w Serving r \<Longrightarrow> serve_message w data (rl_server r) = Inr target \<Longrightarrow>
    conn_step r [] (goto w (Writing target data) r)"
| written: "at w (Writing target data) r \<Longrightarrow> conn_step r [Sent w target data] (goto w Serving r)"
| write_failed: "at w (Writing target data) r \<Longrightarrow>
    conn_step r [Close (w, closeRouteMissing, ''route_unavailable'')] (goto w Returning r)"
| remove: "at w Returning r \<Longrightarrow> removeSession w (rl_server r) = (cs, s') \<Longrightarrow>
    conn_step r (map Close cs @ [Close (w, StatusNormalClosure, [])]) (goto w Removed (serving s' r))"
| finish: "at w Removed r \<Longrightarrow>
    conn_step r [] (leave w (serving ((rl_server r)\<lparr>sv_webSocketWG := sv_webSocketWG (rl_server r) - 1\<rparr>) r))"

inductive relay_step :: "crypto \<Rightarrow> bool \<Rightarrow> relay \<Rightarrow> event list \<Rightarrow> relay \<Rightarrow> bool" for cr rows_reported where
  accept: "sessionFromRequest rq = Inr a \<Longrightarrow>
    authenticateSession cr load now flt rq a (rl_server r) = (True, s') \<Longrightarrow>
    wk_id w \<notin> used_ids r \<Longrightarrow> wk_session w = a \<Longrightarrow>
    relay_step cr rows_reported r [] (goto w Accepted (serving s' r))"
| no_socket: "sessionFromRequest rq = Inr a \<Longrightarrow>
    authenticateSession cr load now flt rq a (rl_server r) = (ok, s') \<Longrightarrow>
    relay_step cr rows_reported r [] (serving s' r)"
| conn: "conn_step r es r' \<Longrightarrow> relay_step cr rows_reported r es r'"
| service: "service_call cr (sv_db (rl_server r)) d' \<Longrightarrow>
    relay_step cr rows_reported r [] (serving ((rl_server r)\<lparr>sv_db := d'\<rparr>) r)"
| auth: "ensureAuth load (rl_server r) = (err, s') \<Longrightarrow> relay_step cr rows_reported r [] (serving s' r)"
| limit: "allowChallenge now rq (rl_server r) = (ok, s') \<Longrightarrow> relay_step cr rows_reported r [] (serving s' r)"
| revoke: "revokeDevice flt t h v (rl_server r) = (res, cs, s') \<Longrightarrow> (rows_reported \<longrightarrow> \<not> flt 1) \<Longrightarrow>
    relay_step cr rows_reported r (map Close cs) (serving s' r)"
| shutdown: "beginShutdown (rl_server r) = (cs, s') \<Longrightarrow> relay_step cr rows_reported r (map Close cs) (serving s' r)"

inductive relay_run :: "crypto \<Rightarrow> bool \<Rightarrow> relay \<Rightarrow> event list \<Rightarrow> relay \<Rightarrow> bool" for cr rows_reported where
  start: "relay_run cr rows_reported r [] r"
| step: "relay_run cr rows_reported r es r1 \<Longrightarrow> relay_step cr rows_reported r1 fs r2 \<Longrightarrow>
    relay_run cr rows_reported r (es @ fs) r2"

definition start_relay :: "int \<Rightarrow> int \<Rightarrow> db \<Rightarrow> relay" where
  "start_relay maxMessageBytes attempts d =
     \<lparr>rl_server = NewServerWithStore maxMessageBytes attempts d, rl_conns = []\<rparr>"

inductive_cases conn_stepE: "conn_step r es r'"
inductive_cases relay_stepE: "relay_step cr rows_reported r es r'"

section \<open>The invariant\<close>

text \<open>The registries: every socket under its own key, in the registry of its type.\<close>

definition registry_ok :: "string \<Rightarrow> (string \<times> web_socket) list \<Rightarrow> bool" where
  "registry_ok ty m \<longleftrightarrow> map_keys_ok m \<and>
     (\<forall>(k, w)\<in>set m. k = session_key w \<and> se_ConnectionType (wk_session w) = ty)"

definition registries_ok :: "server \<Rightarrow> bool" where
  "registries_ok s \<longleftrightarrow> registry_ok ConnectionHost (sv_hosts s) \<and> registry_ok ConnectionDevice (sv_devices s) \<and>
     sv_shuttingDown s = sv_shutdownOnce s \<and> (sv_shuttingDown s \<longrightarrow> sv_hosts s = [] \<and> sv_devices s = [])"

definition registered :: "server \<Rightarrow> web_socket set" where
  "registered s = snd ` set (sv_hosts s) \<union> snd ` set (sv_devices s)"

text \<open>A handler that has entered the registry and not yet left it.\<close>

fun in_loop :: "phase \<Rightarrow> bool" where
  "in_loop Accepted = False"
| "in_loop Removed = False"
| "in_loop _ = True"

definition peers :: "web_socket \<Rightarrow> web_socket \<Rightarrow> bool" where
  "peers a b \<longleftrightarrow> session_key a = session_key b \<and>
     (se_ConnectionType (wk_session a) = ConnectionHost \<and> se_ConnectionType (wk_session b) = ConnectionDevice \<or>
      se_ConnectionType (wk_session a) = ConnectionDevice \<and> se_ConnectionType (wk_session b) = ConnectionHost)"

definition allowed :: "int \<Rightarrow> web_socket \<Rightarrow> web_socket \<Rightarrow> bytes \<Rightarrow> bool" where
  "allowed maxMessageBytes w target data \<longleftrightarrow>
     (\<exists>f. ParseRelayFrame data maxMessageBytes = Inr f \<and> validateSenderFrame (wk_session w) f = 0) \<and> peers w target"

definition conns_wf :: "int \<Rightarrow> (web_socket \<times> phase) list \<Rightarrow> bool" where
  "conns_wf maxMessageBytes cs \<longleftrightarrow> distinct (map (wk_id \<circ> fst) cs) \<and>
     (\<forall>(w, p)\<in>set cs. se_ConnectionType (wk_session w) \<in> {ConnectionHost, ConnectionDevice} \<and>
        (\<forall>target data. p = Writing target data \<longrightarrow> allowed maxMessageBytes w target data))"

definition handlers :: "(web_socket \<times> phase) list \<Rightarrow> int" where
  "handlers cs = int (length (filter (\<lambda>(w, p). p \<noteq> Accepted) cs))"

definition live_ok :: "relay \<Rightarrow> bool" where
  "live_ok r \<longleftrightarrow> (\<forall>w\<in>registered (rl_server r). \<exists>p. at w p r \<and> in_loop p)"

definition relay_inv :: "relay \<Rightarrow> bool" where
  "relay_inv r \<longleftrightarrow> registries_ok (rl_server r) \<and> conns_wf (sv_MaxMessageBytes (rl_server r)) (rl_conns r) \<and>
     sv_webSocketWG (rl_server r) = handlers (rl_conns r) \<and> live_ok r"

section \<open>Registry operations keep the registries\<close>

lemma registry_put:
  "registry_ok ty m \<Longrightarrow> se_ConnectionType (wk_session w) = ty \<Longrightarrow> registry_ok ty (map_put (session_key w) w m)"
  by (auto simp: registry_ok_def in_map_put)

lemma registry_delete: "registry_ok ty m \<Longrightarrow> registry_ok ty (map_delete k m)"
  by (auto simp: registry_ok_def in_map_delete)

lemma registry_Nil [simp]: "registry_ok ty []"
  by (simp add: registry_ok_def)

lemma registry_entry:
  "registry_ok ty m \<Longrightarrow> map_of m k = Some w \<Longrightarrow>
   k = session_key w \<and> se_ConnectionType (wk_session w) = ty \<and> (k, w) \<in> set m"
  by (auto simp: registry_ok_def map_entry)

lemma registry_socket:
  assumes "registry_ok ty m" "w \<in> snd ` set m"
  shows "map_of m (session_key w) = Some w \<and> se_ConnectionType (wk_session w) = ty"
proof -
  obtain k where k: "(k, w) \<in> set m" using assms(2) by force
  with assms(1) have "k = session_key w" "se_ConnectionType (wk_session w) = ty"
    by (auto simp: registry_ok_def)
  with assms(1) k map_entry [of m k w] show ?thesis by (simp add: registry_ok_def)
qed

lemma registry_holds:
  "registry_ok ty m \<Longrightarrow> w \<in> snd ` set m \<Longrightarrow> se_ConnectionType (wk_session w) = ty \<and> holds m (session_key w) w"
  by (drule (1) registry_socket) (simp add: holds_def)

lemma registry_absent: "registry_ok ty m \<Longrightarrow> map_of m (session_key w) = None \<Longrightarrow> w \<notin> snd ` set m"
  by (metis registry_socket option.distinct(1))

text \<open>The parts of the server a step leaves alone.\<close>

definition same_config :: "server \<Rightarrow> server \<Rightarrow> bool" where
  "same_config s s' \<longleftrightarrow> sv_MaxMessageBytes s' = sv_MaxMessageBytes s \<and> sv_store s' = sv_store s"

definition same_sockets :: "server \<Rightarrow> server \<Rightarrow> bool" where
  "same_sockets s s' \<longleftrightarrow> same_config s s' \<and> sv_hosts s' = sv_hosts s \<and> sv_devices s' = sv_devices s \<and>
     sv_shuttingDown s' = sv_shuttingDown s \<and> sv_shutdownOnce s' = sv_shutdownOnce s \<and>
     sv_webSocketWG s' = sv_webSocketWG s"

lemma same_sockets_refl [simp]: "same_sockets s s" "same_config s s"
  by (simp_all add: same_sockets_def same_config_def)

lemma same_sockets_trans: "same_sockets s s1 \<Longrightarrow> same_sockets s1 s2 \<Longrightarrow> same_sockets s s2"
  by (simp add: same_sockets_def same_config_def)

lemma on_store_sockets: "on_store m s = (x, s') \<Longrightarrow> same_sockets s s'"
  by (auto simp: on_store_def same_sockets_def same_config_def split: prod.splits)

lemma ensureAuth_sockets: "ensureAuth load s = (x, s') \<Longrightarrow> same_sockets s s' \<and> sv_db s' = sv_db s"
  by (auto simp: ensureAuth_def Let_def same_sockets_def same_config_def split: if_splits sum.splits)

lemma allowChallenge_sockets: "allowChallenge now rq s = (x, s') \<Longrightarrow> same_sockets s s' \<and> sv_db s' = sv_db s"
  by (auto simp: allowChallenge_def Let_def same_sockets_def same_config_def split: if_splits prod.splits)

lemma authenticate_sockets: "authenticateSession cr load now flt rq a s = (x, s') \<Longrightarrow> same_sockets s s'"
  unfolding authenticateSession_def
  by (auto split: if_splits option.splits prod.splits dest!: ensureAuth_sockets on_store_sockets
      intro: same_sockets_trans)

lemma add_result:
  assumes "addSessionWithLifecycle tr flt w s = (b, cs, s')"
  shows "same_config s s' \<and> sv_db s' = sv_db s \<and> sv_shuttingDown s' = sv_shuttingDown s \<and>
    sv_shutdownOnce s' = sv_shutdownOnce s \<and> (\<not> b \<longrightarrow> s' = s \<and> cs = []) \<and>
    (b \<longrightarrow> \<not> sv_shuttingDown s \<and> routeActiveLocked flt (wk_session w) s \<and>
       sv_webSocketWG s' = sv_webSocketWG s + (if tr then 1 else 0) \<and>
       (se_ConnectionType (wk_session w) = ConnectionHost \<and>
          sv_hosts s' = map_put (session_key w) w (sv_hosts s) \<and>
          sv_devices s' = map_delete (session_key w) (sv_devices s) \<or>
        se_ConnectionType (wk_session w) = ConnectionDevice \<and>
          sv_hosts s' = sv_hosts s \<and> sv_devices s' = map_put (session_key w) w (sv_devices s)))"
  using assms unfolding addSessionWithLifecycle_def Let_def same_config_def by (auto split: if_splits)

lemma remove_result:
  assumes "removeSession w s = (cs, s')"
  shows "same_config s s' \<and> sv_db s' = sv_db s \<and> sv_shuttingDown s' = sv_shuttingDown s \<and>
    sv_shutdownOnce s' = sv_shutdownOnce s \<and> sv_webSocketWG s' = sv_webSocketWG s \<and>
    (s' = s \<or> sv_hosts s' = map_delete (session_key w) (sv_hosts s) \<and>
       sv_devices s' = map_delete (session_key w) (sv_devices s))"
  using assms unfolding removeSession_def Let_def same_config_def by (auto split: if_splits)

lemma revoke_result:
  assumes "revokeDevice flt t h v s = (x, cs, s')"
  shows "same_config s s' \<and> sv_db s' = snd (RevokeDevice flt t h v (sv_db s)) \<and>
    x = fst (RevokeDevice flt t h v (sv_db s)) \<and> sv_shuttingDown s' = sv_shuttingDown s \<and>
    sv_shutdownOnce s' = sv_shutdownOnce s \<and> sv_webSocketWG s' = sv_webSocketWG s \<and>
    sv_hosts s' = (if is_Inr x then map_delete (deviceKey t h v) (sv_hosts s) else sv_hosts s) \<and>
    sv_devices s' = (if is_Inr x then map_delete (deviceKey t h v) (sv_devices s) else sv_devices s)"
  using assms unfolding revokeDevice_def on_store_def Let_def same_config_def
  by (auto simp: is_Inr_def split: prod.splits sum.splits)

lemma shutdown_result:
  assumes "beginShutdown s = (cs, s')"
  shows "same_config s s' \<and> sv_db s' = sv_db s \<and> sv_webSocketWG s' = sv_webSocketWG s \<and>
    sv_shutdownOnce s' \<and> (sv_shutdownOnce s \<longrightarrow> s' = s) \<and>
    (\<not> sv_shutdownOnce s \<longrightarrow> sv_shuttingDown s' \<and> sv_hosts s' = [] \<and> sv_devices s' = [])"
  using assms unfolding beginShutdown_def same_config_def by (auto split: if_splits)

lemma registries_same: "same_sockets s s' \<Longrightarrow> registries_ok s \<Longrightarrow> registries_ok s'"
  by (simp add: same_sockets_def registries_ok_def)

lemma registered_same: "same_sockets s s' \<Longrightarrow> registered s' = registered s"
  by (simp add: same_sockets_def registered_def)

lemma registries_ops:
  "addSessionWithLifecycle tr flt w s = (b, cs, s') \<Longrightarrow> registries_ok s \<Longrightarrow> registries_ok s'"
  "removeSession w s = (cs, s') \<Longrightarrow> registries_ok s \<Longrightarrow> registries_ok s'"
  "revokeDevice flt t h v s = (x, cs, s') \<Longrightarrow> registries_ok s \<Longrightarrow> registries_ok s'"
  "beginShutdown s = (cs, s') \<Longrightarrow> registries_ok s \<Longrightarrow> registries_ok s'"
proof -
  assume "addSessionWithLifecycle tr flt w s = (b, cs, s')" "registries_ok s"
  then show "registries_ok s'" using add_result [of tr flt w s b cs s']
    by (cases b) (auto simp: registries_ok_def registry_put registry_delete)
next
  assume "removeSession w s = (cs, s')" "registries_ok s"
  then show "registries_ok s'" using remove_result [of w s cs s']
    by (auto simp: registries_ok_def registry_delete) (simp_all add: map_delete_def)
next
  assume "revokeDevice flt t h v s = (x, cs, s')" "registries_ok s"
  then show "registries_ok s'" using revoke_result [of flt t h v s x cs s']
    by (auto simp: registries_ok_def registry_delete) (simp_all add: map_delete_def)
next
  assume "beginShutdown s = (cs, s')" "registries_ok s"
  then show "registries_ok s'" using shutdown_result [of s cs s'] by (auto simp: registries_ok_def)
qed

lemma registered_put: "snd ` set (map_put k w m) \<subseteq> insert w (snd ` set m)"
  by (auto simp: map_put_def)

lemma registered_del: "snd ` set (map_delete k m) \<subseteq> snd ` set m"
  by (auto simp: map_delete_def)

lemma registered_ops:
  "addSessionWithLifecycle tr flt w s = (b, cs, s') \<Longrightarrow> registered s' \<subseteq> (if b then {w} else {}) \<union> registered s"
  "revokeDevice flt t h v s = (x, cs, s') \<Longrightarrow> registered s' \<subseteq> registered s"
  "beginShutdown s = (cs, s') \<Longrightarrow> registered s' \<subseteq> registered s"
proof -
  assume "addSessionWithLifecycle tr flt w s = (b, cs, s')"
  note res = add_result [OF this]
  show "registered s' \<subseteq> (if b then {w} else {}) \<union> registered s"
  proof (cases b)
    case True
    with res have "snd ` set (sv_hosts s') \<subseteq> insert w (snd ` set (sv_hosts s))"
      "snd ` set (sv_devices s') \<subseteq> insert w (snd ` set (sv_devices s))"
      using registered_put [of "session_key w" w] registered_del [of "session_key w"] by (metis subset_insertI2 subset_insertI)+
    with True show ?thesis unfolding registered_def by auto
  next
    case False
    with res show ?thesis by simp
  qed
next
  assume "revokeDevice flt t h v s = (x, cs, s')"
  from revoke_result [OF this] show "registered s' \<subseteq> registered s"
    using registered_del [of "deviceKey t h v" "sv_hosts s"] registered_del [of "deviceKey t h v" "sv_devices s"]
    unfolding registered_def by (cases "is_Inr x") (simp_all only: if_True if_False, blast+)
next
  assume "beginShutdown s = (cs, s')"
  from shutdown_result [OF this] show "registered s' \<subseteq> registered s"
    unfolding registered_def by (cases "sv_shutdownOnce s") auto
qed

lemma registered_remove:
  assumes "removeSession w s = (cs, s')" "registries_ok s"
    and ty: "se_ConnectionType (wk_session w) = ConnectionHost \<or> se_ConnectionType (wk_session w) = ConnectionDevice"
  shows "registered s' \<subseteq> registered s - {w}"
proof -
  have sub: "registered s' \<subseteq> registered s"
    using remove_result [OF assms(1)] registered_del [of "session_key w" "sv_hosts s"]
      registered_del [of "session_key w" "sv_devices s"] unfolding registered_def by (elim conjE disjE) auto
  have reg: "registry_ok ConnectionHost (sv_hosts s')" "registry_ok ConnectionDevice (sv_devices s')"
    "registry_ok ConnectionHost (sv_hosts s)" "registry_ok ConnectionDevice (sv_devices s)"
    using registries_ops(2) [OF assms(1,2)] assms(2) by (simp_all add: registries_ok_def)
  have "w \<notin> registered s'"
  proof
    assume w: "w \<in> registered s'"
    with sub have "w \<in> snd ` set (sv_hosts s) \<or> w \<in> snd ` set (sv_devices s)" by (auto simp: registered_def)
    then have "se_ConnectionType (wk_session w) = ConnectionHost \<and> holds (sv_hosts s) (session_key w) w \<or>
      se_ConnectionType (wk_session w) = ConnectionDevice \<and> holds (sv_devices s) (session_key w) w"
      using registry_holds [OF reg(3)] registry_holds [OF reg(4)] by blast
    then have "sv_hosts s' = map_delete (session_key w) (sv_hosts s)" "sv_devices s' = map_delete (session_key w) (sv_devices s)"
      using assms(1) unfolding removeSession_def Let_def by auto
    then have "map_of (sv_hosts s') (session_key w) = None" "map_of (sv_devices s') (session_key w) = None" by simp_all
    with w show False using registry_absent [OF reg(1)] registry_absent [OF reg(2)] unfolding registered_def by blast
  qed
  with sub show ?thesis by blast
qed

section \<open>Connections\<close>

lemma conns_wf_keys: "conns_wf m cs \<Longrightarrow> distinct (map fst cs)"
  unfolding conns_wf_def by (metis distinct_map map_map)

lemma conns_wf_get:
  "conns_wf m cs \<Longrightarrow> map_of cs w = Some p \<Longrightarrow>
   se_ConnectionType (wk_session w) \<in> {ConnectionHost, ConnectionDevice} \<and>
   (\<forall>target data. p = Writing target data \<longrightarrow> allowed m w target data)"
  unfolding conns_wf_def by (blast dest: map_of_SomeD)

lemma conns_wf_delete: "conns_wf m cs \<Longrightarrow> conns_wf m (map_delete w cs)"
  by (auto simp: conns_wf_def map_delete_def distinct_map inj_on_def)

lemma conns_wf_put:
  assumes "conns_wf m cs" "wk_id w \<notin> (wk_id \<circ> fst) ` set (map_delete w cs)"
    and "se_ConnectionType (wk_session w) \<in> {ConnectionHost, ConnectionDevice}"
    and "\<And>target data. p = Writing target data \<Longrightarrow> allowed m w target data"
  shows "conns_wf m (map_put w p cs)"
  using conns_wf_delete [OF assms(1), of w] assms(2-)
  unfolding map_put_def map_delete_def [symmetric] conns_wf_def by auto

lemma same_id:
  assumes "conns_wf m cs" "map_of cs w = Some p"
  shows "wk_id w \<notin> (wk_id \<circ> fst) ` set (map_delete w cs)"
proof
  assume "wk_id w \<in> (wk_id \<circ> fst) ` set (map_delete w cs)"
  then obtain e where e: "e \<in> set cs" "fst e \<noteq> w" "wk_id (fst e) = wk_id w"
    by (auto simp: in_map_delete)
  moreover have "(w, p) \<in> set cs" using assms(2) by (rule map_of_SomeD)
  moreover have "inj_on (wk_id \<circ> fst) (set cs)" using assms(1) by (simp add: conns_wf_def distinct_map)
  ultimately show False by (auto dest: inj_onD [of _ _ e "(w, p)"])
qed

lemma handlers_simps [simp]:
  "handlers [] = 0" "handlers ((w, p) # cs) = (if p = Accepted then 0 else 1) + handlers cs"
  by (auto simp: handlers_def)

lemma handlers_delete:
  "distinct (map fst cs) \<Longrightarrow> map_of cs w = Some p \<Longrightarrow>
   handlers cs = (if p = Accepted then 0 else 1) + handlers (map_delete w cs)"
proof (induction cs)
  case (Cons e cs)
  obtain w' p' where e: "e = (w', p')" by (cases e)
  show ?case
  proof (cases "w' = w")
    case True
    then have "map_delete w cs = cs" using Cons.prems e by (intro map_delete_absent) simp
    with True Cons.prems e show ?thesis by (simp add: map_delete_def)
  next
    case False
    with Cons e show ?thesis by (simp add: map_delete_def)
  qed
qed simp

lemma handlers_put: "handlers (map_put w p cs) = (if p = Accepted then 0 else 1) + handlers (map_delete w cs)"
  by (simp add: map_put_def map_delete_def)

lemma handlers_goto:
  "conns_wf m cs \<Longrightarrow> map_of cs w = Some p \<Longrightarrow> p \<noteq> Accepted \<Longrightarrow> q \<noteq> Accepted \<Longrightarrow> handlers (map_put w q cs) = handlers cs"
  by (simp add: handlers_put handlers_delete [OF conns_wf_keys])

lemma handlers_fresh:
  assumes "wk_id w \<notin> (wk_id \<circ> fst) ` set cs" shows "handlers (map_put w Accepted cs) = handlers cs"
proof -
  have "map_delete w cs = cs" using assms by (intro map_delete_absent) force
  then show ?thesis by (simp add: handlers_put)
qed

lemmas relay_moves = at_def goto_def leave_def serving_def used_ids_def

text \<open>Who is registered stays in its loop when only another handler moves.\<close>

lemma live_put:
  "live_ok r \<Longrightarrow> registered s' \<subseteq> registered (rl_server r) \<Longrightarrow> in_loop q \<or> w \<notin> registered s' \<Longrightarrow>
   live_ok (goto w q (serving s' r))"
  by (auto simp: live_ok_def relay_moves)

lemma live_delete:
  "live_ok r \<Longrightarrow> registered s' \<subseteq> registered (rl_server r) \<Longrightarrow> w \<notin> registered s' \<Longrightarrow> live_ok (leave w (serving s' r))"
  by (auto simp: live_ok_def relay_moves)

lemma live_server:
  "live_ok r \<Longrightarrow> registered s' \<subseteq> registered (rl_server r) \<Longrightarrow> live_ok (serving s' r)"
  by (auto simp: live_ok_def relay_moves)

lemma not_in_loop: "live_ok r \<Longrightarrow> at w p r \<Longrightarrow> \<not> in_loop p \<Longrightarrow> w \<notin> registered (rl_server r)"
  by (auto simp: live_ok_def at_def)

section \<open>Every step keeps the invariant\<close>

text \<open>A target is the sender's peer.\<close>

lemma routeTarget_peer:
  assumes "registries_ok s" "validateSenderFrame (wk_session w) f = 0" "routeTarget w f s = Inr target"
    and "se_ConnectionType (wk_session w) \<in> {ConnectionHost, ConnectionDevice}"
  shows "peers w target \<and> target \<in> registered s"
proof -
  let ?key = "deviceKey (rf_TenantID f) (rf_HostID f) (rf_DeviceID f)"
  have key: "?key = session_key w"
    using assms(2) by (simp add: validateSenderFrame_def session_key_def split: if_splits)
  have dir: "se_ConnectionType (wk_session w) = ConnectionHost \<and> rf_Direction f = DirectionWindowsToMobile \<or>
    se_ConnectionType (wk_session w) = ConnectionDevice \<and> rf_Direction f = DirectionMobileToWindows"
    using assms(2,4) by (auto simp: validateSenderFrame_def split: if_splits)
  from assms(3) have "map_of (if rf_Direction f = DirectionWindowsToMobile then sv_devices s else sv_hosts s) ?key = Some target"
    unfolding routeTarget_def Let_def by (simp split: if_splits option.splits)
  with assms(1) dir key show ?thesis
    by (auto simp: peers_def registries_ok_def registered_def dest!: registry_entry intro: rev_image_eqI)
qed

lemma serve_message_allowed:
  assumes "serve_message w data s = Inr target" "registries_ok s"
    and "se_ConnectionType (wk_session w) \<in> {ConnectionHost, ConnectionDevice}"
  shows "allowed (sv_MaxMessageBytes s) w target data"
proof -
  obtain f where f: "ParseRelayFrame data (sv_MaxMessageBytes s) = Inr f"
    "validateSenderFrame (wk_session w) f = 0" "routeTarget w f s = Inr target"
    using assms(1) unfolding serve_message_def Let_def by (auto split: sum.splits if_splits)
  then show ?thesis using routeTarget_peer [OF assms(2) f(2,3) assms(3)] unfolding allowed_def by blast
qed

lemma relay_invI:
  "registries_ok s' \<Longrightarrow> conns_wf (sv_MaxMessageBytes s') cs' \<Longrightarrow> sv_webSocketWG s' = handlers cs' \<Longrightarrow>
   live_ok r' \<Longrightarrow> rl_server r' = s' \<Longrightarrow> rl_conns r' = cs' \<Longrightarrow> relay_inv r'"
  by (simp add: relay_inv_def)

text \<open>A handler moves on without touching the server.\<close>

lemma inv_goto:
  assumes "relay_inv r" "at w p r" "in_loop p" "in_loop q"
    and "\<And>target data. q = Writing target data \<Longrightarrow> allowed (sv_MaxMessageBytes (rl_server r)) w target data"
  shows "relay_inv (goto w q r)"
proof -
  have wf: "conns_wf (sv_MaxMessageBytes (rl_server r)) (rl_conns r)" and p: "map_of (rl_conns r) w = Some p"
    using assms(1,2) by (simp_all add: relay_inv_def at_def)
  have "p \<noteq> Accepted" "q \<noteq> Accepted" using assms(3,4) by auto
  then have "handlers (map_put w q (rl_conns r)) = handlers (rl_conns r)"
    using wf p by (intro handlers_goto)
  moreover have "conns_wf (sv_MaxMessageBytes (rl_server r)) (map_put w q (rl_conns r))"
    using conns_wf_put [OF wf same_id [OF wf p]] conns_wf_get [OF wf p] assms(5) by blast
  moreover have "live_ok (goto w q (serving (rl_server r) r))"
    using assms(1,4) by (intro live_put) (auto simp: relay_inv_def)
  then have "live_ok (goto w q r)" by (simp add: serving_def)
  ultimately show ?thesis using assms(1) by (simp add: relay_inv_def goto_def)
qed

text \<open>Only the server changes, and no socket of it.\<close>

lemma inv_server:
  "relay_inv r \<Longrightarrow> same_config (rl_server r) s' \<Longrightarrow> registries_ok s' \<Longrightarrow> registered s' \<subseteq> registered (rl_server r) \<Longrightarrow>
   sv_webSocketWG s' = sv_webSocketWG (rl_server r) \<Longrightarrow> relay_inv (serving s' r)"
  by (auto simp: relay_inv_def same_config_def live_server) (simp_all add: serving_def)

lemma inv_same: "relay_inv r \<Longrightarrow> same_sockets (rl_server r) s' \<Longrightarrow> relay_inv (serving s' r)"
  using inv_server [of r s'] registries_same [of "rl_server r" s'] registered_same [of "rl_server r" s']
  by (simp add: relay_inv_def same_sockets_def)

lemma inv_begin:
  assumes "relay_inv r" "at w Accepted r" "beginWebSocket flt w (rl_server r) = (True, cs, s')"
  shows "relay_inv (goto w Serving (serving s' r))"
proof -
  have wf: "conns_wf (sv_MaxMessageBytes (rl_server r)) (rl_conns r)" and p: "map_of (rl_conns r) w = Some Accepted"
    using assms(1,2) by (simp_all add: relay_inv_def at_def)
  note add = assms(3) [unfolded beginWebSocket_def]
  have "conns_wf (sv_MaxMessageBytes (rl_server r)) (map_put w Serving (rl_conns r))"
    using conns_wf_put [OF wf same_id [OF wf p]] conns_wf_get [OF wf p] by blast
  moreover have "handlers (map_put w Serving (rl_conns r)) = handlers (rl_conns r) + 1"
    using handlers_delete [OF conns_wf_keys [OF wf] p] by (simp add: handlers_put)
  moreover have "live_ok (goto w Serving (serving s' r))"
    using assms(1) registered_ops(1) [OF add] by (auto simp: relay_inv_def live_ok_def relay_moves)
  ultimately show ?thesis using assms(1) registries_ops(1) [OF add] add_result [OF add]
    by (simp add: relay_inv_def goto_def serving_def same_config_def)
qed

lemma inv_leave:
  assumes "relay_inv r" "at w p r" "\<not> in_loop p"
    and "s' = (rl_server r)\<lparr>sv_webSocketWG := sv_webSocketWG (rl_server r) - (if p = Accepted then 0 else 1)\<rparr>"
  shows "relay_inv (leave w (serving s' r))"
proof -
  have wf: "conns_wf (sv_MaxMessageBytes (rl_server r)) (rl_conns r)" and p: "map_of (rl_conns r) w = Some p"
    using assms(1,2) by (simp_all add: relay_inv_def at_def)
  have reg: "registered s' = registered (rl_server r)" by (simp add: assms(4) registered_def)
  have "live_ok (leave w (serving s' r))"
    using assms(1) not_in_loop [OF _ assms(2,3)] reg by (intro live_delete) (auto simp: relay_inv_def)
  moreover have "registries_ok s'" using assms(1) by (simp add: assms(4) relay_inv_def registries_ok_def)
  moreover have "conns_wf (sv_MaxMessageBytes s') (map_delete w (rl_conns r))"
    using conns_wf_delete [OF wf] by (simp add: assms(4))
  ultimately show ?thesis using assms(1,4) handlers_delete [OF conns_wf_keys [OF wf] p]
    by (simp add: relay_inv_def leave_def serving_def split: if_splits)
qed

lemma inv_remove:
  assumes "relay_inv r" "at w Returning r" "removeSession w (rl_server r) = (cs, s')"
  shows "relay_inv (goto w Removed (serving s' r))"
proof -
  have wf: "conns_wf (sv_MaxMessageBytes (rl_server r)) (rl_conns r)" and p: "map_of (rl_conns r) w = Some Returning"
    and ok: "registries_ok (rl_server r)"
    using assms(1,2) by (simp_all add: relay_inv_def at_def)
  note ty = conns_wf_get [OF wf p]
  have "conns_wf (sv_MaxMessageBytes (rl_server r)) (map_put w Removed (rl_conns r))"
    using conns_wf_put [OF wf same_id [OF wf p]] ty by blast
  moreover have "handlers (map_put w Removed (rl_conns r)) = handlers (rl_conns r)"
    using wf p by (intro handlers_goto) auto
  moreover have "live_ok (goto w Removed (serving s' r))"
    using registered_remove [OF assms(3) ok] ty assms(1) by (intro live_put) (auto simp: relay_inv_def)
  ultimately show ?thesis using assms(1) registries_ops(2) [OF assms(3) ok] remove_result [OF assms(3)]
    by (simp add: relay_inv_def goto_def serving_def same_config_def)
qed

lemma inv_accept:
  assumes "relay_inv r" "same_sockets (rl_server r) s'" "wk_id w \<notin> used_ids r"
    and "se_ConnectionType (wk_session w) \<in> {ConnectionHost, ConnectionDevice}"
  shows "relay_inv (goto w Accepted (serving s' r))"
proof -
  have wf: "conns_wf (sv_MaxMessageBytes (rl_server r)) (rl_conns r)"
    and new: "wk_id w \<notin> (wk_id \<circ> fst) ` set (rl_conns r)"
    using assms(1,3) by (simp_all add: relay_inv_def used_ids_def)
  then have "wk_id w \<notin> (wk_id \<circ> fst) ` set (map_delete w (rl_conns r))" by (auto simp: in_map_delete)
  then have "conns_wf (sv_MaxMessageBytes (rl_server r)) (map_put w Accepted (rl_conns r))"
    using conns_wf_put [OF wf] assms(4) by blast
  moreover have "w \<notin> registered s'"
    using assms(1) new registered_same [OF assms(2)]
    by (force simp: relay_inv_def live_ok_def at_def dest: map_of_SomeD)
  then have "live_ok (goto w Accepted (serving s' r))"
    using assms(1) registered_same [OF assms(2)] by (intro live_put) (auto simp: relay_inv_def)
  ultimately show ?thesis
    using assms(1) registries_same [OF assms(2)] assms(2) handlers_fresh [OF new]
    by (simp add: relay_inv_def goto_def serving_def same_sockets_def same_config_def)
qed

lemma conn_step_inv: "conn_step r es r' \<Longrightarrow> relay_inv r \<Longrightarrow> relay_inv r'"
proof (induction rule: conn_step.induct)
  case (enter w r flt cs s')
  then show ?case by (intro inv_begin)
next
  case (enter_refused w r flt cs s')
  then have "s' = rl_server r" using add_result [of True flt w "rl_server r" False cs s'] by (simp add: beginWebSocket_def)
  then show ?case using enter_refused by (intro inv_leave [where p = Accepted]) auto
next
  case (message_routed w r data target)
  have "se_ConnectionType (wk_session w) \<in> {ConnectionHost, ConnectionDevice}"
    using message_routed conns_wf_get by (force simp: relay_inv_def at_def)
  with message_routed serve_message_allowed [of w data "rl_server r" target]
  show ?case by (intro inv_goto [where p = Serving]) (auto simp: relay_inv_def)
next
  case (remove w r cs s')
  then show ?case by (intro inv_remove)
next
  case (finish w r)
  then show ?case by (intro inv_leave [where p = Removed]) auto
qed (auto intro!: inv_goto)

lemma session_type:
  "sessionFromRequest rq = Inr a \<Longrightarrow> se_ConnectionType a \<in> {ConnectionHost, ConnectionDevice}"
  unfolding sessionFromRequest_def Let_def by (auto split: if_splits)

lemma relay_step_inv: "relay_step cr rep r es r' \<Longrightarrow> relay_inv r \<Longrightarrow> relay_inv r'"
proof (induction rule: relay_step.induct)
  case (accept rq a load now flt r s' w)
  then show ?case using session_type [of rq a] authenticate_sockets by (intro inv_accept) auto
next
  case (no_socket rq a load now flt r ok s')
  then show ?case using authenticate_sockets by (intro inv_same)
next
  case (conn r es r')
  then show ?case by (rule conn_step_inv)
next
  case (auth load r err s')
  then show ?case using ensureAuth_sockets by (intro inv_same) auto
next
  case (limit now rq r ok s')
  then show ?case using allowChallenge_sockets by (intro inv_same) auto
next
  case (revoke flt t h v r res cs s')
  then show ?case using registries_ops(3) registered_ops(2) revoke_result
    by (intro inv_server) (auto simp: relay_inv_def)
next
  case (shutdown r cs s')
  then show ?case using registries_ops(4) registered_ops(3) shutdown_result
    by (intro inv_server) (auto simp: relay_inv_def)
qed (auto intro!: inv_same simp: same_sockets_def same_config_def)

lemma start_inv: "relay_inv (start_relay m a d)"
  by (simp add: relay_inv_def start_relay_def NewServerWithStore_def NewServer_def registries_ok_def
      conns_wf_def live_ok_def registered_def)

lemma relay_run_inv: "relay_run cr rep r es r' \<Longrightarrow> relay_inv r \<Longrightarrow> relay_inv r'"
  by (induction rule: relay_run.induct) (auto intro: relay_step_inv)

section \<open>What a run does to the database\<close>

text \<open>Seen from the database, a run of the relay is a run of the services.\<close>

lemma authenticate_db:
  assumes "authenticateSession cr load now flt rq a s = (b, s')"
  shows "sv_db s' = sv_db s \<or> service_call cr (sv_db s) (sv_db s')"
proof -
  consider "sv_db s' = sv_db s" | s1 svc tok sc x where "sv_db s1 = sv_db s"
      "on_store (ConsumeTicket cr svc now flt tok sc) s1 = (x, s')"
    using assms unfolding authenticateSession_def
    by (auto split: if_splits option.splits prod.splits dest!: ensureAuth_sockets)
  then show ?thesis
  proof cases
    case 2
    then have "ConsumeTicket cr svc now flt tok sc (sv_db s) = (x, sv_db s')"
      by (auto simp: on_store_def split: prod.splits)
    then show ?thesis by (blast intro: service_call.consume_ticket)
  qed blast
qed

lemma conn_step_server:
  "conn_step r es r' \<Longrightarrow> same_config (rl_server r) (rl_server r') \<and> sv_db (rl_server r') = sv_db (rl_server r) \<and>
     sv_shuttingDown (rl_server r') = sv_shuttingDown (rl_server r)"
  by (induction rule: conn_step.induct)
    (auto simp: relay_moves beginWebSocket_def same_config_def dest!: add_result remove_result)

lemma relay_step_config: "relay_step cr rep r es r' \<Longrightarrow> same_config (rl_server r) (rl_server r')"
  by (induction rule: relay_step.induct)
    (auto simp: relay_moves same_config_def same_sockets_def
      dest!: conn_step_server authenticate_sockets ensureAuth_sockets allowChallenge_sockets revoke_result shutdown_result)

lemma relay_step_db:
  assumes "relay_step cr rep r es r'"
  shows "sv_db (rl_server r') = sv_db (rl_server r) \<or> service_step cr (sv_db (rl_server r)) (sv_db (rl_server r'))"
  using assms
proof (induction rule: relay_step.induct)
  case (revoke flt t h v r res cs s')
  then have "service_step cr (sv_db (rl_server r)) (sv_db s')"
    using revoke_result [OF revoke(1)] service_step.revoke [of flt t h v "sv_db (rl_server r)" _ "sv_db s'" cr]
    by (metis prod.collapse)
  then show ?case by (simp add: serving_def)
qed (auto simp: relay_moves intro: service_step.call
      dest!: authenticate_db conn_step_server ensureAuth_sockets allowChallenge_sockets shutdown_result)

lemma relay_run_config: "relay_run cr rep r es r' \<Longrightarrow> same_config (rl_server r) (rl_server r')"
  by (induction rule: relay_run.induct) (auto simp: same_config_def dest!: relay_step_config)

lemma relay_run_db: "relay_run cr rep r es r' \<Longrightarrow> service_run cr (sv_db (rl_server r)) (sv_db (rl_server r'))"
proof (induction rule: relay_run.induct)
  case (start r)
  show ?case by (simp add: service_run_def)
next
  case (step r es r1 fs r2)
  from relay_step_db [OF step(2)] step.IH show ?case
    unfolding service_run_def by (metis rtranclp.rtrancl_into_rtrancl)
qed

section \<open>Delivery\<close>

lemma conn_step_sent:
  assumes "conn_step r es r'" "relay_inv r" "Sent w target data \<in> set es"
  shows "allowed (sv_MaxMessageBytes (rl_server r)) w target data"
  using assms
proof (induction rule: conn_step.induct)
  case (written w1 target1 data1 r)
  then have "map_of (rl_conns r) w = Some (Writing target data)" by (auto simp: at_def)
  with written(2) conns_wf_get show ?case by (force simp: relay_inv_def)
qed auto

lemma relay_step_sent:
  "relay_step cr rep r es r' \<Longrightarrow> relay_inv r \<Longrightarrow> Sent w target data \<in> set es \<Longrightarrow>
   allowed (sv_MaxMessageBytes (rl_server r)) w target data"
  by (induction rule: relay_step.induct) (auto dest: conn_step_sent)

lemma relay_run_sent:
  "relay_run cr rep r es r' \<Longrightarrow> relay_inv r \<Longrightarrow> Sent w target data \<in> set es \<Longrightarrow>
   allowed (sv_MaxMessageBytes (rl_server r)) w target data"
proof (induction rule: relay_run.induct)
  case (step r es r1 fs r2)
  show ?case
  proof (cases "Sent w target data \<in> set es")
    case False
    with step relay_step_sent [OF step(2)] relay_run_inv [OF step(1)] relay_run_config [OF step(1)]
    show ?thesis by (simp add: same_config_def)
  qed (use step in blast)
qed simp

lemma start_server:
  "sv_MaxMessageBytes (rl_server (start_relay m a d)) = m" "sv_db (rl_server (start_relay m a d)) = d"
  "sv_store (rl_server (start_relay m a d))"
  by (simp_all add: start_relay_def NewServerWithStore_def NewServer_def)

definition socket_identity :: "web_socket \<Rightarrow> string \<times> string \<times> string" where
  "socket_identity w = (se_TenantID (wk_session w), se_HostID (wk_session w), se_DeviceID (wk_session w))"

definition slash_free :: "web_socket \<Rightarrow> bool" where
  "slash_free w \<longleftrightarrow> no_slash (se_TenantID (wk_session w)) \<and> no_slash (se_HostID (wk_session w))"

lemma deviceKey_session: "deviceKey = session_deviceKey"
  by (simp add: fun_eq_iff deviceKey_def session_deviceKey_def)

lemma session_key_inj: "slash_free a \<Longrightarrow> slash_free b \<Longrightarrow> session_key a = session_key b \<Longrightarrow> socket_identity a = socket_identity b"
  unfolding session_key_def deviceKey_session slash_free_def socket_identity_def
  by (drule deviceKey_split) auto

text \<open>
  C1: A message only ever goes from a socket to its peer. Whatever handlers, API calls and the
  shutdown do, what the relay writes to a socket is the exact text a socket of the other role sent,
  that text is a well-formed frame within the size limit that names the sender's tenant, host and
  device and the sender's direction, and both sockets are registered under the same key. When tenant
  and host identifiers have no slash, both belong to the same device binding.
\<close>

theorem frames_reach_the_peer:
  assumes "relay_run cr rep (start_relay m a d) es r" "Sent w target data \<in> set es"
  shows "(\<exists>f. ParseRelayFrame data m = Inr f \<and> (rf_TenantID f, rf_HostID f, rf_DeviceID f) = socket_identity w \<and>
      (se_ConnectionType (wk_session w) = ConnectionHost \<and> se_ConnectionType (wk_session target) = ConnectionDevice \<and>
         rf_Direction f = DirectionWindowsToMobile \<or>
       se_ConnectionType (wk_session w) = ConnectionDevice \<and> se_ConnectionType (wk_session target) = ConnectionHost \<and>
         rf_Direction f = DirectionMobileToWindows)) \<and>
    session_key target = session_key w \<and>
    (slash_free w \<longrightarrow> slash_free target \<longrightarrow> socket_identity target = socket_identity w)"
proof -
  from relay_run_sent [OF assms(1) start_inv assms(2)] obtain f where f: "ParseRelayFrame data m = Inr f"
      "validateSenderFrame (wk_session w) f = 0" "peers w target"
    unfolding allowed_def start_server by blast
  then show ?thesis using session_key_inj [of target w]
    by (auto simp: validateSenderFrame_def peers_def socket_identity_def split: if_splits)
qed

text \<open>
  C25: Sockets are accounted for in every state the relay reaches: each registered socket is under its
  own key, in the registry of its role, and its handler is still in its loop, so nothing is
  registered that no handler will remove; the wait group counts exactly the handlers that have
  entered and not finished; and once the shutdown has begun nothing is registered.
\<close>

theorem sockets_accounted:
  assumes "relay_run cr rep (start_relay m a d) es r"
  shows "(\<forall>w\<in>registered (rl_server r).
      (map_of (sv_hosts (rl_server r)) (session_key w) = Some w \<and> se_ConnectionType (wk_session w) = ConnectionHost \<or>
       map_of (sv_devices (rl_server r)) (session_key w) = Some w \<and> se_ConnectionType (wk_session w) = ConnectionDevice) \<and>
      (\<exists>p. at w p r \<and> in_loop p)) \<and>
    sv_webSocketWG (rl_server r) = handlers (rl_conns r) \<and>
    (sv_shuttingDown (rl_server r) \<longrightarrow> registered (rl_server r) = {})"
proof -
  have inv: "relay_inv r" using relay_run_inv [OF assms start_inv] .
  then have reg: "registry_ok ConnectionHost (sv_hosts (rl_server r))" "registry_ok ConnectionDevice (sv_devices (rl_server r))"
    by (simp_all add: relay_inv_def registries_ok_def)
  have "(map_of (sv_hosts (rl_server r)) (session_key w) = Some w \<and> se_ConnectionType (wk_session w) = ConnectionHost \<or>
       map_of (sv_devices (rl_server r)) (session_key w) = Some w \<and> se_ConnectionType (wk_session w) = ConnectionDevice)"
    if "w \<in> registered (rl_server r)" for w
    using that registry_socket [OF reg(1), of w] registry_socket [OF reg(2), of w] unfolding registered_def by blast
  moreover have "sv_shuttingDown (rl_server r) \<longrightarrow> registered (rl_server r) = {}"
    using inv by (simp add: relay_inv_def registries_ok_def registered_def)
  ultimately show ?thesis using inv unfolding relay_inv_def live_ok_def by blast
qed

end
