(* ===== verification/Relay_Control.thy ===== *)
theory Relay_Control
  imports Relay_Run
begin

text \<open>
  Revocation, shutdown and routing over whole runs of the relay: who may stay connected, how the
  relay drains, and what the registries of keys mean in terms of device bindings.
\<close>

section \<open>Connected devices are bound\<close>

lemma GetDevice_active: "is_Inr (fst (GetDevice flt t h v d)) \<Longrightarrow> device_active (t, h, v) d"
  by (auto simp: GetDevice_def tx_simps is_Inr_def scanDevice_def device_active_def dv_key_def
      split: if_splits option.splits dest!: find_Some_in)

lemma RevokeDevice_failed:
  assumes "db_inv d" "RevokeDevice flt t h v d = (Inl e, d')" "\<not> flt 1"
  shows "d' = d"
  using RevokeDevice_error [OF assms(1,2)] assms(3) by blast

lemma revoke_gone:
  assumes "revokeDevice flt t h v s = (x, cs, s')" "is_Inr x" "registries_ok s" "w \<in> registered s'"
  shows "session_key w \<noteq> deviceKey t h v"
proof
  assume eq: "session_key w = deviceKey t h v"
  note rr = revoke_result [OF assms(1)]
  have reg: "registry_ok ConnectionHost (sv_hosts s')" "registry_ok ConnectionDevice (sv_devices s')"
    using registries_ops(3) [OF assms(1,3)] by (simp_all add: registries_ok_def)
  have "map_of (sv_hosts s') (session_key w) = None" "map_of (sv_devices s') (session_key w) = None"
    using rr assms(2) eq by simp_all
  with assms(4) show False using registry_absent [OF reg(1)] registry_absent [OF reg(2)] unfolding registered_def by blast
qed

definition bound_ok :: "relay \<Rightarrow> bool" where
  "bound_ok r \<longleftrightarrow> (\<forall>w\<in>registered (rl_server r). device_active (socket_identity w) (sv_db (rl_server r)))"

lemma bound_same:
  assumes "bound_ok r" "registered s' \<subseteq> registered (rl_server r)" "\<And>k. active_kept k (sv_db (rl_server r)) (sv_db s')"
  shows "bound_ok (serving s' r)"
  using assms(1,2) assms(3) [unfolded active_kept_def] unfolding bound_ok_def serving_def by simp blast

lemma conn_step_registered:
  assumes "conn_step r es r'" "relay_inv r"
  shows "registered (rl_server r') \<subseteq> registered (rl_server r) \<or>
    (\<exists>w flt. registered (rl_server r') \<subseteq> insert w (registered (rl_server r)) \<and>
       routeActiveLocked flt (wk_session w) (rl_server r))"
  using assms
proof (induction rule: conn_step.induct)
  case (enter w r flt cs s')
  then show ?case using registered_ops(1) [of True flt w "rl_server r" True cs s'] add_result [of True flt w "rl_server r" True cs s']
    by (auto simp: relay_moves beginWebSocket_def)
next
  case (enter_refused w r flt cs s')
  then show ?case using registered_ops(1) [of True flt w "rl_server r" False cs s']
    by (auto simp: relay_moves beginWebSocket_def)
next
  case (remove w r cs s')
  then have "se_ConnectionType (wk_session w) = ConnectionHost \<or> se_ConnectionType (wk_session w) = ConnectionDevice"
    using conns_wf_get [of "sv_MaxMessageBytes (rl_server r)" "rl_conns r" w Returning] by (simp add: relay_inv_def at_def)
  then show ?case using remove registered_remove [of w "rl_server r" cs s']
    by (auto simp: relay_moves relay_inv_def)
qed (auto simp: relay_moves registered_def)

lemma relay_step_bound:
  assumes "relay_step cr True r es r'" "relay_inv r" "bound_ok r" "db_inv (sv_db (rl_server r))" "sv_store (rl_server r)"
  shows "bound_ok r'"
  using assms
proof (induction rule: relay_step.induct)
  case (accept rq a load now flt r s' w)
  have "bound_ok (serving s' r)"
    using accept registered_same [OF authenticate_sockets [OF accept(2)]] authenticate_db [OF accept(2)] service_call_active act.refl
    by (intro bound_same) auto
  then show ?case by (simp add: bound_ok_def relay_moves)
next
  case (no_socket rq a load now flt r ok s')
  then show ?case
    using registered_same [OF authenticate_sockets [OF no_socket(2)]] authenticate_db [OF no_socket(2)] service_call_active act.refl
    by (intro bound_same) auto
next
  case (conn r es r')
  note db = conn_step_server [OF conn(1)]
  from conn_step_registered [OF conn(1,2)] show ?case
  proof
    assume "registered (rl_server r') \<subseteq> registered (rl_server r)"
    with conn(3) db show ?thesis by (auto simp: bound_ok_def)
  next
    assume "\<exists>w flt. registered (rl_server r') \<subseteq> insert w (registered (rl_server r)) \<and>
      routeActiveLocked flt (wk_session w) (rl_server r)"
    then obtain w flt where w: "registered (rl_server r') \<subseteq> insert w (registered (rl_server r))"
      "routeActiveLocked flt (wk_session w) (rl_server r)" by blast
    with conn(5) have "device_active (socket_identity w) (sv_db (rl_server r))"
      unfolding routeActiveLocked_def socket_identity_def by (simp add: GetDevice_active)
    with conn(3) db w(1) show ?thesis by (auto simp: bound_ok_def)
  qed
next
  case (service r d')
  then show ?case using service_call_active by (intro bound_same) (auto simp: registered_def)
next
  case (auth load r err s')
  then show ?case using ensureAuth_sockets [OF auth(1)] registered_same act.refl by (intro bound_same) auto
next
  case (limit now rq r ok s')
  then show ?case using allowChallenge_sockets [OF limit(1)] registered_same act.refl by (intro bound_same) auto
next
  case (revoke flt t h v r res cs s')
  note rr = revoke_result [OF revoke(1)]
  have run: "RevokeDevice flt t h v (sv_db (rl_server r)) = (res, sv_db s')" using rr by (metis prod.collapse)
  show ?case
  proof (cases "is_Inr res")
    case True
    have "device_active (socket_identity w) (sv_db s')" if w: "w \<in> registered s'" for w
    proof -
      have "w \<in> registered (rl_server r)" using registered_ops(2) [OF revoke(1)] w by blast
      moreover have "session_key w \<noteq> deviceKey t h v"
        using revoke_gone [OF revoke(1) True _ w] revoke(3) by (simp add: relay_inv_def)
      then have "socket_identity w \<noteq> (t, h, v)" by (auto simp: session_key_def socket_identity_def)
      ultimately show ?thesis using revoke(4) act.obeysD [OF pairing_ops_act(12) run, of "socket_identity w"]
        by (auto simp: bound_ok_def active_kept_def)
    qed
    then show ?thesis by (simp add: bound_ok_def serving_def)
  next
    case False
    then have "sv_db s' = sv_db (rl_server r)"
      using RevokeDevice_failed [OF revoke(5)] run revoke(2) by (cases res) (auto simp: is_Inr_def)
    with revoke show ?thesis using registered_ops(2) [OF revoke(1)] act.refl by (intro bound_same) auto
  qed
next
  case (shutdown r cs s')
  then show ?case using registered_ops(3) [OF shutdown(1)] shutdown_result [OF shutdown(1)] act.refl
    by (intro bound_same) auto
qed

lemma relay_run_bound:
  assumes "relay_run cr True (start_relay m a d) es r" "pairing_ok d"
  shows "bound_ok r"
proof -
  have "bound_ok r" if "relay_run cr True r0 es r" "r0 = start_relay m a d" for r0
    using that
  proof (induction rule: relay_run.induct)
    case (start r)
    then show ?case
      by (simp add: bound_ok_def registered_def start_relay_def NewServerWithStore_def NewServer_def)
  next
    case (step r es r1 fs r2)
    have "pairing_ok (sv_db (rl_server r1))"
      using relay_run_db [OF step(1)] service_run_order assms(2) step(4) by (force simp: relay_order_def start_server)
    moreover have "sv_store (rl_server r1)"
      using relay_run_config [OF step(1)] step(4) by (simp add: same_config_def start_server)
    ultimately show ?case
      using step relay_step_bound [OF step(2)] relay_run_inv [OF step(1)] start_inv by (simp add: pairing_ok_def)
  qed
  with assms(1) show ?thesis by blast
qed

text \<open>
  C2: Whoever is connected is bound. In every state the relay reaches from a consistent database, the
  device of every registered socket, the host's and the device's own, is bound and not revoked. It
  is assumed that the driver reports the number of rows a revocation changed: if that call failed,
  the device would be revoked with its sockets left open.
\<close>

theorem connected_devices_bound:
  assumes "relay_run cr True (start_relay m a d) es r" "pairing_ok d" "w \<in> registered (rl_server r)"
  shows "\<exists>v\<in>set (devices (sv_db (rl_server r))). dv_key v = socket_identity w \<and> dv_revoked v = 0"
  using relay_run_bound [OF assms(1,2)] assms(3) by (auto simp: bound_ok_def device_active_def)

section \<open>Revocation\<close>

lemma RevokeDevice_inactive:
  assumes "RevokeDevice flt t h v d = (Inr u, d')"
  shows "\<not> device_active (t, h, v) d'"
proof
  let ?Q = "\<lambda>x. dv_tenant_id x = t \<and> dv_host_id x = h \<and> dv_device_id x = v \<and> dv_revoked x = 0"
  assume "device_active (t, h, v) d'"
  then obtain x where x: "x \<in> set (devices d')" "?Q x" by (auto simp: device_active_def dv_key_def)
  have "devices d' = update_where ?Q (\<lambda>x. x\<lparr>dv_revoked := 1\<rparr>) (devices d)"
    using assms unfolding RevokeDevice_def by (auto simp: tx_inv)
  with x(1) have "x \<in> set (update_where ?Q (\<lambda>x. x\<lparr>dv_revoked := 1\<rparr>) (devices d))" by simp
  then show False using x(2) by (cases rule: update_whereE) auto
qed

lemma registered_closed:
  assumes "registries_ok s" "w \<in> registered s"
  shows "w \<in> set (entry (session_key w) (sv_hosts s) @ entry (session_key w) (sv_devices s))"
proof -
  have "map_of (sv_hosts s) (session_key w) = Some w \<or> map_of (sv_devices s) (session_key w) = Some w"
    using assms registry_socket [of _ _ w] unfolding registered_def registries_ok_def by blast
  then show ?thesis by (auto simp: entry_def)
qed

text \<open>
  C21: A revocation disconnects. When revoking a device succeeds, every socket registered for that
  binding, the device's and the host's, is closed with code 4008, none stays registered, and no
  socket for it can enter the registry in the resulting state, whatever the database driver does.
\<close>

theorem revocation_disconnects:
  assumes "relay_run cr rep (start_relay m a d) es r" "revokeDevice flt t h v (rl_server r) = (Inr u, cs, s')"
  shows "(\<forall>w\<in>registered (rl_server r). socket_identity w = (t, h, v) \<longrightarrow>
      (w, closeIdentity, ''identity_or_direction_mismatch'') \<in> set cs) \<and>
    (\<forall>w\<in>registered s'. socket_identity w \<noteq> (t, h, v)) \<and>
    (\<forall>flt' w. socket_identity w = (t, h, v) \<longrightarrow> \<not> fst (beginWebSocket flt' w s'))"
proof -
  have ok: "registries_ok (rl_server r)"
    using relay_run_inv [OF assms(1) start_inv] by (simp add: relay_inv_def)
  have key: "session_key w = deviceKey t h v" if "socket_identity w = (t, h, v)" for w
    using that by (auto simp: session_key_def socket_identity_def)
  have rr: "RevokeDevice flt t h v (sv_db (rl_server r)) = (Inr u, sv_db s')" "sv_store s'"
    using revoke_result [OF assms(2)] relay_run_config [OF assms(1)]
    by (auto simp: prod_eq_iff same_config_def start_server)
  have "(w, closeIdentity, ''identity_or_direction_mismatch'') \<in> set cs"
    if "w \<in> registered (rl_server r)" "socket_identity w = (t, h, v)" for w
  proof -
    have "cs = closeSessions (entry (session_key w) (sv_hosts (rl_server r)) @ entry (session_key w) (sv_devices (rl_server r)))
        closeIdentity ''identity_or_direction_mismatch''"
      using assms(2) rr(1) key [OF that(2)] unfolding revokeDevice_def on_store_def Let_def by auto
    with registered_closed [OF ok that(1)] show ?thesis by (auto simp: closeSessions_def)
  qed
  moreover have "socket_identity w \<noteq> (t, h, v)" if "w \<in> registered s'" for w
    using revoke_gone [OF assms(2) _ ok that] key by (auto simp: is_Inr_def)
  moreover have "\<not> fst (beginWebSocket flt' w s')" if "socket_identity w = (t, h, v)" for flt' w
  proof -
    have "\<not> routeActiveLocked flt' (wk_session w) s'"
      using RevokeDevice_inactive [OF rr(1)] GetDevice_active [of flt' t h v "sv_db s'"] that rr(2)
      by (auto simp: routeActiveLocked_def socket_identity_def)
    then show ?thesis by (simp add: beginWebSocket_def addSessionWithLifecycle_def Let_def)
  qed
  ultimately show ?thesis by blast
qed

section \<open>Shutdown\<close>

fun rank :: "phase \<Rightarrow> nat" where
  "rank Accepted = 1"
| "rank Serving = 3"
| "rank (Writing _ _) = 4"
| "rank Returning = 2"
| "rank Removed = 1"

definition drain :: "(web_socket \<times> phase) list \<Rightarrow> nat" where
  "drain cs = sum_list (map (rank \<circ> snd) cs)"

lemma drain_bound: "drain cs \<le> 4 * length cs"
proof (induction cs)
  case (Cons e cs)
  have "rank (snd e) \<le> 4" by (cases "snd e") auto
  with Cons show ?case by (simp add: drain_def)
qed (simp add: drain_def)

lemma drain_delete: "distinct (map fst cs) \<Longrightarrow> map_of cs w = Some p \<Longrightarrow> drain cs = rank p + drain (map_delete w cs)"
proof (induction cs)
  case (Cons e cs)
  show ?case
  proof (cases "fst e = w")
    case True
    then have "map_delete w cs = cs" using Cons.prems(1) by (intro map_delete_absent) simp
    with True Cons.prems(2) show ?thesis by (cases e) (auto simp: map_delete_def drain_def)
  next
    case False
    with Cons show ?thesis by (cases e) (simp add: map_delete_def drain_def)
  qed
qed simp

lemma drain_put: "drain (map_put w q cs) = rank q + drain (map_delete w cs)"
  by (simp add: map_put_def map_delete_def drain_def)

lemma drain_goto: "conns_wf m cs \<Longrightarrow> map_of cs w = Some p \<Longrightarrow> rank q < rank p \<Longrightarrow> drain (map_put w q cs) < drain cs"
  using drain_delete [OF conns_wf_keys, of m cs w p] by (simp add: drain_put)

lemma drain_leave: "conns_wf m cs \<Longrightarrow> map_of cs w = Some p \<Longrightarrow> drain (map_delete w cs) < drain cs"
  using drain_delete [OF conns_wf_keys, of m cs w p] by (cases p) simp_all

lemma begin_refused_shutdown: "sv_shuttingDown s \<Longrightarrow> beginWebSocket flt w s = (False, [], s)"
  by (simp add: beginWebSocket_def addSessionWithLifecycle_def Let_def)

lemma serve_refused_shutdown:
  assumes "sv_shuttingDown s" "registries_ok s" shows "serve_message w data s \<noteq> Inr target"
proof -
  have "holds (if b then sv_devices s else sv_hosts s) k w = False" for b k
    using assms by (simp add: registries_ok_def holds_def)
  then show ?thesis by (auto simp: serve_message_def routeTarget_def Let_def split: sum.splits)
qed

lemma conn_step_drains:
  assumes "conn_step r es r'" "relay_inv r" "sv_shuttingDown (rl_server r)"
  shows "drain (rl_conns r') < drain (rl_conns r)"
  using assms
proof (induction rule: conn_step.induct)
  case (enter w r flt cs s')
  then show ?case using begin_refused_shutdown by simp
next
  case (message_routed w r data target)
  then show ?case using serve_refused_shutdown by (simp add: relay_inv_def)
qed (auto simp: relay_inv_def relay_moves intro: drain_goto drain_leave)

lemma conn_step_progress:
  assumes "relay_inv r" "sv_shuttingDown (rl_server r)" "rl_conns r \<noteq> []"
  shows "\<exists>es r'. conn_step r es r'"
proof -
  obtain w p where "rl_conns r = (w, p) # tl (rl_conns r)" using assms(3) by (metis list.collapse surj_pair)
  then have "at w p r" unfolding at_def by (metis map_of_Cons_code(2))
  then show ?thesis using begin_refused_shutdown [OF assms(2)] conn_step.intros
    by (cases p) (metis surj_pair)+
qed

definition handler_step :: "relay \<Rightarrow> relay \<Rightarrow> bool" where
  "handler_step r r' \<longleftrightarrow> (\<exists>es. conn_step r es r')"

lemma shutdown_steps:
  assumes "(handler_step ^^ n) r r'" "relay_inv r" "sv_shuttingDown (rl_server r)"
  shows "n + drain (rl_conns r') \<le> drain (rl_conns r) \<and> relay_inv r' \<and> sv_shuttingDown (rl_server r')"
  using assms(1)
proof (induction n arbitrary: r')
  case (Suc n)
  then obtain r1 es where r1: "(handler_step ^^ n) r r1" "conn_step r1 es r'"
    unfolding relpowp.simps OO_def handler_step_def [of _ r'] by blast
  with Suc.IH conn_step_drains [OF r1(2)] conn_step_inv [OF r1(2)] conn_step_server [OF r1(2)] show ?case by force
qed (use assms in simp)

lemma shutdown_reaches_end:
  assumes "relay_inv r" "sv_shuttingDown (rl_server r)"
  shows "\<exists>r'. handler_step\<^sup>*\<^sup>* r r' \<and> rl_conns r' = []"
  using assms
proof (induction "drain (rl_conns r)" arbitrary: r rule: less_induct)
  case less
  show ?case
  proof (cases "rl_conns r = []")
    case False
    then obtain es r1 where r1: "conn_step r es r1" using conn_step_progress less.prems by blast
    with less conn_step_drains conn_step_inv conn_step_server
    obtain r' where "handler_step\<^sup>*\<^sup>* r1 r'" "rl_conns r' = []" by metis
    with r1 show ?thesis by (metis converse_rtranclp_into_rtranclp handler_step_def)
  qed blast
qed

subsection \<open>Sockets the relay has closed\<close>

text \<open>
  A run, with the open connections whose sockets the relay has closed since they were accepted. A
  read on such a socket fails without any help of the client.
\<close>

definition closed_by :: "event list \<Rightarrow> web_socket set" where
  "closed_by es = {w. \<exists>code reason. Close (w, code, reason) \<in> set es}"

inductive closing_run :: "crypto \<Rightarrow> bool \<Rightarrow> relay \<Rightarrow> event list \<Rightarrow> web_socket set \<Rightarrow> relay \<Rightarrow> bool" for cr rows_reported where
  none_closed: "closing_run cr rows_reported r [] {} r"
| closing_step: "closing_run cr rows_reported r es K r1 \<Longrightarrow> relay_step cr rows_reported r1 fs r2 \<Longrightarrow>
    closing_run cr rows_reported r (es @ fs) ((K \<union> closed_by fs) \<inter> fst ` set (rl_conns r2)) r2"

lemma closing_run_iff: "relay_run cr rep r es r' \<longleftrightarrow> (\<exists>K. closing_run cr rep r es K r')"
proof
  show "\<exists>K. closing_run cr rep r es K r'" if "relay_run cr rep r es r'"
    using that by (induction rule: relay_run.induct) (blast intro: closing_run.intros)+
  show "relay_run cr rep r es r'" if "\<exists>K. closing_run cr rep r es K r'"
  proof -
    from that obtain K where "closing_run cr rep r es K r'" by blast
    then show ?thesis by (induction rule: closing_run.induct) (blast intro: relay_run.intros)+
  qed
qed

definition reading :: "relay \<Rightarrow> web_socket set" where
  "reading r = {w. at w Serving r \<or> (\<exists>target data. at w (Writing target data) r)}"

lemma closed_by_closings: "closed_by (map Close cs @ es) = fst ` set cs \<union> closed_by es" "closed_by [] = {}"
  by (force simp: closed_by_def)+

lemma closeSessions_sockets: "fst ` set (closeSessions ws code reason) = set ws"
  by (force simp: closeSessions_def)

lemma entry_taken:
  assumes "registry_ok ty m"
  shows "snd ` set m \<subseteq> snd ` set (map_delete k m) \<union> set (entry k m)"
    and "snd ` set m \<subseteq> snd ` set (map_put k w m) \<union> set (entry k m)"
proof -
  have "map_keys_ok m" using assms by (simp add: registry_ok_def)
  then have "map_of m k' = Some x" if "(k', x) \<in> set m" for k' x
    using that by (simp add: map_entry)
  then show "snd ` set m \<subseteq> snd ` set (map_delete k m) \<union> set (entry k m)"
    and "snd ` set m \<subseteq> snd ` set (map_put k w m) \<union> set (entry k m)"
    by (force simp: in_map_delete in_map_put entry_def split: option.splits)+
qed

text \<open>Whoever loses its registration is told so: its socket is closed.\<close>

lemma deregistered_closed:
  assumes ok: "registries_ok s"
  shows "addSessionWithLifecycle tr flt w s = (True, cs, s') \<Longrightarrow> insert w (registered s) \<subseteq> registered s' \<union> fst ` set cs"
    and "revokeDevice flt t h v s = (x, cs, s') \<Longrightarrow> registered s \<subseteq> registered s' \<union> fst ` set cs"
    and "beginShutdown s = (cs, s') \<Longrightarrow> registered s \<subseteq> registered s' \<union> fst ` set cs"
    and "removeSession w s = (cs, s') \<Longrightarrow> registered s \<subseteq> registered s' \<union> fst ` set cs \<union> {x. wk_id x = wk_id w}"
proof -
  have reg: "registry_ok ConnectionHost (sv_hosts s)" "registry_ok ConnectionDevice (sv_devices s)"
    using ok by (simp_all add: registries_ok_def)
  note taken = entry_taken [OF reg(1)] entry_taken [OF reg(2)]
  have put: "w \<in> snd ` set (map_put k w m)" for k :: string and w and m :: "(string \<times> web_socket) list"
    by (force simp: in_map_put)
  show "insert w (registered s) \<subseteq> registered s' \<union> fst ` set cs" if "addSessionWithLifecycle tr flt w s = (True, cs, s')"
  proof -
    let ?k = "session_key w"
    from that consider "sv_hosts s' = map_put ?k w (sv_hosts s)" "sv_devices s' = map_delete ?k (sv_devices s)"
        "fst ` set cs = set (entry ?k (sv_hosts s)) \<union> set (entry ?k (sv_devices s))"
      | "sv_hosts s' = sv_hosts s" "sv_devices s' = map_put ?k w (sv_devices s)"
        "fst ` set cs = set (entry ?k (sv_devices s))"
      unfolding addSessionWithLifecycle_def Let_def by (auto simp: closeSessions_sockets split: if_splits)
    then show ?thesis
      by cases (use taken(2) [of ?k w] taken(3) [of ?k] taken(4) [of ?k w] put [of w ?k] in \<open>simp_all add: registered_def, blast+\<close>)
  qed
  show "registered s \<subseteq> registered s' \<union> fst ` set cs" if "revokeDevice flt t h v s = (x, cs, s')"
  proof -
    let ?k = "deviceKey t h v"
    from that on_store_sockets [of "RevokeDevice flt t h v" s] consider "sv_hosts s' = sv_hosts s" "sv_devices s' = sv_devices s"
      | "sv_hosts s' = map_delete ?k (sv_hosts s)" "sv_devices s' = map_delete ?k (sv_devices s)"
        "fst ` set cs = set (entry ?k (sv_hosts s)) \<union> set (entry ?k (sv_devices s))"
      unfolding revokeDevice_def Let_def same_sockets_def
      by (auto simp: closeSessions_sockets split: prod.splits sum.splits)
    then show ?thesis
      by cases (use taken(1) [of ?k] taken(3) [of ?k] in \<open>simp_all add: registered_def, blast?\<close>)
  qed
  show "registered s \<subseteq> registered s' \<union> fst ` set cs" if "beginShutdown s = (cs, s')"
    using that [symmetric] by (simp add: beginShutdown_def registered_def closeSessions_sockets split: if_splits)
  show "registered s \<subseteq> registered s' \<union> fst ` set cs \<union> {x. wk_id x = wk_id w}" if "removeSession w s = (cs, s')"
  proof -
    let ?k = "session_key w"
    have own: "set (entry ?k m) \<subseteq> {x. wk_id x = wk_id w}" if "holds m ?k w" for m
      using that by (auto simp: holds_def entry_def split: option.splits)
    let ?h = "se_ConnectionType (wk_session w) = ConnectionHost \<and> holds (sv_hosts s) ?k w"
    let ?d = "se_ConnectionType (wk_session w) = ConnectionDevice \<and> holds (sv_devices s) ?k w"
    have gone: "registered s' = snd ` set (map_delete ?k (sv_hosts s)) \<union> snd ` set (map_delete ?k (sv_devices s))" if "?h \<or> ?d"
      using that \<open>removeSession w s = (cs, s')\<close> [symmetric] by (auto simp: removeSession_def Let_def registered_def)
    consider ?h | "\<not> ?h" ?d | "\<not> ?h" "\<not> ?d" by blast
    then show ?thesis
    proof cases
      case 1
      then have cs: "fst ` set cs = set (entry ?k (sv_devices s))"
        using \<open>removeSession w s = (cs, s')\<close> [symmetric] by (simp add: removeSession_def Let_def closeSessions_sockets)
      show ?thesis unfolding registered_def [of s] gone [OF disjI1 [OF 1]] cs
        using taken(1) [of ?k] taken(3) [of ?k] own [OF conjunct2 [OF 1]] by blast
    next
      case 2
      then have cs: "fst ` set cs = set (entry ?k (sv_hosts s))"
        using \<open>removeSession w s = (cs, s')\<close> [symmetric] by (simp add: removeSession_def Let_def closeSessions_sockets)
      show ?thesis unfolding registered_def [of s] gone [OF disjI2 [OF 2(2)]] cs
        using taken(1) [of ?k] taken(3) [of ?k] own [OF conjunct2 [OF 2(2)]] by blast
    next
      case 3
      then have "s' = s" using \<open>removeSession w s = (cs, s')\<close> unfolding removeSession_def Let_def by (simp only: if_False prod.inject)
      then show ?thesis by blast
    qed
  qed
qed

text \<open>A handler in its loop is registered, or its socket is closed now, or it was unregistered before.\<close>

lemma reading_conn_step:
  assumes "conn_step r es r'" "relay_inv r"
  shows "reading r' \<subseteq> registered (rl_server r') \<union> closed_by es \<union> (reading r - registered (rl_server r))"
  using assms
proof (induction rule: conn_step.induct)
  case (enter w r flt cs s')
  then have "insert w (registered (rl_server r)) \<subseteq> registered s' \<union> fst ` set cs"
    by (intro deregistered_closed(1)) (simp_all add: relay_inv_def beginWebSocket_def)
  then show ?case using closed_by_closings(1) [of cs "[]"] by (auto simp: reading_def relay_moves closed_by_closings)
next
  case (enter_refused w r flt cs s')
  then have "s' = rl_server r" using add_result [of True flt w "rl_server r" False cs s'] by (simp add: beginWebSocket_def)
  then show ?case by (auto simp: reading_def relay_moves)
next
  case (remove w r cs s')
  have "registered (rl_server r) \<subseteq> registered s' \<union> fst ` set cs \<union> {x. wk_id x = wk_id w}"
    using remove by (intro deregistered_closed(4)) (simp_all add: relay_inv_def)
  moreover have "x = w" if "at x p r" "wk_id x = wk_id w" for x p
  proof -
    have "(x, p) \<in> set (rl_conns r)" "(w, Returning) \<in> set (rl_conns r)"
      using that(1) remove(1) by (auto simp: at_def dest: map_of_SomeD)
    moreover have "inj_on (wk_id \<circ> fst) (set (rl_conns r))"
      using remove(3) by (simp add: relay_inv_def conns_wf_def distinct_map)
    ultimately show ?thesis using that(2) by (auto dest: inj_onD [of _ _ "(x, p)" "(w, Returning)"])
  qed
  ultimately show ?case using closed_by_closings(1) [of cs] by (auto simp: reading_def relay_moves split: if_splits)
qed (auto simp: reading_def relay_moves registered_def split: if_splits)

lemma reading_kept:
  "registered (rl_server r) \<subseteq> registered s' \<union> closed_by es \<Longrightarrow>
   reading (serving s' r) \<subseteq> registered s' \<union> closed_by es \<union> (reading r - registered (rl_server r))"
  by (auto simp: reading_def relay_moves)

lemma reading_step:
  assumes "relay_step cr rep r es r'" "relay_inv r"
  shows "reading r' \<subseteq> registered (rl_server r') \<union> closed_by es \<union> (reading r - registered (rl_server r))"
  using assms
proof (induction rule: relay_step.induct)
  case (accept rq a load now flt r s' w)
  note registered_same [OF authenticate_sockets [OF accept(2)]]
  then show ?case by (auto simp: reading_def relay_moves split: if_splits)
next
  case (conn r es r')
  then show ?case by (rule reading_conn_step)
next
  case (revoke flt t h v r res cs s')
  then have "registered (rl_server r) \<subseteq> registered s' \<union> fst ` set cs"
    by (intro deregistered_closed(2)) (simp_all add: relay_inv_def)
  then show ?case
    using reading_kept [of r s' "map Close cs"] closed_by_closings(1) [of cs "[]"] by (simp add: serving_def closed_by_closings)
next
  case (shutdown r cs s')
  then have "registered (rl_server r) \<subseteq> registered s' \<union> fst ` set cs"
    by (intro deregistered_closed(3)) (simp_all add: relay_inv_def)
  then show ?case
    using reading_kept [of r s' "map Close cs"] closed_by_closings(1) [of cs "[]"] by (simp add: serving_def closed_by_closings)
qed (auto simp: reading_def relay_moves registered_def same_sockets_def
      dest!: authenticate_sockets ensureAuth_sockets allowChallenge_sockets)

lemma closing_run_ok:
  "closing_run cr rep r es K r' \<Longrightarrow> relay_inv r \<Longrightarrow> reading r = {} \<Longrightarrow>
   relay_inv r' \<and> reading r' \<subseteq> registered (rl_server r') \<union> K"
proof (induction rule: closing_run.induct)
  case (closing_step r es K r1 fs r2)
  then have inv: "relay_inv r1" and IH: "reading r1 \<subseteq> registered (rl_server r1) \<union> K" by blast+
  have "w \<in> fst ` set (rl_conns r2)" if "w \<in> reading r2" for w
    using that by (force simp: reading_def at_def dest: map_of_SomeD)
  with IH reading_step [OF closing_step.hyps(2) inv] relay_step_inv [OF closing_step.hyps(2) inv] show ?case by blast
qed simp

text \<open>
  A step of a handler that needs nothing from a client: it is not reading, or its socket is closed
  and the read fails.
\<close>

inductive prompt_step :: "web_socket set \<Rightarrow> relay \<Rightarrow> relay \<Rightarrow> bool" for K where
  read_closed: "at w Serving r \<Longrightarrow> w \<in> K \<Longrightarrow> prompt_step K r (goto w Returning r)"
| not_reading: "conn_step r es r' \<Longrightarrow> (\<And>w. at w Serving r \<Longrightarrow> at w Serving r') \<Longrightarrow> prompt_step K r r'"

lemma prompt_handler: "prompt_step K r r' \<Longrightarrow> handler_step r r'"
  unfolding handler_step_def by (induction rule: prompt_step.induct) (blast intro: conn_step.read_error)+

text \<open>After the shutdown no handler starts to read, so what was closed is enough to end them all.\<close>

lemma reading_shutdown:
  assumes "conn_step r es r'" "sv_shuttingDown (rl_server r)" "registries_ok (rl_server r)"
  shows "reading r' \<subseteq> reading r"
  using assms
proof (induction rule: conn_step.induct)
  case (enter w r flt cs s')
  then show ?case using begin_refused_shutdown by simp
qed (auto simp: reading_def relay_moves split: if_splits)

lemma prompt_progress:
  assumes "relay_inv r" "sv_shuttingDown (rl_server r)" "rl_conns r \<noteq> []" "reading r \<subseteq> K"
  shows "\<exists>r'. prompt_step K r r'"
proof -
  obtain w p where "rl_conns r = (w, p) # tl (rl_conns r)" using assms(3) by (metis list.collapse surj_pair)
  then have w: "at w p r" unfolding at_def by (metis map_of_Cons_code(2))
  show ?thesis
  proof (cases "p = Serving")
    case True
    with w assms(4) have "w \<in> K" by (auto simp: reading_def)
    with w True show ?thesis by (blast intro: read_closed)
  next
    case False
    obtain es r' where step: "conn_step r es r'" and conns: "rl_conns r' = map_delete w (rl_conns r) \<or> (\<exists>q. rl_conns r' = map_put w q (rl_conns r))"
    proof (cases p)
      case Accepted
      with w begin_refused_shutdown [OF assms(2)] show thesis
        by (intro that [OF conn_step.enter_refused [of w r no_faults]]) (simp_all add: leave_def serving_def)
    next
      case (Writing target data)
      with w show thesis by (intro that [OF conn_step.written]) (auto simp: goto_def)
    next
      case Returning
      obtain cs s' where "removeSession w (rl_server r) = (cs, s')" by force
      with w Returning show thesis by (intro that [OF conn_step.remove]) (auto simp: goto_def serving_def)
    next
      case Removed
      with w show thesis by (intro that [OF conn_step.finish]) (auto simp: leave_def serving_def)
    qed (use False in simp)
    have "at x Serving r'" if "at x Serving r" for x
      using that conns w False by (auto simp: at_def)
    with step show ?thesis by (blast intro: not_reading)
  qed
qed

lemma prompt_reaches_end:
  assumes "relay_inv r" "sv_shuttingDown (rl_server r)" "reading r \<subseteq> K"
  shows "\<exists>r'. (prompt_step K)\<^sup>*\<^sup>* r r' \<and> rl_conns r' = []"
  using assms
proof (induction "drain (rl_conns r)" arbitrary: r rule: less_induct)
  case less
  show ?case
  proof (cases "rl_conns r = []")
    case False
    then obtain r1 where r1: "prompt_step K r r1" using prompt_progress less.prems by blast
    then obtain es where step: "conn_step r es r1" using prompt_handler unfolding handler_step_def by blast
    have "reading r1 \<subseteq> K"
      using reading_shutdown [OF step less.prems(2)] less.prems by (auto simp: relay_inv_def)
    with less step conn_step_drains [OF step] conn_step_inv [OF step] conn_step_server [OF step]
    obtain r' where "(prompt_step K)\<^sup>*\<^sup>* r1 r'" "rl_conns r' = []" by metis
    with r1 show ?thesis by (metis converse_rtranclp_into_rtranclp)
  qed blast
qed

lemma reading_steps:
  assumes "(handler_step ^^ n) r r'" "relay_inv r" "sv_shuttingDown (rl_server r)"
  shows "reading r' \<subseteq> reading r"
  using assms(1)
proof (induction n arbitrary: r')
  case (Suc n)
  then obtain r1 es where r1: "(handler_step ^^ n) r r1" "conn_step r1 es r'"
    unfolding relpowp.simps OO_def handler_step_def [of _ r'] by blast
  with Suc.IH shutdown_steps [OF r1(1) assms(2,3)] reading_shutdown [OF r1(2)] show ?case
    unfolding relay_inv_def by blast
qed simp

text \<open>
  C22: The shutdown terminates. Once it has begun, whatever the order in which handlers run, they take
  at most four steps per open connection in total; as long as a connection is open some handler can
  move; and when the last one has finished the wait group is at zero, which is what the shutdown
  waits for. No client has to do anything for it: every handler that still reads has had its socket
  closed by the relay, so its read fails, and steps of this kind alone end all handlers.
\<close>

theorem shutdown_terminates:
  assumes "relay_run cr rep (start_relay m a d) es r" "sv_shuttingDown (rl_server r)" "(handler_step ^^ n) r r'"
  shows "n \<le> 4 * length (rl_conns r) \<and>
    (rl_conns r' \<noteq> [] \<longrightarrow> (\<exists>r2. handler_step r' r2)) \<and>
    (rl_conns r' = [] \<longrightarrow> sv_webSocketWG (rl_server r') = 0) \<and>
    (\<exists>r2. handler_step\<^sup>*\<^sup>* r' r2 \<and> rl_conns r2 = []) \<and>
    (\<forall>K. closing_run cr rep (start_relay m a d) es K r \<longrightarrow>
      (rl_conns r' \<noteq> [] \<longrightarrow> (\<exists>r2. prompt_step K r' r2)) \<and> (\<exists>r2. (prompt_step K)\<^sup>*\<^sup>* r' r2 \<and> rl_conns r2 = []))"
proof -
  have inv0: "relay_inv r" using relay_run_inv [OF assms(1) start_inv] .
  note st = shutdown_steps [OF assms(3) inv0 assms(2)]
  then have inv: "relay_inv r'" "sv_shuttingDown (rl_server r')" by blast+
  have "n \<le> 4 * length (rl_conns r)" using st drain_bound [of "rl_conns r"] by linarith
  moreover have "rl_conns r' = [] \<longrightarrow> sv_webSocketWG (rl_server r') = 0" using inv(1) by (simp add: relay_inv_def)
  moreover have "reading r' \<subseteq> K" if "closing_run cr rep (start_relay m a d) es K r" for K
  proof -
    have "reading (start_relay m a d) = {}" by (simp add: reading_def at_def start_relay_def)
    then have "reading r \<subseteq> registered (rl_server r) \<union> K" using closing_run_ok [OF that start_inv] by blast
    moreover have "registered (rl_server r) = {}"
      using inv0 assms(2) by (simp add: relay_inv_def registries_ok_def registered_def)
    ultimately show ?thesis using reading_steps [OF assms(3) inv0 assms(2)] by blast
  qed
  ultimately show ?thesis
    using conn_step_progress [OF inv] shutdown_reaches_end [OF inv] prompt_progress [OF inv] prompt_reaches_end [OF inv]
    unfolding handler_step_def by blast
qed

section \<open>Routes\<close>

text \<open>
  What the registries stand for: for every device binding, at most one host socket and one device
  socket. The operations on such a table of routes, by binding instead of by key.
\<close>

type_synonym routes = "string \<times> string \<times> string \<Rightarrow> web_socket option \<times> web_socket option"

definition is_host :: "web_socket \<Rightarrow> bool" where
  "is_host w \<longleftrightarrow> se_ConnectionType (wk_session w) = ConnectionHost"

definition slot :: "web_socket \<Rightarrow> routes \<Rightarrow> web_socket option" where
  "slot w R = (if is_host w then fst else snd) (R (socket_identity w))"

definition connected :: "web_socket \<Rightarrow> routes \<Rightarrow> bool" where
  "connected w R \<longleftrightarrow> map_option wk_id (slot w R) = Some (wk_id w)"

definition connect :: "web_socket \<Rightarrow> routes \<Rightarrow> routes" where
  "connect w R = R(socket_identity w := if is_host w then (Some w, None) else (fst (R (socket_identity w)), Some w))"

definition disconnect :: "web_socket \<Rightarrow> routes \<Rightarrow> routes" where
  "disconnect w R = (if connected w R then R(socket_identity w := (None, None)) else R)"

definition cut :: "string \<times> string \<times> string \<Rightarrow> routes \<Rightarrow> routes" where
  "cut k R = R(k := (None, None))"

definition partner :: "web_socket \<Rightarrow> routes \<Rightarrow> web_socket option" where
  "partner w R = (if connected w R then (if is_host w then snd else fst) (R (socket_identity w)) else None)"

definition routes_of :: "server \<Rightarrow> routes" where
  "routes_of s = (\<lambda>(t, h, v). (map_of (sv_hosts s) (deviceKey t h v), map_of (sv_devices s) (deviceKey t h v)))"

text \<open>Two tables agree on the bindings whose tenant and host identifiers have no slash.\<close>

definition agree :: "routes \<Rightarrow> routes \<Rightarrow> bool" where
  "agree R R' \<longleftrightarrow> (\<forall>t h v. no_slash t \<longrightarrow> no_slash h \<longrightarrow> R (t, h, v) = R' (t, h, v))"

lemma deviceKey_eq:
  assumes "no_slash t" "no_slash h" "no_slash t'" "no_slash h'"
  shows "deviceKey t h v = deviceKey t' h' v' \<longleftrightarrow> t = t' \<and> h = h' \<and> v = v'"
  using dkey.key_eq_iff [of "(t, h, v)" "(t', h', v')"] assms unfolding deviceKey_session prod.case by simp

lemma routes_delete:
  assumes "sv_hosts s' = map_delete (deviceKey t h v) (sv_hosts s)" "sv_devices s' = map_delete (deviceKey t h v) (sv_devices s)"
    and "no_slash t" "no_slash h"
  shows "agree (routes_of s') (cut (t, h, v) (routes_of s))"
  by (simp add: agree_def routes_of_def cut_def assms deviceKey_eq)

lemma routes_agree_refl [simp]: "agree R R"
  by (simp add: agree_def)

lemma connected_holds:
  "connected w (routes_of s) \<longleftrightarrow> holds (if is_host w then sv_hosts s else sv_devices s) (session_key w) w"
  by (auto simp: connected_def slot_def routes_of_def socket_identity_def session_key_def holds_def
      split: option.splits)

lemma add_refines:
  assumes "addSessionWithLifecycle tr flt w s = (True, cs, s')" "slash_free w"
  shows "agree (routes_of s') (connect w (routes_of s))"
proof -
  obtain t h v where id: "socket_identity w = (t, h, v)" "session_key w = deviceKey t h v" "no_slash t" "no_slash h"
    using assms(2) by (auto simp: socket_identity_def session_key_def slash_free_def)
  consider "is_host w" "sv_hosts s' = map_put (deviceKey t h v) w (sv_hosts s)" "sv_devices s' = map_delete (deviceKey t h v) (sv_devices s)"
    | "\<not> is_host w" "sv_hosts s' = sv_hosts s" "sv_devices s' = map_put (deviceKey t h v) w (sv_devices s)"
    using add_result [OF assms(1)] id(2) by (auto simp: is_host_def)
  then show ?thesis
    by cases (simp_all add: agree_def routes_of_def connect_def id deviceKey_eq)
qed

lemma remove_refines:
  assumes "removeSession w s = (cs, s')" "slash_free w" "is_host w \<or> se_ConnectionType (wk_session w) = ConnectionDevice"
  shows "agree (routes_of s') (disconnect w (routes_of s))"
proof (cases "connected w (routes_of s)")
  case True
  then have "sv_hosts s' = map_delete (session_key w) (sv_hosts s)" "sv_devices s' = map_delete (session_key w) (sv_devices s)"
    using assms(1,3) by (auto simp: connected_holds removeSession_def Let_def is_host_def split: if_splits)
  then have "agree (routes_of s') (cut (socket_identity w) (routes_of s))"
    using assms(2) routes_delete [of s' _ _ _ s] by (simp add: socket_identity_def session_key_def slash_free_def)
  with True show ?thesis by (simp add: disconnect_def cut_def)
next
  case False
  then have "s' = s" using assms(1,3) by (auto simp: connected_holds removeSession_def Let_def is_host_def split: if_splits)
  with False show ?thesis by (simp add: disconnect_def)
qed

lemma target_refines:
  assumes "validateSenderFrame (wk_session w) f = 0" "is_host w \<or> se_ConnectionType (wk_session w) = ConnectionDevice"
  shows "(case routeTarget w f s of Inl _ \<Rightarrow> None | Inr x \<Rightarrow> Some x) = partner w (routes_of s)"
proof -
  have key: "deviceKey (rf_TenantID f) (rf_HostID f) (rf_DeviceID f) = session_key w"
    and dir: "is_host w \<longleftrightarrow> rf_Direction f = DirectionWindowsToMobile"
    and ty: "is_host w \<longleftrightarrow> se_ConnectionType (wk_session w) \<noteq> ConnectionDevice"
    using assms by (auto simp: validateSenderFrame_def session_key_def is_host_def split: if_splits)
  have "partner w (routes_of s) = (if connected w (routes_of s) then
      map_of (if is_host w then sv_devices s else sv_hosts s) (session_key w) else None)"
    by (simp add: partner_def routes_of_def socket_identity_def session_key_def)
  then show ?thesis unfolding routeTarget_def Let_def key connected_holds using dir ty
    by (auto split: option.splits)
qed

text \<open>
  C26: The registries implement a table of routes, one pair of sockets per device binding: for
  identifiers without slashes, entering, leaving, revoking and shutting down act on the registries
  exactly as on that table, and a frame is routed to the partner the table gives, or the sender is
  closed when there is none.
\<close>

theorem registries_refine_routes:
  assumes "slash_free w" "is_host w \<or> se_ConnectionType (wk_session w) = ConnectionDevice"
    and "no_slash t" "no_slash h"
  shows "(\<forall>tr flt cs s'. addSessionWithLifecycle tr flt w s = (True, cs, s') \<longrightarrow>
        agree (routes_of s') (connect w (routes_of s))) \<and>
    (\<forall>cs s'. removeSession w s = (cs, s') \<longrightarrow> agree (routes_of s') (disconnect w (routes_of s))) \<and>
    (\<forall>flt u cs s'. revokeDevice flt t h v s = (Inr u, cs, s') \<longrightarrow> agree (routes_of s') (cut (t, h, v) (routes_of s))) \<and>
    (\<forall>cs s'. \<not> sv_shutdownOnce s \<longrightarrow> beginShutdown s = (cs, s') \<longrightarrow> routes_of s' = (\<lambda>_. (None, None))) \<and>
    (\<forall>f. validateSenderFrame (wk_session w) f = 0 \<longrightarrow>
       (case routeTarget w f s of Inl _ \<Rightarrow> None | Inr x \<Rightarrow> Some x) = partner w (routes_of s))"
proof -
  have "agree (routes_of s') (cut (t, h, v) (routes_of s))" if "revokeDevice flt t h v s = (Inr u, cs, s')" for flt u cs s'
    using revoke_result [OF that] assms(3,4) by (intro routes_delete) (simp_all add: is_Inr_def)
  moreover have "routes_of s' = (\<lambda>_. (None, None))" if "\<not> sv_shutdownOnce s" "beginShutdown s = (cs, s')" for cs s'
    using shutdown_result [OF that(2)] that(1) by (auto simp: routes_of_def fun_eq_iff)
  ultimately show ?thesis
    using add_refines [OF _ assms(1)] remove_refines [OF _ assms(1,2)] target_refines [OF _ assms(2)] by blast
qed

text \<open>
  C40: With slashes the keys collide. A host whose identifier has a slash and a device of another host
  can share a key: after the host's socket for one binding and the device's socket for the other have
  both entered, the host's valid frame is routed to the other host's device.
\<close>

theorem slash_identifiers_collide:
  assumes "socket_identity wh = (t, x @ ''/'' @ y, z)" "is_host wh"
    and "socket_identity wd = (t, x, y @ ''/'' @ z)" "se_ConnectionType (wk_session wd) = ConnectionDevice"
    and "addSession flt wh s = (True, cs, s1)" "addSession flt' wd s1 = (True, cs', s2)"
    and "validateSenderFrame (wk_session wh) f = 0"
  shows "routeTarget wh f s2 = Inr wd \<and> socket_identity wd \<noteq> socket_identity wh"
proof -
  have key: "session_key wh = session_key wd"
    using assms(1,3) by (auto simp: socket_identity_def session_key_def deviceKey_def)
  have "sv_hosts s2 = map_put (session_key wh) wh (sv_hosts s)" "map_of (sv_devices s2) (session_key wd) = Some wd"
    using add_result [OF assms(5) [unfolded addSession_def]] add_result [OF assms(6) [unfolded addSession_def]] assms(2,4)
    by (auto simp: is_host_def)
  moreover have "deviceKey (rf_TenantID f) (rf_HostID f) (rf_DeviceID f) = session_key wh"
    "rf_Direction f = DirectionWindowsToMobile"
    using assms(2,7) by (auto simp: validateSenderFrame_def session_key_def is_host_def split: if_splits)
  ultimately show ?thesis using assms(1-3) key
    by (auto simp: routeTarget_def Let_def holds_def is_host_def)
qed

end
