(* ===== verification/Handlers.thy ===== *)
theory Handlers
  imports Relay_Run
begin

text \<open>
  The HTTP API (\<open>internal/relay/auth_handlers.go\<close>, \<open>internal/relay/pairing_handlers.go\<close> and the request
  helpers of \<open>internal/relay/server.go\<close>): one function per handler, from a request and the server to
  the reply and the server after it. A body is what \<open>readJSON\<close> makes of it: too large, not the JSON of
  the expected type, or the decoded value. Clock readings, random bytes, the outcome of loading the
  identity and driver faults of the successive calls come from an environment.
\<close>

section \<open>Requests and replies\<close>

datatype json_value = JStr string | JInt int | JBool bool

record device_response =
  dr_TenantID :: string
  dr_HostID :: string
  dr_DeviceID :: string
  dr_DeviceSigningPublicKey :: string
  dr_DeviceAgreementPublicKey :: string
  dr_DeviceKeyVersion :: int
  dr_BindingVersion :: int
  dr_Revoked :: bool
  dr_ApprovedAt :: int
  dr_LastSeenAt :: "int option"
  dr_Online :: bool

datatype payload =
    ErrorPayload string
  | Members "(string \<times> json_value) list"
  | ChallengeReply signed_challenge
  | TicketReply ticket
  | CreatedReply created_claim
  | StatusReply claim_status_view
  | ClaimsReply "opaque_claim list"
  | DevicesReply "device_response list"

text \<open>A handler that panics sends no reply: \<open>net/http\<close> drops the connection.\<close>

datatype reply = Reply int payload | Panicked

datatype 'a body = TooLarge | NotJSON | Body 'a

record env =
  ev_load :: "signer result"
  ev_now :: "nat \<Rightarrow> int"
  ev_rand :: "nat \<Rightarrow> rand"
  ev_flt :: "nat \<Rightarrow> faults"

definition fail_with :: "int \<Rightarrow> string \<Rightarrow> reply" where
  "fail_with status code = Reply status (ErrorPayload code)"

definition readJSON :: "'a body \<Rightarrow> reply + 'a" where
  "readJSON b = (case b of
      TooLarge \<Rightarrow> Inl (fail_with 413 ''request_too_large'')
    | NotJSON \<Rightarrow> Inl (fail_with 400 ''invalid_json'')
    | Body x \<Rightarrow> Inr x)"

definition requireMethod :: "request \<Rightarrow> string \<Rightarrow> reply option" where
  "requireMethod r m = (if rq_Method r = m then None else Some (fail_with 405 ''method_not_allowed''))"

section \<open>Error codes\<close>

definition pairing_codes :: "string list" where
  "pairing_codes = [''invalid_invite'', ''host_not_found'', ''invite_exists'', ''invite_not_found'',
     ''invite_not_pending'', ''invalid_claim'', ''claim_exists'', ''claim_not_found'', ''claim_not_pending'',
     ''invalid_device_identity'', ''invalid_approval'', ''approval_conflict'', ''device_binding_conflict'',
     ''device_not_found'', ''device_revoked'', ''unauthorized'']"

definition safePairingErrorCode :: "string option \<Rightarrow> string" where
  "safePairingErrorCode err = (case err of
      None \<Rightarrow> ''internal_error''
    | Some e \<Rightarrow> if TrimSpace e \<in> set pairing_codes then TrimSpace e else ''internal_error'')"

definition writePairingError :: "string \<Rightarrow> reply" where
  "writePairingError err =
     (let code = safePairingErrorCode (Some err) in
      fail_with
       (if code = ''unauthorized'' then 401
        else if code \<in> set [''invite_not_found'', ''claim_not_found'', ''device_not_found''] then 404
        else if code \<in> set [''invite_exists'', ''invite_not_pending'', ''claim_exists'', ''claim_not_pending'',
                ''approval_conflict'', ''device_binding_conflict''] then 409
        else if code = ''internal_error'' then 500
        else 400) code)"

definition auth_codes :: "string list" where
  "auth_codes = [''auth_unavailable'', ''invalid_host_enrollment'', ''invalid_host_identity'',
     ''tenant_not_found'', ''host_identity_conflict_reset_required'', ''invalid_scope'', ''invalid_purpose'',
     ''invalid_subject_type'', ''subject_not_found'', ''invalid_proof'', ''invalid_challenge'',
     ''challenge_expired'', ''challenge_consumed'', ''invalid_ticket'']"

definition safeAuthErrorCode :: "string option \<Rightarrow> string" where
  "safeAuthErrorCode err = (case err of
      None \<Rightarrow> ''internal_error''
    | Some e \<Rightarrow> if TrimSpace e \<in> set auth_codes then TrimSpace e else ''internal_error'')"

definition authErrorStatus :: "string \<Rightarrow> int" where
  "authErrorStatus err =
     (let code = safeAuthErrorCode (Some err) in
      if code = ''auth_unavailable'' then 503
      else if code \<in> set [''subject_not_found'', ''invalid_proof'', ''invalid_challenge'', ''challenge_expired'',
              ''challenge_consumed'', ''invalid_ticket''] then 401
      else 400)"

section \<open>Authorization\<close>

text \<open>\<open>None\<close> when the request is authorized, and the reply that refuses it otherwise.\<close>

definition authorizeTenant :: "crypto \<Rightarrow> faults \<Rightarrow> request \<Rightarrow> string \<Rightarrow> server \<Rightarrow> reply option" where
  "authorizeTenant cr flt r tenantID s =
     (if \<not> sv_store s then Some (fail_with 503 ''store_required'')
      else case bearerToken (rq_Authorization r) of None \<Rightarrow> Some (fail_with 401 ''unauthorized'') | Some token \<Rightarrow>
      case fst (GetTenant flt tenantID (sv_db s)) of
        Inl _ \<Rightarrow> Some (fail_with 401 ''unauthorized'')
      | Inr item \<Rightarrow>
          if \<not> Enabled item \<or> \<not> VerifySecretHash cr (SecretHash item) token
          then Some (fail_with 401 ''unauthorized'') else None)"

definition authorizeTicket ::
  "crypto \<Rightarrow> signer result \<Rightarrow> int \<Rightarrow> faults \<Rightarrow> request \<Rightarrow> ticket_scope \<Rightarrow> server \<Rightarrow> reply option \<times> server" where
  "authorizeTicket cr load now flt r sc s =
     (case bearerToken (rq_Authorization r) of None \<Rightarrow> (Some (fail_with 401 ''unauthorized''), s) | Some token \<Rightarrow>
      case ensureAuth load s of (err, s1) \<Rightarrow>
      if err \<noteq> None \<or> sv_authService s1 = None then (Some (fail_with 503 ''auth_unavailable''), s1)
      else case on_store (ConsumeTicket cr (sv_authService s1) now flt token sc) s1 of
        (Inl _, s2) \<Rightarrow> (Some (fail_with 401 ''unauthorized''), s2)
      | (Inr _, s2) \<Rightarrow> (None, s2))"

definition host_scope :: "string \<Rightarrow> string \<Rightarrow> string \<Rightarrow> string \<Rightarrow> ticket_scope" where
  "host_scope tenantID hostID deviceID purpose =
     \<lparr>ts_SubjectType = ''host'', ts_SubjectID = hostID, ts_TenantID = tenantID, ts_HostID = hostID,
      ts_DeviceID = deviceID, ts_Purpose = purpose\<rparr>"

text \<open>The reply to a pairing service call, and what follows an authorized request.\<close>

definition reply_pairing :: "('a \<Rightarrow> payload) \<Rightarrow> 'a result \<Rightarrow> reply" where
  "reply_pairing f res = (case res of Inl e \<Rightarrow> writePairingError e | Inr x \<Rightarrow> Reply 200 (f x))"

definition with_ticket ::
  "crypto \<Rightarrow> env \<Rightarrow> request \<Rightarrow> ticket_scope \<Rightarrow> (server \<Rightarrow> reply \<times> closing list \<times> server) \<Rightarrow>
   server \<Rightarrow> reply \<times> closing list \<times> server" where
  "with_ticket cr ev r sc k s =
     (case authorizeTicket cr (ev_load ev) (ev_now ev 0) (ev_flt ev 0) r sc s of
        (Some refusal, s1) \<Rightarrow> (refusal, [], s1)
      | (None, s1) \<Rightarrow> k s1)"

definition pairing_call :: "('a \<Rightarrow> payload) \<Rightarrow> (db, 'a) tx \<Rightarrow> server \<Rightarrow> reply \<times> closing list \<times> server" where
  "pairing_call f m s = (case on_store m s of (res, s') \<Rightarrow> (reply_pairing f res, [], s'))"

text \<open>Without a store the checks before the first database access are made, and then the code panics.\<close>

definition without_store :: "'a result \<Rightarrow> server \<Rightarrow> reply \<times> closing list \<times> server" where
  "without_store checks s = (case checks of Inl e \<Rightarrow> (writePairingError e, [], s) | Inr _ \<Rightarrow> (Panicked, [], s))"

section \<open>Health, metadata and authentication\<close>

definition handleHealth :: "server \<Rightarrow> reply \<times> closing list \<times> server" where
  "handleHealth s = (Reply 200 (Members [(''status'', JStr ''ok'')]), [], s)"

definition handleMetadata :: "crypto \<Rightarrow> env \<Rightarrow> request \<Rightarrow> server \<Rightarrow> reply \<times> closing list \<times> server" where
  "handleMetadata cr ev r s =
     (case requireMethod r ''GET'' of Some refusal \<Rightarrow> (refusal, [], s) | None \<Rightarrow>
      case ensureAuth (ev_load ev) s of (err, s1) \<Rightarrow>
      if err \<noteq> None then (fail_with 503 ''auth_unavailable'', [], s1)
      else case sv_identity s1 of
        None \<Rightarrow> (Panicked, [], s1)
      | Some sg \<Rightarrow>
          let identity = Public cr sg in
          (Reply 200 (Members
             [(''protocolVersion'', JInt ProtocolVersion),
              (''signingPublicKey'', JStr (PublicKeyBase64URL identity)),
              (''signingKeyFingerprint'', JStr (FingerprintBase64URL identity)),
              (''serverTime'', JInt (UnixMilli (ev_now ev 0))),
              (''maxRequestBytes'', JInt (EffectiveMessageBytes (sv_MaxMessageBytes s1))),
              (''maxMessageBytes'', JInt (EffectiveMessageBytes (sv_MaxMessageBytes s1)))]), [], s1))"

definition handleEnrollHost ::
  "crypto \<Rightarrow> env \<Rightarrow> request \<Rightarrow> enrollment body \<Rightarrow> server \<Rightarrow> reply \<times> closing list \<times> server" where
  "handleEnrollHost cr ev r b s =
     (case requireMethod r ''POST'' of Some refusal \<Rightarrow> (refusal, [], s) | None \<Rightarrow>
      case readJSON b of Inl refusal \<Rightarrow> (refusal, [], s) | Inr request \<Rightarrow>
      case authorizeTenant cr (ev_flt ev 0) r (en_TenantID request) s of Some refusal \<Rightarrow> (refusal, [], s) | None \<Rightarrow>
      case on_store (EnrollHost (ev_now ev 0) (ev_flt ev 1) request) s of
        (Inl e, s1) \<Rightarrow> (fail_with (if e = ''host_identity_conflict_reset_required'' then 409 else 400)
            (safeAuthErrorCode (Some e)), [], s1)
      | (Inr enrolled, s1) \<Rightarrow>
          (Reply 200 (Members [(''tenantId'', JStr (ht_TenantID enrolled)), (''hostId'', JStr (ht_HostID enrolled)),
             (''keyVersion'', JInt (ht_KeyVersion enrolled))]), [], s1))"

definition handleCreateChallenge ::
  "crypto \<Rightarrow> env \<Rightarrow> request \<Rightarrow> ticket_scope body \<Rightarrow> server \<Rightarrow> reply \<times> closing list \<times> server" where
  "handleCreateChallenge cr ev r b s =
     (case requireMethod r ''POST'' of Some refusal \<Rightarrow> (refusal, [], s) | None \<Rightarrow>
      case allowChallenge (ev_now ev 0) r s of (ok, s1) \<Rightarrow>
      if \<not> ok then (fail_with 429 ''rate_limited'', [], s1)
      else case readJSON b of Inl refusal \<Rightarrow> (refusal, [], s1) | Inr request \<Rightarrow>
      case ensureAuth (ev_load ev) s1 of (err, s2) \<Rightarrow>
      if err \<noteq> None \<or> sv_authService s2 = None then (fail_with 503 ''auth_unavailable'', [], s2)
      else case on_store (CreateChallenge cr (sv_authService s2) (ev_rand ev 0) (ev_rand ev 1) (ev_now ev 1)
              (ev_flt ev 0) request) s2 of
        (Inl e, s3) \<Rightarrow> (fail_with (authErrorStatus e) (safeAuthErrorCode (Some e)), [], s3)
      | (Inr challenge, s3) \<Rightarrow> (Reply 200 (ChallengeReply challenge), [], s3))"

definition handleProve ::
  "crypto \<Rightarrow> env \<Rightarrow> request \<Rightarrow> proof_request body \<Rightarrow> server \<Rightarrow> reply \<times> closing list \<times> server" where
  "handleProve cr ev r b s =
     (case requireMethod r ''POST'' of Some refusal \<Rightarrow> (refusal, [], s) | None \<Rightarrow>
      case readJSON b of Inl refusal \<Rightarrow> (refusal, [], s) | Inr request \<Rightarrow>
      case ensureAuth (ev_load ev) s of (err, s1) \<Rightarrow>
      if err \<noteq> None \<or> sv_authService s1 = None then (fail_with 503 ''auth_unavailable'', [], s1)
      else case on_store (Prove cr (sv_authService s1) (ev_rand ev 0) (ev_now ev 0) (ev_flt ev 0) request) s1 of
        (Inl e, s2) \<Rightarrow> (fail_with (authErrorStatus e) (safeAuthErrorCode (Some e)), [], s2)
      | (Inr tk, s2) \<Rightarrow> (Reply 200 (TicketReply tk), [], s2))"

section \<open>Pairing\<close>

record invite_request =
  ir_TenantID :: string
  ir_HostID :: string
  ir_InviteID :: string
  ir_ExpiresAt :: int

definition handleCreateInvite ::
  "crypto \<Rightarrow> env \<Rightarrow> request \<Rightarrow> invite_request body \<Rightarrow> server \<Rightarrow> reply \<times> closing list \<times> server" where
  "handleCreateInvite cr ev r b s =
     (case readJSON b of Inl refusal \<Rightarrow> (refusal, [], s) | Inr q \<Rightarrow>
      with_ticket cr ev r (host_scope (ir_TenantID q) (ir_HostID q) [] ''pairing_invite_create'')
       (pairing_call
          (\<lambda>_. Members [(''tenantId'', JStr (ir_TenantID q)), (''hostId'', JStr (ir_HostID q)),
             (''inviteId'', JStr (ir_InviteID q)), (''status'', JStr ClaimPending), (''expiresAt'', JInt (ir_ExpiresAt q))])
          (CreateInvite (ev_now ev 1) (ev_flt ev 1) (ir_TenantID q) (ir_HostID q) (ir_InviteID q)
             (from_UnixMilli (ir_ExpiresAt q)))) s)"

definition handleCancelInvite :: "crypto \<Rightarrow> env \<Rightarrow> request \<Rightarrow> server \<Rightarrow> reply \<times> closing list \<times> server" where
  "handleCancelInvite cr ev r s =
     (let tenantID = query_get (rq_Query r) ''tenantId''; hostID = query_get (rq_Query r) ''hostId'';
          inviteID = PathValue r ''inviteId'' in
      with_ticket cr ev r (host_scope tenantID hostID [] ''pairing_invite_cancel'')
       (pairing_call (\<lambda>_. Members [(''inviteId'', JStr inviteID), (''status'', JStr ClaimCancelled)])
          (CancelInvite (ev_now ev 1) (ev_flt ev 1) tenantID hostID inviteID)) s)"

definition handleSubmitClaim ::
  "crypto \<Rightarrow> env \<Rightarrow> submit_claim_request body \<Rightarrow> server \<Rightarrow> reply \<times> closing list \<times> server" where
  "handleSubmitClaim cr ev b s =
     (case readJSON b of Inl refusal \<Rightarrow> (refusal, [], s) | Inr request \<Rightarrow>
      if \<not> sv_store s then
        without_store (res_bind (validateClaimSubmission request) (\<lambda>_.
          res_bind (res_check (int (length (marshal_header (sr_Header request))) \<le> maxOpaqueHeaderBytes) ''invalid_claim'') (\<lambda>_.
          res_check (ev_rand ev 0 claimAccessTokenBytes \<noteq> None) ''internal_error''))) s
      else pairing_call CreatedReply (SubmitClaim cr (ev_rand ev 0) (ev_now ev 0) (ev_flt ev 0) request) s)"

definition handleGetClaim :: "crypto \<Rightarrow> env \<Rightarrow> request \<Rightarrow> server \<Rightarrow> reply \<times> closing list \<times> server" where
  "handleGetClaim cr ev r s =
     (case bearerToken (rq_Authorization r) of None \<Rightarrow> (fail_with 401 ''unauthorized'', [], s) | Some token \<Rightarrow>
      if \<not> sv_store s then without_store (hashAccessToken cr token) s
      else pairing_call StatusReply (GetClaimWithToken cr (ev_now ev 0) (ev_flt ev 0) (PathValue r ''claimId'') token) s)"

definition handleCancelClaim :: "crypto \<Rightarrow> env \<Rightarrow> request \<Rightarrow> server \<Rightarrow> reply \<times> closing list \<times> server" where
  "handleCancelClaim cr ev r s =
     (case bearerToken (rq_Authorization r) of None \<Rightarrow> (fail_with 401 ''unauthorized'', [], s) | Some token \<Rightarrow>
      let claimID = PathValue r ''claimId'' in
      if \<not> sv_store s then without_store (hashAccessToken cr token) s
      else pairing_call (\<lambda>_. Members [(''claimId'', JStr claimID), (''status'', JStr ClaimCancelled)])
        (CancelClaim cr (ev_now ev 0) (ev_flt ev 0) claimID token) s)"

definition handleListPairingClaims :: "crypto \<Rightarrow> env \<Rightarrow> request \<Rightarrow> server \<Rightarrow> reply \<times> closing list \<times> server" where
  "handleListPairingClaims cr ev r s =
     (let tenantID = query_get (rq_Query r) ''tenantId''; hostID = PathValue r ''hostId'' in
      with_ticket cr ev r (host_scope tenantID hostID [] ''pairing_claim_list'')
       (pairing_call ClaimsReply (ListPendingClaims (ev_now ev 1) (ev_flt ev 1) tenantID hostID)) s)"

definition claim_decision ::
  "crypto \<Rightarrow> env \<Rightarrow> request \<Rightarrow> string \<Rightarrow> (server \<Rightarrow> reply \<times> closing list \<times> server) \<Rightarrow>
   server \<Rightarrow> reply \<times> closing list \<times> server" where
  "claim_decision cr ev r purpose k s =
     (let tenantID = query_get (rq_Query r) ''tenantId''; hostID = PathValue r ''hostId'';
          claimID = PathValue r ''claimId'' in
      if \<not> sv_store s then (Panicked, [], s)
      else case fst (ClaimDeviceID (ev_flt ev 2) tenantID hostID claimID (sv_db s)) of
        Inl _ \<Rightarrow> (fail_with 401 ''unauthorized'', [], s)
      | Inr deviceID \<Rightarrow> with_ticket cr ev r (host_scope tenantID hostID deviceID purpose) k s)"

definition handleApprovePairingClaim ::
  "crypto \<Rightarrow> env \<Rightarrow> request \<Rightarrow> approve_claim_request body \<Rightarrow> server \<Rightarrow> reply \<times> closing list \<times> server" where
  "handleApprovePairingClaim cr ev r b s =
     (let tenantID = query_get (rq_Query r) ''tenantId''; hostID = PathValue r ''hostId'';
          claimID = PathValue r ''claimId'' in
      case readJSON b of Inl refusal \<Rightarrow> (refusal, [], s) | Inr request \<Rightarrow>
      claim_decision cr ev r ''pairing_claim_approve''
       (pairing_call (\<lambda>_. Members [(''claimId'', JStr claimID), (''status'', JStr ClaimApproved)])
          (ApproveClaim cr (ev_now ev 1) (ev_flt ev 1)
             (request\<lparr>ar_TenantID := tenantID, ar_HostID := hostID, ar_ClaimID := claimID\<rparr>))) s)"

definition handleRejectPairingClaim :: "crypto \<Rightarrow> env \<Rightarrow> request \<Rightarrow> server \<Rightarrow> reply \<times> closing list \<times> server" where
  "handleRejectPairingClaim cr ev r s =
     (let tenantID = query_get (rq_Query r) ''tenantId''; hostID = PathValue r ''hostId'';
          claimID = PathValue r ''claimId'' in
      claim_decision cr ev r ''pairing_claim_reject''
       (pairing_call (\<lambda>_. Members [(''claimId'', JStr claimID), (''status'', JStr ClaimRejected)])
          (RejectClaim (ev_now ev 1) (ev_flt ev 1) tenantID hostID claimID)) s)"

definition device_response_of :: "server \<Rightarrow> device \<Rightarrow> device_response" where
  "device_response_of s v =
     \<lparr>dr_TenantID = de_TenantID v, dr_HostID = de_HostID v, dr_DeviceID = de_DeviceID v,
      dr_DeviceSigningPublicKey = de_SigningPublicKey v, dr_DeviceAgreementPublicKey = de_AgreementPublicKey v,
      dr_DeviceKeyVersion = de_KeyVersion v, dr_BindingVersion = de_BindingVersion v, dr_Revoked = de_Revoked v,
      dr_ApprovedAt = UnixMilli (de_ApprovedAt v), dr_LastSeenAt = map_option UnixMilli (de_LastSeenAt v),
      dr_Online = isDeviceOnline (de_TenantID v) (de_HostID v) (de_DeviceID v) s\<rparr>"

definition handleListDevices :: "crypto \<Rightarrow> env \<Rightarrow> request \<Rightarrow> server \<Rightarrow> reply \<times> closing list \<times> server" where
  "handleListDevices cr ev r s =
     (let tenantID = query_get (rq_Query r) ''tenantId''; hostID = PathValue r ''hostId'' in
      with_ticket cr ev r (host_scope tenantID hostID [] ''device_list'')
       (\<lambda>s1. pairing_call (\<lambda>ds. DevicesReply (map (device_response_of s1) ds))
          (ListDevices (ev_flt ev 1) tenantID hostID) s1) s)"

definition handleRevokeDevice :: "crypto \<Rightarrow> env \<Rightarrow> request \<Rightarrow> server \<Rightarrow> reply \<times> closing list \<times> server" where
  "handleRevokeDevice cr ev r s =
     (let tenantID = query_get (rq_Query r) ''tenantId''; hostID = PathValue r ''hostId'';
          deviceID = PathValue r ''deviceId'' in
      with_ticket cr ev r (host_scope tenantID hostID deviceID ''device_revoke'')
       (\<lambda>s1. case revokeDevice (ev_flt ev 1) tenantID hostID deviceID s1 of (res, cs, s2) \<Rightarrow>
          (reply_pairing (\<lambda>_. Members [(''tenantId'', JStr tenantID), (''hostId'', JStr hostID),
             (''deviceId'', JStr deviceID), (''revoked'', JBool True)]) res, cs, s2)) s)"

section \<open>The routes of the API\<close>

datatype api =
    Health
  | Metadata
  | Enroll "enrollment body"
  | Challenge "ticket_scope body"
  | Proof "proof_request body"
  | NewInvite "invite_request body"
  | DropInvite
  | NewClaim "submit_claim_request body"
  | ReadClaim
  | DropClaim
  | PendingClaims
  | Approve "approve_claim_request body"
  | Reject
  | Devices
  | Revoke

fun serve_api :: "crypto \<Rightarrow> env \<Rightarrow> api \<Rightarrow> request \<Rightarrow> server \<Rightarrow> reply \<times> closing list \<times> server" where
  "serve_api cr ev Health r s = handleHealth s"
| "serve_api cr ev Metadata r s = handleMetadata cr ev r s"
| "serve_api cr ev (Enroll b) r s = handleEnrollHost cr ev r b s"
| "serve_api cr ev (Challenge b) r s = handleCreateChallenge cr ev r b s"
| "serve_api cr ev (Proof b) r s = handleProve cr ev r b s"
| "serve_api cr ev (NewInvite b) r s = handleCreateInvite cr ev r b s"
| "serve_api cr ev DropInvite r s = handleCancelInvite cr ev r s"
| "serve_api cr ev (NewClaim b) r s = handleSubmitClaim cr ev b s"
| "serve_api cr ev ReadClaim r s = handleGetClaim cr ev r s"
| "serve_api cr ev DropClaim r s = handleCancelClaim cr ev r s"
| "serve_api cr ev PendingClaims r s = handleListPairingClaims cr ev r s"
| "serve_api cr ev (Approve b) r s = handleApprovePairingClaim cr ev r b s"
| "serve_api cr ev Reject r s = handleRejectPairingClaim cr ev r s"
| "serve_api cr ev Devices r s = handleListDevices cr ev r s"
| "serve_api cr ev Revoke r s = handleRevokeDevice cr ev r s"

section \<open>Replies\<close>

definition other_codes :: "string list" where
  "other_codes = [''internal_error'', ''unauthorized'', ''store_required'', ''method_not_allowed'',
     ''request_too_large'', ''invalid_json'', ''auth_unavailable'', ''rate_limited'']"

definition public_codes :: "string set" where
  "public_codes = set pairing_codes \<union> set auth_codes \<union> set other_codes"

fun reply_ok :: "reply \<Rightarrow> bool" where
  "reply_ok (Reply st (ErrorPayload c)) \<longleftrightarrow> 400 \<le> st \<and> st < 600 \<and> c \<in> public_codes"
| "reply_ok (Reply st p) \<longleftrightarrow> st = 200"
| "reply_ok Panicked \<longleftrightarrow> False"

lemma safe_code_public:
  "safePairingErrorCode e \<in> public_codes" "safeAuthErrorCode e \<in> public_codes"
  by (auto simp: safePairingErrorCode_def safeAuthErrorCode_def public_codes_def other_codes_def split: option.splits)

lemma fail_ok: "400 \<le> st \<Longrightarrow> st < 600 \<Longrightarrow> c \<in> public_codes \<Longrightarrow> reply_ok (fail_with st c)"
  by (simp add: fail_with_def)

lemma other_public: "c \<in> set other_codes \<Longrightarrow> c \<in> public_codes"
  by (simp add: public_codes_def)

lemma fixed_replies_ok [simp]:
  "reply_ok (fail_with 401 ''unauthorized'')" "reply_ok (fail_with 503 ''store_required'')"
  "reply_ok (fail_with 405 ''method_not_allowed'')" "reply_ok (fail_with 413 ''request_too_large'')"
  "reply_ok (fail_with 400 ''invalid_json'')" "reply_ok (fail_with 503 ''auth_unavailable'')"
  "reply_ok (fail_with 429 ''rate_limited'')"
  by (rule fail_ok, simp, simp, rule other_public, simp add: other_codes_def)+

lemma pairing_error_ok [simp]: "reply_ok (writePairingError e)"
  unfolding writePairingError_def Let_def by (rule fail_ok) (simp_all add: safe_code_public del: set_simps)

lemma auth_error_ok [simp]: "reply_ok (fail_with (authErrorStatus e) (safeAuthErrorCode (Some e)))"
  by (rule fail_ok) (simp_all add: safe_code_public authErrorStatus_def Let_def del: set_simps)

lemma enroll_error_ok [simp]: "reply_ok (fail_with (if b then 409 else 400) (safeAuthErrorCode (Some e)))"
  by (rule fail_ok) (simp_all add: safe_code_public)

text \<open>A payload that is not an error comes with status 200.\<close>

definition is_error :: "payload \<Rightarrow> bool" where
  "is_error p = (case p of ErrorPayload _ \<Rightarrow> True | _ \<Rightarrow> False)"

lemma success_ok: "\<not> is_error p \<Longrightarrow> reply_ok (Reply 200 p)"
  by (cases p) (simp_all add: is_error_def)

lemma reply_pairing_ok: "(\<And>x. \<not> is_error (f x)) \<Longrightarrow> reply_ok (reply_pairing f res)"
  by (auto simp: reply_pairing_def success_ok split: sum.splits)

lemma pairing_call_ok: "(\<And>x. \<not> is_error (f x)) \<Longrightarrow> reply_ok (fst (pairing_call f m s))"
  by (simp add: pairing_call_def reply_pairing_ok split: prod.splits)

lemma readJSON_ok: "readJSON b = Inl refusal \<Longrightarrow> reply_ok refusal"
  by (auto simp: readJSON_def split: body.splits)

lemma requireMethod_ok: "requireMethod r m = Some refusal \<Longrightarrow> reply_ok refusal"
  by (auto simp: requireMethod_def split: if_splits)

lemma authorizeTenant_ok: "authorizeTenant cr flt r t s = Some refusal \<Longrightarrow> reply_ok refusal"
  by (auto simp: authorizeTenant_def split: if_splits option.splits sum.splits)

lemma authorizeTicket_ok: "authorizeTicket cr load now flt r sc s = (Some refusal, s') \<Longrightarrow> reply_ok refusal"
  by (auto simp: authorizeTicket_def split: if_splits option.splits sum.splits prod.splits)

lemma with_ticket_ok: "(\<And>s. reply_ok (fst (k s))) \<Longrightarrow> reply_ok (fst (with_ticket cr ev r sc k s))"
  by (auto simp: with_ticket_def split: prod.splits option.splits dest: authorizeTicket_ok)

lemma claim_decision_ok:
  "sv_store s \<Longrightarrow> (\<And>s. reply_ok (fst (k s))) \<Longrightarrow> reply_ok (fst (claim_decision cr ev r p k s))"
  by (auto simp: claim_decision_def Let_def with_ticket_ok split: sum.splits)

text \<open>An identity that loaded without error is there.\<close>

definition auth_loaded :: "server \<Rightarrow> bool" where
  "auth_loaded s \<longleftrightarrow> (sv_authOnce s \<longrightarrow> sv_authErr s = None \<longrightarrow> sv_identity s \<noteq> None)"

lemma ensureAuth_loaded:
  "ensureAuth load s = (err, s') \<Longrightarrow> auth_loaded s \<Longrightarrow> auth_loaded s' \<and> (err = None \<longrightarrow> sv_identity s' \<noteq> None)"
  by (auto simp: ensureAuth_def auth_loaded_def Let_def split: if_splits sum.splits)

lemmas handler_replies = pairing_call_ok with_ticket_ok claim_decision_ok readJSON_ok requireMethod_ok
  authorizeTenant_ok success_ok is_error_def

text \<open>
  C31: Replies are well formed and give nothing away. With a store, whatever is requested, in whatever
  order, with whatever faults, every handler replies: with status 200 and a result, or with an error
  status and a code of the fixed public list, never with the text of an internal error.
\<close>

theorem api_replies_public:
  assumes "sv_store s" "auth_loaded s"
  shows "reply_ok (fst (serve_api cr ev a r s))"
proof (cases a)
  case Metadata
  have "reply_ok (fst (handleMetadata cr ev r s))"
    using assms(2) unfolding handleMetadata_def Let_def
    by (auto simp: handler_replies split: option.splits prod.splits dest!: ensureAuth_loaded)
  with Metadata show ?thesis by simp
next
  case (Enroll b)
  have "reply_ok (fst (handleEnrollHost cr ev r b s))"
    unfolding handleEnrollHost_def by (auto simp: handler_replies split: option.splits sum.splits prod.splits)
  with Enroll show ?thesis by simp
next
  case (Challenge b)
  have "reply_ok (fst (handleCreateChallenge cr ev r b s))"
    unfolding handleCreateChallenge_def by (auto simp: handler_replies split: option.splits sum.splits prod.splits)
  with Challenge show ?thesis by simp
next
  case (Proof b)
  have "reply_ok (fst (handleProve cr ev r b s))"
    unfolding handleProve_def by (auto simp: handler_replies split: option.splits sum.splits prod.splits)
  with Proof show ?thesis by simp
next
  case Revoke
  have "reply_ok (fst (handleRevokeDevice cr ev r s))"
    unfolding handleRevokeDevice_def Let_def
    by (rule with_ticket_ok) (auto simp: reply_pairing_ok is_error_def split: prod.splits)
  with Revoke show ?thesis by simp
next
  case Devices
  have "reply_ok (fst (handleListDevices cr ev r s))"
    unfolding handleListDevices_def Let_def by (rule with_ticket_ok) (auto simp: pairing_call_ok is_error_def)
  with Devices show ?thesis by simp
qed (use assms in \<open>auto simp: handler_replies handleHealth_def handleCreateInvite_def handleCancelInvite_def
      handleSubmitClaim_def handleGetClaim_def handleCancelClaim_def handleListPairingClaims_def
      handleApprovePairingClaim_def handleRejectPairingClaim_def Let_def split: option.splits sum.splits\<close>)

end
