(* ===== verification/Handlers_Run.thy ===== *)
theory Handlers_Run
  imports Handlers
begin

text \<open>
  The API within runs of the relay: every handler is a sequence of the steps runs are made of, so all
  that holds of runs holds while the API is used; host operations need a ticket for exactly that
  operation; and a ticket opens at most one socket.
\<close>

section \<open>Handlers are steps of the relay\<close>

lemma relay_run_trans: "relay_run cr rep r1 fs r2 \<Longrightarrow> relay_run cr rep r es r1 \<Longrightarrow> relay_run cr rep r (es @ fs) r2"
  by (induction rule: relay_run.induct) (auto simp: append_assoc [symmetric] simp del: append_assoc intro: relay_run.step)

lemma relay_run_one: "relay_step cr rep r es r' \<Longrightarrow> relay_run cr rep r es r'"
  using relay_run.step [OF relay_run.start] by fastforce

definition api_moves :: "crypto \<Rightarrow> bool \<Rightarrow> server \<Rightarrow> closing list \<Rightarrow> server \<Rightarrow> bool" where
  "api_moves cr rep s cs s' \<longleftrightarrow> (\<forall>r. rl_server r = s \<longrightarrow> relay_run cr rep r (map Close cs) (serving s' r))"

lemma serving_simps [simp]: "rl_server (serving s r) = s" "serving s2 (serving s1 r) = serving s2 r" "serving (rl_server r) r = r"
  by (simp_all add: serving_def)

lemma moves_refl [intro, simp]: "api_moves cr rep s [] s"
  by (auto simp: api_moves_def intro: relay_run.start)

lemma moves_trans:
  assumes "api_moves cr rep s cs s1" "api_moves cr rep s1 cs' s2" shows "api_moves cr rep s (cs @ cs') s2"
  unfolding api_moves_def
proof (intro allI impI)
  fix r :: relay assume "rl_server r = s"
  with assms(1) have "relay_run cr rep r (map Close cs) (serving s1 r)" by (simp add: api_moves_def)
  moreover have "relay_run cr rep (serving s1 r) (map Close cs') (serving s2 (serving s1 r))"
    using assms(2) unfolding api_moves_def by (metis serving_simps(1))
  ultimately show "relay_run cr rep r (map Close (cs @ cs')) (serving s2 r)"
    using relay_run_trans by fastforce
qed

lemma moves_then: "api_moves cr rep s [] s1 \<Longrightarrow> api_moves cr rep s1 cs s2 \<Longrightarrow> api_moves cr rep s cs s2"
  using moves_trans [of cr rep s "[]" s1 cs s2] by simp

lemma moves_auth: "ensureAuth load s = (e, s') \<Longrightarrow> api_moves cr rep s [] s'"
  by (auto simp: api_moves_def intro: relay_run_one relay_step.auth)

lemma moves_limit: "allowChallenge now rq s = (ok, s') \<Longrightarrow> api_moves cr rep s [] s'"
  by (auto simp: api_moves_def intro: relay_run_one relay_step.limit)

lemma moves_store:
  assumes "on_store m s = (res, s')" "\<And>d x d'. m d = (x, d') \<Longrightarrow> service_call cr d d'"
  shows "api_moves cr rep s [] s'"
proof -
  obtain d' where d': "m (sv_db s) = (res, d')" "s' = s\<lparr>sv_db := d'\<rparr>"
    using assms(1) by (auto simp: on_store_def split: prod.splits)
  then show ?thesis using assms(2)
    by (auto simp: api_moves_def intro!: relay_run_one relay_step.service)
qed

lemma moves_revoke:
  "revokeDevice flt t h v s = (res, cs, s') \<Longrightarrow> (rep \<longrightarrow> \<not> flt 1) \<Longrightarrow> api_moves cr rep s cs s'"
  by (auto simp: api_moves_def intro!: relay_run_one relay_step.revoke)

text \<open>The pieces handlers are made of.\<close>

lemma moves_ticket: "authorizeTicket cr load now flt r sc s = (x, s') \<Longrightarrow> api_moves cr rep s [] s'"
  unfolding authorizeTicket_def
  by (auto split: option.splits prod.splits if_splits sum.splits
      intro: moves_auth moves_then [OF moves_auth moves_store] service_call.consume_ticket)

lemma moves_with_ticket:
  assumes "with_ticket cr ev r sc k s = (x, cs, s')" "\<And>s1 x cs s'. k s1 = (x, cs, s') \<Longrightarrow> api_moves cr rep s1 cs s'"
  shows "api_moves cr rep s cs s'"
  using assms(1) unfolding with_ticket_def
  by (auto split: prod.splits option.splits intro: moves_ticket moves_then [OF moves_ticket assms(2)])

lemma moves_call:
  assumes "pairing_call f m s = (x, cs, s')" "\<And>d x d'. m d = (x, d') \<Longrightarrow> service_call cr d d'"
  shows "api_moves cr rep s cs s'"
proof -
  obtain res where "on_store m s = (res, s')" "cs = []"
    using assms(1) by (auto simp: pairing_call_def split: prod.splits)
  then show ?thesis using moves_store assms(2) by blast
qed

lemma moves_decision:
  assumes "claim_decision cr ev r p k s = (x, cs, s')" "\<And>s1 x cs s'. k s1 = (x, cs, s') \<Longrightarrow> api_moves cr rep s1 cs s'"
  shows "api_moves cr rep s cs s'"
  using assms(1) unfolding claim_decision_def Let_def
  by (auto split: if_splits sum.splits intro: moves_with_ticket [OF _ assms(2)])

lemma moves_without: "without_store c s = (x, cs, s') \<Longrightarrow> api_moves cr rep s cs s'"
  by (auto simp: without_store_def split: sum.splits)

lemma moves_authentication:
  "handleMetadata cr ev r s = (x, cs, s') \<Longrightarrow> api_moves cr rep s cs s'"
  "handleEnrollHost cr ev r b1 s = (x, cs, s') \<Longrightarrow> api_moves cr rep s cs s'"
  "handleCreateChallenge cr ev r b2 s = (x, cs, s') \<Longrightarrow> api_moves cr rep s cs s'"
  "handleProve cr ev r b3 s = (x, cs, s') \<Longrightarrow> api_moves cr rep s cs s'"
proof -
  show "handleMetadata cr ev r s = (x, cs, s') \<Longrightarrow> api_moves cr rep s cs s'"
    unfolding handleMetadata_def Let_def by (auto split: option.splits prod.splits if_splits intro: moves_auth)
  show "handleEnrollHost cr ev r b1 s = (x, cs, s') \<Longrightarrow> api_moves cr rep s cs s'"
    unfolding handleEnrollHost_def
    by (auto split: option.splits prod.splits sum.splits intro: moves_store service_call.enroll_host)
  show "handleCreateChallenge cr ev r b2 s = (x, cs, s') \<Longrightarrow> api_moves cr rep s cs s'"
    unfolding handleCreateChallenge_def
    by (auto split: option.splits prod.splits sum.splits if_splits intro: moves_limit moves_then [OF moves_limit moves_auth]
        moves_then [OF moves_then [OF moves_limit moves_auth] moves_store] service_call.create_challenge)
  show "handleProve cr ev r b3 s = (x, cs, s') \<Longrightarrow> api_moves cr rep s cs s'"
    unfolding handleProve_def
    by (auto split: option.splits prod.splits sum.splits if_splits intro: moves_auth
        moves_then [OF moves_auth moves_store] service_call.prove)
qed

lemma moves_pairing:
  "handleCreateInvite cr ev r b1 s = (x, cs, s') \<Longrightarrow> api_moves cr rep s cs s'"
  "handleCancelInvite cr ev r s = (x, cs, s') \<Longrightarrow> api_moves cr rep s cs s'"
  "handleSubmitClaim cr ev b2 s = (x, cs, s') \<Longrightarrow> api_moves cr rep s cs s'"
  "handleGetClaim cr ev r s = (x, cs, s') \<Longrightarrow> api_moves cr rep s cs s'"
  "handleCancelClaim cr ev r s = (x, cs, s') \<Longrightarrow> api_moves cr rep s cs s'"
  "handleListPairingClaims cr ev r s = (x, cs, s') \<Longrightarrow> api_moves cr rep s cs s'"
  "handleApprovePairingClaim cr ev r b3 s = (x, cs, s') \<Longrightarrow> api_moves cr rep s cs s'"
  "handleRejectPairingClaim cr ev r s = (x, cs, s') \<Longrightarrow> api_moves cr rep s cs s'"
  "handleListDevices cr ev r s = (x, cs, s') \<Longrightarrow> api_moves cr rep s cs s'"
  unfolding handleCreateInvite_def handleCancelInvite_def handleSubmitClaim_def handleGetClaim_def
    handleCancelClaim_def handleListPairingClaims_def handleApprovePairingClaim_def
    handleRejectPairingClaim_def handleListDevices_def Let_def
  by (auto split: option.splits sum.splits if_splits intro: service_call.intros moves_without
      elim!: moves_with_ticket moves_decision moves_call)

lemma moves_revocation:
  assumes "handleRevokeDevice cr ev r s = (x, cs, s')" "rep \<longrightarrow> \<not> ev_flt ev 1 1"
  shows "api_moves cr rep s cs s'"
  using assms(1) unfolding handleRevokeDevice_def Let_def
  by (rule moves_with_ticket) (use assms(2) in \<open>auto split: prod.splits intro: moves_revoke\<close>)

text \<open>
  C27: Every API call is a run of the relay: what a handler does to the database, the registries and
  the sockets is a sequence of the steps of the state machine, with the same closings. So every
  property of runs holds of a relay that serves its API.
\<close>

theorem api_is_relay_run:
  assumes "serve_api cr ev a rq (rl_server r) = (x, cs, s')" "rep \<longrightarrow> \<not> ev_flt ev 1 1"
  shows "relay_run cr rep r (map Close cs) (serving s' r)"
proof -
  have "api_moves cr rep (rl_server r) cs s'"
  proof (cases a)
    case Health
    with assms(1) show ?thesis by (simp add: handleHealth_def)
  qed (use assms in \<open>auto intro: moves_authentication moves_pairing moves_revocation\<close>)
  then show ?thesis by (simp add: api_moves_def)
qed

section \<open>Tickets\<close>

text \<open>The purpose a host needs a ticket for, and the tenant and host the request names.\<close>

fun api_purpose :: "api \<Rightarrow> string option" where
  "api_purpose (NewInvite _) = Some ''pairing_invite_create''"
| "api_purpose DropInvite = Some ''pairing_invite_cancel''"
| "api_purpose PendingClaims = Some ''pairing_claim_list''"
| "api_purpose (Approve _) = Some ''pairing_claim_approve''"
| "api_purpose Reject = Some ''pairing_claim_reject''"
| "api_purpose Devices = Some ''device_list''"
| "api_purpose Revoke = Some ''device_revoke''"
| "api_purpose _ = None"

fun api_host :: "api \<Rightarrow> request \<Rightarrow> string \<times> string" where
  "api_host (NewInvite (Body q)) r = (ir_TenantID q, ir_HostID q)"
| "api_host DropInvite r = (query_get (rq_Query r) ''tenantId'', query_get (rq_Query r) ''hostId'')"
| "api_host _ r = (query_get (rq_Query r) ''tenantId'', PathValue r ''hostId'')"

definition ticket_presented :: "crypto \<Rightarrow> env \<Rightarrow> request \<Rightarrow> ticket_scope \<Rightarrow> server \<Rightarrow> bool" where
  "ticket_presented cr ev r sc s \<longleftrightarrow> (\<exists>token svc d1. bearerToken (rq_Authorization r) = Some token \<and>
     ConsumeTicket cr svc (ev_now ev 0) (ev_flt ev 0) token sc (sv_db s) = (Inr (), d1))"

text \<open>A refusal: an error reply, no socket closed, nothing changed in the database but the tickets.\<close>

fun is_failure :: "reply \<Rightarrow> bool" where
  "is_failure (Reply _ (ErrorPayload _)) = True"
| "is_failure _ = False"

definition tickets_only :: "db \<Rightarrow> db \<Rightarrow> bool" where
  "tickets_only d d' \<longleftrightarrow> d' = d\<lparr>auth_tickets := auth_tickets d'\<rparr>"

definition refused :: "reply \<Rightarrow> closing list \<Rightarrow> server \<Rightarrow> server \<Rightarrow> bool" where
  "refused x cs s s' \<longleftrightarrow> is_failure x \<and> cs = [] \<and> same_sockets s s' \<and> tickets_only (sv_db s) (sv_db s')"

lemma is_failure_fail [simp]: "is_failure (fail_with st c)"
  by (simp add: fail_with_def)

interpretation tko: tx_order tickets_only
proof
  show "tickets_only d d" for d by (simp add: tickets_only_def)
  show "tickets_only d d2" if "tickets_only d d1" "tickets_only d1 d2" for d d1 d2
  proof -
    have "d1 = d\<lparr>auth_tickets := auth_tickets d1\<rparr>" "d2 = d1\<lparr>auth_tickets := auth_tickets d2\<rparr>"
      using that by (simp_all add: tickets_only_def)
    then have "d2 = d\<lparr>auth_tickets := auth_tickets d1, auth_tickets := auth_tickets d2\<rparr>" by metis
    then show ?thesis unfolding tickets_only_def by simp
  qed
qed

lemma ConsumeTicket_tickets: "tko.obeys (ConsumeTicket cr svc now flt raw sc)"
  unfolding ConsumeTicket_def Let_def by (intro tko.obeys_rules) (auto simp: update_tickets_def tickets_only_def)

lemma ticket_gate:
  assumes "authorizeTicket cr (ev_load ev) (ev_now ev 0) (ev_flt ev 0) r sc s = (x, s')"
  shows "(case x of Some refusal \<Rightarrow> refused refusal [] s s' | None \<Rightarrow> ticket_presented cr ev r sc s)"
proof (cases "bearerToken (rq_Authorization r)")
  case None
  with assms show ?thesis by (auto simp: authorizeTicket_def refused_def tko.refl)
next
  case (Some token)
  obtain err s1 where e: "ensureAuth (ev_load ev) s = (err, s1)" by (cases "ensureAuth (ev_load ev) s")
  note s1 = ensureAuth_sockets [OF e]
  obtain res d1 where c: "ConsumeTicket cr (sv_authService s1) (ev_now ev 0) (ev_flt ev 0) token sc (sv_db s) = (res, d1)"
    by (cases "ConsumeTicket cr (sv_authService s1) (ev_now ev 0) (ev_flt ev 0) token sc (sv_db s)")
  have o: "on_store (ConsumeTicket cr (sv_authService s1) (ev_now ev 0) (ev_flt ev 0) token sc) s1 = (res, s1\<lparr>sv_db := d1\<rparr>)"
    using c s1 by (simp add: on_store_def)
  have "same_sockets s (s1\<lparr>sv_db := d1\<rparr>)" using s1 on_store_sockets [OF o] same_sockets_trans by blast
  moreover have "tickets_only (sv_db s) d1" using tko.obeysD [OF ConsumeTicket_tickets c] .
  ultimately show ?thesis using assms Some e o c s1
    by (auto simp: authorizeTicket_def refused_def ticket_presented_def tko.refl split: if_splits sum.splits)
qed

lemma with_ticket_gate:
  assumes "with_ticket cr ev r sc k s = (x, cs, s')"
  shows "refused x cs s s' \<or> ticket_presented cr ev r sc s"
proof -
  obtain y s1 where "authorizeTicket cr (ev_load ev) (ev_now ev 0) (ev_flt ev 0) r sc s = (y, s1)"
    by (cases "authorizeTicket cr (ev_load ev) (ev_now ev 0) (ev_flt ev 0) r sc s")
  with ticket_gate [OF this] assms show ?thesis by (auto simp: with_ticket_def split: option.splits)
qed

lemma claim_decision_gate:
  assumes "claim_decision cr ev r p k s = (x, cs, s')" "sv_store s"
  shows "refused x cs s s' \<or>
    (\<exists>v. ticket_presented cr ev r (host_scope (query_get (rq_Query r) ''tenantId'') (PathValue r ''hostId'') v p) s)"
  using assms unfolding claim_decision_def Let_def
  by (auto split: sum.splits if_splits dest: with_ticket_gate simp: refused_def tko.refl)

lemma readJSON_refused: "readJSON b = Inl x \<Longrightarrow> refused x [] s s"
  by (auto simp: readJSON_def refused_def tko.refl split: body.splits)

text \<open>
  C3: Host operations need a ticket for exactly that operation. A request to create or cancel an
  invite, to list, approve or reject claims, to list devices or to revoke one is refused, with no
  effect on anything but the tickets, unless it presents a ticket that is accepted for that purpose
  and for the host the request names.
\<close>

theorem host_api_needs_ticket:
  assumes "serve_api cr ev a r s = (x, cs, s')" "api_purpose a = Some p" "sv_store s"
  shows "refused x cs s s' \<or>
    (\<exists>v. ticket_presented cr ev r (host_scope (fst (api_host a r)) (snd (api_host a r)) v p) s)"
proof (cases a)
  case (NewInvite b)
  show ?thesis
  proof (cases "readJSON b")
    case (Inl y)
    with assms(1) NewInvite readJSON_refused [OF Inl, of s] show ?thesis by (auto simp: handleCreateInvite_def)
  next
    case (Inr q)
    then have "b = Body q" by (auto simp: readJSON_def split: body.splits)
    with assms NewInvite Inr show ?thesis by (fastforce simp: handleCreateInvite_def dest: with_ticket_gate)
  qed
next
  case (Approve b)
  show ?thesis
  proof (cases "readJSON b")
    case (Inl y)
    with assms(1) Approve readJSON_refused [OF Inl, of s] show ?thesis by (auto simp: handleApprovePairingClaim_def)
  next
    case (Inr q)
    with assms Approve show ?thesis by (auto simp: handleApprovePairingClaim_def Let_def dest: claim_decision_gate)
  qed
next
  case Reject
  with assms show ?thesis by (auto simp: handleRejectPairingClaim_def Let_def dest: claim_decision_gate)
qed (use assms in \<open>auto simp: handleCancelInvite_def handleListPairingClaims_def handleListDevices_def
      handleRevokeDevice_def Let_def dest: with_ticket_gate\<close>)

lemma authenticate_ticket:
  assumes "authenticateSession cr load now flt rq a s = (True, s')" "sv_store s"
  shows "\<exists>token sc svc. bearerToken (rq_Authorization rq) = Some token \<and> session_scope a = Some sc \<and>
    ConsumeTicket cr svc now flt token sc (sv_db s) = (Inr (), sv_db s')"
proof -
  obtain token sc err s1 res where "bearerToken (rq_Authorization rq) = Some token" "session_scope a = Some sc"
      "ensureAuth load s = (err, s1)" "on_store (ConsumeTicket cr (sv_authService s1) now flt token sc) s1 = (res, s')" "is_Inr res"
    using assms unfolding authenticateSession_def by (auto split: option.splits prod.splits if_splits)
  moreover from this have "res = Inr ()" "sv_db s1 = sv_db s"
    using ensureAuth_sockets by (auto simp: is_Inr_def split: sum.splits)
  ultimately show ?thesis by (auto simp: on_store_def split: prod.splits)
qed

text \<open>
  C20: A ticket opens one socket. When a WebSocket request is authenticated, its bearer token was a
  ticket for that role, tenant, host and device, and it is spent: in every later state of the relay
  a request with the same token is refused, whatever identity it asks for.
\<close>

theorem websocket_ticket_single_use:
  assumes "pairing_ok (sv_db (rl_server r))" "sv_store (rl_server r)"
    and "authenticateSession cr load now flt rq a (rl_server r) = (True, s1)"
    and "relay_run cr rep (serving s1 r) es r2"
    and "bearerToken (rq_Authorization rq') = bearerToken (rq_Authorization rq)"
  shows "(\<exists>token sc svc. bearerToken (rq_Authorization rq) = Some token \<and> session_scope a = Some sc \<and>
      ConsumeTicket cr svc now flt token sc (sv_db (rl_server r)) = (Inr (), sv_db s1)) \<and>
    \<not> fst (authenticateSession cr load' now' flt' rq' a' (rl_server r2))"
proof -
  note ex = authenticate_ticket [OF assms(3,2)]
  have store: "sv_store (rl_server r2)"
    using authenticate_sockets [OF assms(3)] relay_run_config [OF assms(4)] assms(2)
    by (simp add: same_sockets_def same_config_def)
  have run: "service_run cr (sv_db s1) (sv_db (rl_server r2))" using relay_run_db [OF assms(4)] by simp
  have "\<not> fst (authenticateSession cr load' now' flt' rq' a' (rl_server r2))"
  proof
    assume "fst (authenticateSession cr load' now' flt' rq' a' (rl_server r2))"
    then obtain s2 where "authenticateSession cr load' now' flt' rq' a' (rl_server r2) = (True, s2)"
      by (cases "authenticateSession cr load' now' flt' rq' a' (rl_server r2)") auto
    from authenticate_ticket [OF this store] ex assms(5) ticket_refused_later [OF assms(1) _ run]
    show False by (metis fst_conv option.inject sum.distinct(1))
  qed
  with ex show ?thesis by blast
qed

end
