(* ===== verification/Demo_Relay.thy ===== *)
theory Demo_Relay
  imports Demo_Pairing Relay_Control Handlers_Run
begin

text \<open>
  A concrete run of the relay on which the statements about frames, sockets and the API are
  instantiated: a host and its device each present a ticket, enter the registry, and the host sends
  the device a confirmation frame.
\<close>

section \<open>A frame\<close>

definition demo_frame :: relay_frame where
  "demo_frame = zero_frame\<lparr>rf_ProtocolVersion := 1, rf_FrameType := FrameConfirmation,
     rf_SessionID := EncodeToString (replicate 32 (CHR ''s'')), rf_TenantID := ''t'', rf_HostID := ''h'',
     rf_DeviceID := ''v'', rf_Direction := DirectionWindowsToMobile, rf_SenderRole := ''windows'',
     rf_Confirmation := EncodeToString (replicate 32 (CHR ''c''))\<rparr>"

lemma demo_trim_v: "TrimSpace ''v'' = ''v''" by code_simp

lemma demo_frame_ok: "frame_ok 1024 demo_frame"
proof -
  have "ident_ok ''t'' \<and> ident_ok ''h'' \<and> ident_ok ''v''"
    by (auto simp: ident_ok_def demo_trim demo_trim_v byte_in_def intro!: ascii_valid)
  moreover have "base64_of 32 (EncodeToString (replicate 32 c))" for c
    unfolding base64_of_def by (rule exI [of _ "replicate 32 c"]) simp
  ultimately show ?thesis
    by (simp add: frame_ok_def route_ok_def demo_frame_def zero_frame_def confirmation_ok_def)
qed

definition demo_data :: bytes where
  "demo_data = print_frame demo_frame"

lemma demo_parsed: "ParseRelayFrame demo_data 1024 = Inr demo_frame"
  unfolding demo_data_def by (rule parse_print_frame [OF demo_frame_ok])

theorem ParseRelayFrame_sound_witness:
  "frame_ok 1024 demo_frame \<and> (\<exists>ms. strictObject demo_data = Inr ms \<and> set (map fst ms) = set (frame_keys demo_frame))"
  using ParseRelayFrame_sound [OF demo_parsed] by blast

theorem ParseRelayFrame_complete_witness: "ParseRelayFrame demo_data 1024 = Inr demo_frame"
  unfolding demo_data_def using ParseRelayFrame_complete [OF demo_frame_ok] .

theorem wire_limit_exact_witness:
  "EncodedLength 16 = int (length (EncodeToString (replicate 16 (CHR ''x''))))"
  using wire_limit_exact [of "replicate 16 (CHR ''x'')"]
  by (simp add: MaxBusinessPlaintextBytes_def GCMTagBytes_def)

theorem frame_fits_wire_limit_witness: "int (length demo_data) \<le> WireFrameLimit 1024"
  unfolding demo_data_def using frame_fits_wire_limit [OF demo_frame_ok] .

section \<open>Two sockets\<close>

definition demo_socket :: "nat \<Rightarrow> string \<Rightarrow> web_socket" where
  "demo_socket n ty = \<lparr>wk_id = n, wk_session = \<lparr>se_TenantID = ''t'', se_HostID = ''h'', se_DeviceID = ''v'',
     se_SessionID = [], se_ConnectionType = ty\<rparr>\<rparr>"

abbreviation demo_host :: web_socket where "demo_host \<equiv> demo_socket 5 ConnectionHost"
abbreviation demo_device :: web_socket where "demo_device \<equiv> demo_socket 6 ConnectionDevice"

definition demo_bytes :: "char \<Rightarrow> bytes" where
  "demo_bytes c = replicate 32 c"

definition demo_request :: "string \<Rightarrow> char \<Rightarrow> request" where
  "demo_request connection c = \<lparr>rq_Method = ''GET'', rq_RemoteAddr = ''127.0.0.1:5'',
     rq_Authorization = ''Bearer '' @ EncodeToString (demo_bytes c),
     rq_Query = [(''connection'', [connection]), (''tenantId'', [''t'']), (''hostId'', [''h'']), (''deviceId'', [''v''])],
     rq_Path = []\<rparr>"

definition demo_hscope :: ticket_scope where
  "demo_hscope = \<lparr>ts_SubjectType = ''host'', ts_SubjectID = ''h'', ts_TenantID = ''t'',
     ts_HostID = ''h'', ts_DeviceID = ''v'', ts_Purpose = ''websocket_host''\<rparr>"

definition demo_dscope :: ticket_scope where
  "demo_dscope = \<lparr>ts_SubjectType = ''device'', ts_SubjectID = ''v'', ts_TenantID = ''t'',
     ts_HostID = ''h'', ts_DeviceID = ''v'', ts_Purpose = ''websocket_device''\<rparr>"

text \<open>The database with a ticket for the host and one for the device, each consumed at some time or not.\<close>

definition demo_rdb :: "int option \<Rightarrow> int option \<Rightarrow> db" where
  "demo_rdb p q = demo_vdb\<lparr>auth_tickets :=
     [(issued_ticket demo_crypto demo_hscope 0 (demo_bytes (CHR ''p'')))\<lparr>tk_consumed_at := p\<rparr>,
      (issued_ticket demo_crypto demo_dscope 0 (demo_bytes (CHR ''q'')))\<lparr>tk_consumed_at := q\<rparr>]\<rparr>"

lemma demo_sha: "sha256 demo_crypto (demo_bytes c) = demo_bytes c"
  by (simp add: demo_crypto_def demo_bytes_def)

lemma demo_bytes_inj [simp]: "demo_bytes c = demo_bytes c' \<longleftrightarrow> c = c'"
  by (simp add: demo_bytes_def)

lemma demo_rdb_ok: "pairing_ok (demo_rdb p q)"
  using demo_vdb_ok
  by (simp add: pairing_ok_def pairing_inv_def demo_rdb_def db_inv_defs issued_ticket_def demo_sha)
    (simp add: demo_vdb_def demo_db_def empty_db_def)

lemma demo_live:
  "subject_live (demo_rdb p q) ''t'' ''host'' ''h'' ''h''" "subject_live (demo_rdb p q) ''t'' ''device'' ''v'' ''h''"
  by (simp_all add: subject_live_def demo_rdb_def demo_vdb_def demo_db_def empty_db_def tenant_enabled_def host_active_def
      bound_device_def demo_approval_def) (simp_all add: demo_key_def)

lemma demo_scopes_ok: "validateScope demo_hscope = Inr ()" "validateScope demo_dscope = Inr ()"
  by (simp_all add: validateScope_def demo_hscope_def demo_dscope_def demo_trim demo_trim_v validPurpose_def)

lemma demo_decoded: "auth_decodeExact (EncodeToString (demo_bytes c)) credentialBytes = Inr (demo_bytes c)"
  by (simp add: credentialBytes_def demo_bytes_def)

lemma demo_service_some: "demo_service = Some \<lparr>as_store = True, as_signer = Some demo_signer\<rparr>"
  by (simp add: demo_service_def)

lemma demo_consume_host:
  "ConsumeTicket demo_crypto demo_service 0 no_faults (EncodeToString (demo_bytes (CHR ''p''))) demo_hscope (demo_rdb None q) =
     (Inr (), demo_rdb (Some 0) q)"
proof -
  let ?P = "ticket_matches (demo_rdb None q) demo_hscope (demo_bytes (CHR ''p'')) 0"
  have p: "?P (issued_ticket demo_crypto demo_hscope 0 (demo_bytes (CHR ''p'')))"
    using demo_live(1) by (simp add: ticket_matches_def issued_ticket_def demo_sha demo_hscope_def maxLifetime_ms_def
        maxLifetime_def Second_def Millisecond_def)
  have q: "\<not> ?P ((issued_ticket demo_crypto demo_dscope 0 (demo_bytes (CHR ''q'')))\<lparr>tk_consumed_at := q\<rparr>)"
    by (simp add: ticket_matches_def issued_ticket_def demo_sha)
  have "(issued_ticket demo_crypto demo_hscope 0 x)\<lparr>tk_consumed_at := None\<rparr> = issued_ticket demo_crypto demo_hscope 0 x" for x
    by (simp add: issued_ticket_def)
  then show ?thesis using p q
    unfolding ConsumeTicket_ok
    by (simp add: demo_service_some demo_scopes_ok demo_decoded demo_sha UnixMilli_def)
      (simp add: demo_rdb_def affected_def update_where_def)
qed

lemma demo_consume_device:
  "ConsumeTicket demo_crypto demo_service 0 no_faults (EncodeToString (demo_bytes (CHR ''q''))) demo_dscope (demo_rdb p None) =
     (Inr (), demo_rdb p (Some 0))"
proof -
  let ?P = "ticket_matches (demo_rdb p None) demo_dscope (demo_bytes (CHR ''q'')) 0"
  have q: "?P (issued_ticket demo_crypto demo_dscope 0 (demo_bytes (CHR ''q'')))"
    using demo_live(2) by (simp add: ticket_matches_def issued_ticket_def demo_sha demo_dscope_def maxLifetime_ms_def
        maxLifetime_def Second_def Millisecond_def)
  have p: "\<not> ?P ((issued_ticket demo_crypto demo_hscope 0 (demo_bytes (CHR ''p'')))\<lparr>tk_consumed_at := p\<rparr>)"
    by (simp add: ticket_matches_def issued_ticket_def demo_sha)
  have "(issued_ticket demo_crypto demo_dscope 0 x)\<lparr>tk_consumed_at := None\<rparr> = issued_ticket demo_crypto demo_dscope 0 x" for x
    by (simp add: issued_ticket_def)
  then show ?thesis using p q
    unfolding ConsumeTicket_ok
    by (simp add: demo_service_some demo_scopes_ok demo_decoded demo_sha UnixMilli_def)
      (simp add: demo_rdb_def affected_def update_where_def)
qed

section \<open>The run\<close>

definition demo_server ::
  "bool \<Rightarrow> int option \<Rightarrow> int option \<Rightarrow> (string \<times> web_socket) list \<Rightarrow> (string \<times> web_socket) list \<Rightarrow> int \<Rightarrow> server" where
  "demo_server loaded p q hs ds n = (NewServerWithStore 1024 5 (demo_rdb p q))
     \<lparr>sv_authOnce := loaded, sv_identity := (if loaded then Some demo_signer else None),
      sv_authService := (if loaded then demo_service else None), sv_hosts := hs, sv_devices := ds, sv_webSocketWG := n\<rparr>"

lemmas demo_server_defs = demo_server_def NewServerWithStore_def NewServer_def

definition demo_relay :: "server \<Rightarrow> (web_socket \<times> phase) list \<Rightarrow> relay" where
  "demo_relay s cs = \<lparr>rl_server = s, rl_conns = cs\<rparr>"

lemma demo_start: "start_relay 1024 5 (demo_rdb None None) = demo_relay (demo_server False None None [] [] 0) []"
  by (simp add: start_relay_def demo_relay_def demo_server_defs)

lemma demo_bearer: "bearerToken (rq_Authorization (demo_request c x)) = Some (EncodeToString (demo_bytes x))"
proof -
  have "EncodeToString (demo_bytes x) \<noteq> []" using demo_decoded [of x] by (auto simp: auth_decodeExact_def)
  then show ?thesis by (simp add: bearerToken_def demo_request_def)
qed

lemma demo_loads: "ensureAuth (Inr demo_signer) (demo_server b p q hs ds n) = (None, demo_server True p q hs ds n)"
  by (simp add: ensureAuth_def demo_server_defs demo_service_some)

lemma demo_stored: "on_store m (demo_server True p q hs ds n) = (case m (demo_rdb p q) of (res, d') \<Rightarrow>
   (res, (demo_server True p q hs ds n)\<lparr>sv_db := d'\<rparr>))"
  by (simp add: on_store_def demo_server_defs)

lemma demo_auth_host:
  "authenticateSession demo_crypto (Inr demo_signer) 0 no_faults (demo_request c (CHR ''p'')) (wk_session demo_host)
     (demo_server b None q hs ds n) = (True, demo_server True (Some 0) q hs ds n)"
proof -
  have "session_scope (wk_session demo_host) = Some demo_hscope"
    by (simp add: session_scope_def demo_socket_def demo_hscope_def)
  moreover have "sv_authService (demo_server True None q hs ds n) = demo_service" "sv_store (demo_server b None q hs ds n)"
    by (simp_all add: demo_server_defs)
  ultimately show ?thesis unfolding authenticateSession_def
    by (simp add: demo_bearer demo_loads demo_stored demo_consume_host is_Inr_def)
      (simp add: demo_service_some demo_server_defs)
qed

lemma demo_auth_device:
  "authenticateSession demo_crypto (Inr demo_signer) 0 no_faults (demo_request c (CHR ''q'')) (wk_session demo_device)
     (demo_server b p None hs ds n) = (True, demo_server True p (Some 0) hs ds n)"
proof -
  have "session_scope (wk_session demo_device) = Some demo_dscope"
    by (simp add: session_scope_def demo_socket_def demo_dscope_def)
  moreover have "sv_authService (demo_server True p None hs ds n) = demo_service" "sv_store (demo_server b p None hs ds n)"
    by (simp_all add: demo_server_defs)
  ultimately show ?thesis unfolding authenticateSession_def
    by (simp add: demo_bearer demo_loads demo_stored demo_consume_device is_Inr_def)
      (simp add: demo_service_some demo_server_defs)
qed

abbreviation demo_slot :: string where "demo_slot \<equiv> ''t/h/v''"

lemma demo_socket_simps [simp]:
  "wk_id (demo_socket n ty) = n" "se_ConnectionType (wk_session (demo_socket n ty)) = ty"
  "session_key (demo_socket n ty) = demo_slot" "socket_identity (demo_socket n ty) = (''t'', ''h'', ''v'')"
  by (simp_all add: demo_socket_def session_key_def deviceKey_def socket_identity_def)

lemma demo_socket_eq [simp]: "demo_socket n ty = demo_socket m ty' \<longleftrightarrow> n = m \<and> ty = ty'"
  by (auto simp: demo_socket_def)

lemma demo_active: "routeActiveLocked no_faults (wk_session (demo_socket n ty)) (demo_server b p q hs ds k)"
  by (simp add: routeActiveLocked_def demo_server_defs demo_socket_def GetDevice_def tx_bind_run tx_run demo_rdb_def
      demo_vdb_def bound_device_def demo_approval_def scanDevice_def is_Inr_def)

lemma demo_enter_host:
  "beginWebSocket no_faults demo_host (demo_server True p q [] [] 0) = (True, [], demo_server True p q [(demo_slot, demo_host)] [] 1)"
  unfolding beginWebSocket_def addSessionWithLifecycle_def
  by (simp add: demo_active Let_def) (simp add: demo_server_defs entry_def closeSessions_def map_put_def map_delete_def)

lemma demo_enter_device:
  "beginWebSocket no_faults demo_device (demo_server True p q hs [] n) =
     (True, [], demo_server True p q hs [(demo_slot, demo_device)] (n + 1))"
  unfolding beginWebSocket_def addSessionWithLifecycle_def
  by (simp add: demo_active Let_def) (simp add: demo_server_defs entry_def closeSessions_def map_put_def map_delete_def)

lemma demo_session_host: "sessionFromRequest (demo_request ''host'' c) = Inr (wk_session demo_host)"
  by (simp add: sessionFromRequest_def demo_request_def query_keys_def query_get_def demo_socket_def Let_def)

lemma demo_session_device: "sessionFromRequest (demo_request ''device'' c) = Inr (wk_session demo_device)"
  by (simp add: sessionFromRequest_def demo_request_def query_keys_def query_get_def demo_socket_def Let_def)

abbreviation demo_connected :: server where
  "demo_connected \<equiv> demo_server True (Some 0) (Some 0) [(demo_slot, demo_host)] [(demo_slot, demo_device)] 2"

lemma demo_routed: "serve_message demo_host demo_data demo_connected = Inr demo_device"
proof -
  have "sv_MaxMessageBytes demo_connected = 1024" by (simp add: demo_server_defs)
  moreover have "validateSenderFrame (wk_session demo_host) demo_frame = 0"
    by (simp add: validateSenderFrame_def demo_frame_def demo_socket_def)
  moreover have "routeTarget demo_host demo_frame demo_connected = Inr demo_device"
    by (simp add: routeTarget_def demo_frame_def Let_def deviceKey_def holds_def) (simp add: demo_server_defs holds_def)
  ultimately show ?thesis by (simp add: serve_message_def demo_parsed)
qed

lemma demo_relay_simps [simp]:
  "rl_server (demo_relay s cs) = s" "rl_conns (demo_relay s cs) = cs"
  "goto w p (demo_relay s cs) = demo_relay s (map_put w p cs)" "serving s' (demo_relay s cs) = demo_relay s' cs"
  "leave w (demo_relay s cs) = demo_relay s (map_delete w cs)" "at w p (demo_relay s cs) \<longleftrightarrow> map_of cs w = Some p"
  by (simp_all add: demo_relay_def relay_moves)

definition demo_online :: relay where
  "demo_online = demo_relay demo_connected [(demo_device, Serving), (demo_host, Serving)]"

lemma demo_extend:
  "relay_run cr rep r es r1 \<Longrightarrow> relay_step cr rep r1 fs r2 \<Longrightarrow> es @ fs = gs \<Longrightarrow> relay_run cr rep r gs r2"
  using relay_run.step by blast

lemma demo_accept_host:
  "relay_step demo_crypto rep (demo_relay (demo_server False None None [] [] 0) []) []
     (demo_relay (demo_server True (Some 0) None [] [] 0) [(demo_host, Accepted)])"
  using relay_step.accept [OF demo_session_host [of "CHR ''p''"], where r = "demo_relay (demo_server False None None [] [] 0) []"
      and s' = "demo_server True (Some 0) None [] [] 0" and w = demo_host
      and load = "Inr demo_signer" and flt = no_faults and now = 0 and cr = demo_crypto and rows_reported = rep]
  by (simp add: demo_auth_host used_ids_def map_put_def)

lemma demo_host_online:
  "conn_step (demo_relay (demo_server True (Some 0) None [] [] 0) [(demo_host, Accepted)]) []
     (demo_relay (demo_server True (Some 0) None [(demo_slot, demo_host)] [] 1) [(demo_host, Serving)])"
  using conn_step.enter [of demo_host "demo_relay (demo_server True (Some 0) None [] [] 0) [(demo_host, Accepted)]" no_faults "[]"
      "demo_server True (Some 0) None [(demo_slot, demo_host)] [] 1"]
  by (simp add: demo_enter_host map_put_def)

lemma demo_accept_device:
  "relay_step demo_crypto rep (demo_relay (demo_server True (Some 0) None [(demo_slot, demo_host)] [] 1) [(demo_host, Serving)]) []
     (demo_relay (demo_server True (Some 0) (Some 0) [(demo_slot, demo_host)] [] 1) [(demo_device, Accepted), (demo_host, Serving)])"
  using relay_step.accept [OF demo_session_device [of "CHR ''q''"], where r = "demo_relay (demo_server True (Some 0) None [(demo_slot, demo_host)] [] 1)
      [(demo_host, Serving)]" and s' = "demo_server True (Some 0) (Some 0) [(demo_slot, demo_host)] [] 1" and w = demo_device
      and load = "Inr demo_signer" and flt = no_faults and now = 0 and cr = demo_crypto and rows_reported = rep]
  by (simp add: demo_auth_device used_ids_def map_put_def)

lemma demo_device_online:
  "conn_step (demo_relay (demo_server True (Some 0) (Some 0) [(demo_slot, demo_host)] [] 1) [(demo_device, Accepted), (demo_host, Serving)]) []
     demo_online"
  using conn_step.enter [of demo_device "demo_relay (demo_server True (Some 0) (Some 0) [(demo_slot, demo_host)] [] 1)
      [(demo_device, Accepted), (demo_host, Serving)]" no_faults "[]" demo_connected]
  by (simp add: demo_enter_device map_put_def demo_online_def)

lemma demo_goes_online: "relay_run demo_crypto rep (start_relay 1024 5 (demo_rdb None None)) [] demo_online"
  unfolding demo_start
  by (rule demo_extend [OF demo_extend [OF demo_extend [OF demo_extend [OF relay_run.start demo_accept_host]
        relay_step.conn [OF demo_host_online]] demo_accept_device] relay_step.conn [OF demo_device_online]]) simp_all

lemma demo_sends:
  "\<exists>r. relay_run demo_crypto rep (start_relay 1024 5 (demo_rdb None None)) [Sent demo_host demo_device demo_data] r"
proof -
  let ?w = "demo_relay demo_connected [(demo_host, Writing demo_device demo_data), (demo_device, Serving)]"
  have "conn_step demo_online [] ?w"
    using conn_step.message_routed [of demo_host demo_online demo_data demo_device] demo_routed
    by (simp add: demo_online_def map_put_def)
  from demo_extend [OF demo_goes_online relay_step.conn [OF this]]
  have "relay_run demo_crypto rep (start_relay 1024 5 (demo_rdb None None)) [] ?w" by simp
  from demo_extend [OF this relay_step.conn [OF conn_step.written [of demo_host demo_device demo_data ?w]]]
  show ?thesis by fastforce
qed

section \<open>Instances\<close>

theorem frames_reach_the_peer_witness:
  "\<exists>r f. relay_run demo_crypto True (start_relay 1024 5 (demo_rdb None None)) [Sent demo_host demo_device demo_data] r \<and>
    ParseRelayFrame demo_data 1024 = Inr f \<and> rf_Direction f = DirectionWindowsToMobile \<and>
    socket_identity demo_device = socket_identity demo_host"
proof -
  obtain r where run: "relay_run demo_crypto True (start_relay 1024 5 (demo_rdb None None)) [Sent demo_host demo_device demo_data] r"
    using demo_sends by blast
  from frames_reach_the_peer [OF run, of demo_host demo_device demo_data] run show ?thesis by auto
qed

lemma demo_registered: "registered (rl_server demo_online) = {demo_host, demo_device}"
  by (simp add: demo_online_def) (auto simp: registered_def demo_server_defs)

theorem sockets_accounted_witness:
  "demo_device \<in> registered (rl_server demo_online) \<and> (\<exists>p. at demo_device p demo_online \<and> in_loop p) \<and>
   sv_webSocketWG (rl_server demo_online) = 2"
proof -
  have "handlers (rl_conns demo_online) = 2" by (simp add: demo_online_def)
  with sockets_accounted [OF demo_goes_online] demo_registered show ?thesis by auto
qed

theorem connected_devices_bound_witness:
  "\<exists>v\<in>set (devices (sv_db (rl_server demo_online))). dv_key v = (''t'', ''h'', ''v'') \<and> dv_revoked v = 0"
  using connected_devices_bound [OF demo_goes_online demo_rdb_ok, of demo_host] demo_registered by simp

lemma demo_revoked:
  obtains cs s' where "revokeDevice no_faults ''t'' ''h'' ''v'' (rl_server demo_online) = (Inr (), cs, s')"
proof -
  have "\<exists>d'. RevokeDevice no_faults ''t'' ''h'' ''v'' (demo_rdb p q) = (Inr (), d')" for p q
    by (simp add: RevokeDevice_def tx_bind_run tx_run update_devices_def affected_def)
      (simp add: demo_rdb_def demo_vdb_def bound_device_def demo_approval_def)
  then have "\<exists>cs s'. revokeDevice no_faults ''t'' ''h'' ''v'' (rl_server demo_online) = (Inr (), cs, s')"
    unfolding revokeDevice_def Let_def demo_online_def
    by (simp add: demo_stored split: prod.splits sum.splits) (metis Pair_inject sum.distinct(1))
  then show thesis using that by blast
qed

theorem revocation_disconnects_witness:
  "\<exists>cs s'. revokeDevice no_faults ''t'' ''h'' ''v'' (rl_server demo_online) = (Inr (), cs, s') \<and>
    (demo_device, closeIdentity, ''identity_or_direction_mismatch'') \<in> set cs \<and> demo_host \<notin> registered s'"
proof (rule demo_revoked)
  fix cs s'
  assume run: "revokeDevice no_faults ''t'' ''h'' ''v'' (rl_server demo_online) = (Inr (), cs, s')"
  from revocation_disconnects [OF demo_goes_online run] demo_registered run show ?thesis by auto
qed

theorem shutdown_terminates_witness:
  "\<exists>cs s' es K. beginShutdown (rl_server demo_online) = (cs, s') \<and>
    closing_run demo_crypto True (start_relay 1024 5 (demo_rdb None None)) es K (serving s' demo_online) \<and>
    (\<exists>r2. (prompt_step K)\<^sup>*\<^sup>* (serving s' demo_online) r2 \<and> rl_conns r2 = [])"
proof -
  obtain cs s' where sh: "beginShutdown (rl_server demo_online) = (cs, s')" by (cases "beginShutdown (rl_server demo_online)")
  then have down: "sv_shuttingDown (rl_server (serving s' demo_online))" using shutdown_result [OF sh]
    by (auto simp: beginShutdown_def serving_def demo_online_def demo_server_defs split: if_splits)
  have run: "relay_run demo_crypto True (start_relay 1024 5 (demo_rdb None None)) (map Close cs) (serving s' demo_online)"
    by (rule demo_extend [OF demo_goes_online relay_step.shutdown [OF sh]]) simp
  then obtain K where K: "closing_run demo_crypto True (start_relay 1024 5 (demo_rdb None None)) (map Close cs) K (serving s' demo_online)"
    unfolding closing_run_iff by blast
  have "(handler_step ^^ 0) (serving s' demo_online) (serving s' demo_online)" by simp
  from shutdown_terminates [OF run down this] sh K show ?thesis by blast
qed

theorem registries_refine_routes_witness:
  "\<exists>cs s'. beginWebSocket no_faults demo_host (demo_server True (Some 0) None [] [] 0) = (True, cs, s') \<and>
    agree (routes_of s') (connect demo_host (routes_of (demo_server True (Some 0) None [] [] 0)))"
proof -
  have "slash_free demo_host" "is_host demo_host" "no_slash ''t''" "no_slash ''h''"
    by (simp_all add: slash_free_def is_host_def no_slash_def demo_socket_def)
  with registries_refine_routes [of demo_host "''t''" "''h''" "demo_server True (Some 0) None [] [] 0" "''v''"] demo_enter_host
  show ?thesis unfolding beginWebSocket_def by blast
qed

theorem challenge_rate_bounded_witness:
  "int (admitted ''127.0.0.1'' [(0, demo_request ''host'' (CHR ''p'')), (1, demo_request ''host'' (CHR ''p''))] (NewServer 1024 5)) \<le> 10"
proof -
  have "zero_time < 0" by code_simp
  then show ?thesis
    using challenge_rate_bounded [of "NewServer 1024 5" "[]" "[]" "NewServer 1024 5"
        "[(0, demo_request ''host'' (CHR ''p'')), (1, demo_request ''host'' (CHR ''p''))]" 0 "''127.0.0.1''"]
    by (simp add: NewServer_def Minute_def Second_def)
qed

definition demo_env :: env where
  "demo_env = \<lparr>ev_load = Inr demo_signer, ev_now = (\<lambda>_. 0), ev_rand = (\<lambda>_. demo_rand (CHR ''r'')), ev_flt = (\<lambda>_. no_faults)\<rparr>"

theorem api_replies_public_witness:
  "reply_ok (fst (serve_api demo_crypto demo_env Devices (demo_request ''host'' (CHR ''p'')) demo_connected))"
  by (rule api_replies_public) (simp_all add: demo_server_defs auth_loaded_def)

theorem api_is_relay_run_witness:
  "\<exists>x cs s'. serve_api demo_crypto demo_env Revoke (demo_request ''host'' (CHR ''p'')) (rl_server demo_online) = (x, cs, s') \<and>
    relay_run demo_crypto True demo_online (map Close cs) (serving s' demo_online)"
proof -
  obtain x cs s' where run: "serve_api demo_crypto demo_env Revoke (demo_request ''host'' (CHR ''p'')) (rl_server demo_online) = (x, cs, s')"
    using prod_cases3 by blast
  have "True \<longrightarrow> \<not> ev_flt demo_env 1 1" by (simp add: demo_env_def)
  from api_is_relay_run [OF run this] run show ?thesis by blast
qed

theorem host_api_needs_ticket_witness:
  "\<exists>x cs s'. serve_api demo_crypto demo_env Revoke ((demo_request ''host'' (CHR ''p''))\<lparr>rq_Authorization := []\<rparr>) demo_connected = (x, cs, s') \<and>
    refused x cs demo_connected s'"
proof -
  let ?r = "(demo_request ''host'' (CHR ''p''))\<lparr>rq_Authorization := []\<rparr>"
  obtain x cs s' where run: "serve_api demo_crypto demo_env Revoke ?r demo_connected = (x, cs, s')"
    using prod_cases3 by blast
  have "api_purpose Revoke = Some ''device_revoke''" "sv_store demo_connected" by (simp_all add: demo_server_defs)
  from host_api_needs_ticket [OF run this] run show ?thesis
    by (auto simp: ticket_presented_def bearerToken_def)
qed

theorem websocket_ticket_single_use_witness:
  "fst (authenticateSession demo_crypto (Inr demo_signer) 0 no_faults (demo_request ''host'' (CHR ''p'')) (wk_session demo_host)
      (demo_server False None None [] [] 0)) \<and>
   \<not> fst (authenticateSession demo_crypto (Inr demo_signer) 0 no_faults (demo_request ''host'' (CHR ''p'')) (wk_session demo_host)
      (demo_server True (Some 0) None [] [] 0))"
proof -
  let ?r = "demo_relay (demo_server False None None [] [] 0) []"
  have "pairing_ok (sv_db (rl_server ?r))" "sv_store (rl_server ?r)"
    using demo_rdb_ok by (simp_all add: demo_server_defs)
  moreover have "authenticateSession demo_crypto (Inr demo_signer) 0 no_faults (demo_request ''host'' (CHR ''p'')) (wk_session demo_host)
      (rl_server ?r) = (True, demo_server True (Some 0) None [] [] 0)" using demo_auth_host by simp
  moreover have "relay_run demo_crypto True (serving (demo_server True (Some 0) None [] [] 0) ?r) [] (serving (demo_server True (Some 0) None [] [] 0) ?r)"
    by (rule relay_run.start)
  ultimately show ?thesis
    using websocket_ticket_single_use [of ?r demo_crypto "Inr demo_signer" 0 no_faults "demo_request ''host'' (CHR ''p'')" "wk_session demo_host"
        "demo_server True (Some 0) None [] [] 0" True "[]" "serving (demo_server True (Some 0) None [] [] 0) ?r"
        "demo_request ''host'' (CHR ''p'')" "Inr demo_signer" 0 no_faults "wk_session demo_host"]
    by simp
qed

definition slash_socket :: "nat \<Rightarrow> string \<Rightarrow> string \<Rightarrow> string \<Rightarrow> web_socket" where
  "slash_socket n h v ty = \<lparr>wk_id = n, wk_session = \<lparr>se_TenantID = ''t'', se_HostID = h, se_DeviceID = v,
     se_SessionID = [], se_ConnectionType = ty\<rparr>\<rparr>"

theorem slash_identifiers_collide_witness:
  "\<exists>s. routeTarget (slash_socket 1 ''a/b'' ''c'' ConnectionHost)
      (zero_frame\<lparr>rf_TenantID := ''t'', rf_HostID := ''a/b'', rf_DeviceID := ''c'', rf_Direction := DirectionWindowsToMobile\<rparr>) s =
    Inr (slash_socket 2 ''a'' ''b/c'' ConnectionDevice)"
proof -
  let ?wh = "slash_socket 1 ''a/b'' ''c'' ConnectionHost" and ?wd = "slash_socket 2 ''a'' ''b/c'' ConnectionDevice"
  have added: "\<exists>cs s'. addSession no_faults w s = (True, cs, s') \<and> \<not> sv_store s' \<and> \<not> sv_shuttingDown s'"
    if "\<not> sv_store s" "\<not> sv_shuttingDown s" "w = ?wh \<or> w = ?wd" for s w
    using that by (auto simp: addSession_def addSessionWithLifecycle_def routeActiveLocked_def slash_socket_def Let_def)
  obtain cs s1 where s1: "addSession no_faults ?wh (NewServer 1024 5) = (True, cs, s1)" "\<not> sv_store s1" "\<not> sv_shuttingDown s1"
    using added [of "NewServer 1024 5" ?wh] by (auto simp: NewServer_def)
  obtain cs' s2 where s2: "addSession no_faults ?wd s1 = (True, cs', s2)" using added [OF s1(2,3)] by blast
  have "socket_identity ?wh = (''t'', ''a'' @ ''/'' @ ''b'', ''c'')" "is_host ?wh"
    "socket_identity ?wd = (''t'', ''a'', ''b'' @ ''/'' @ ''c'')" "se_ConnectionType (wk_session ?wd) = ConnectionDevice"
    by (simp_all add: slash_socket_def socket_identity_def is_host_def)
  moreover have "validateSenderFrame (wk_session ?wh)
      (zero_frame\<lparr>rf_TenantID := ''t'', rf_HostID := ''a/b'', rf_DeviceID := ''c'', rf_Direction := DirectionWindowsToMobile\<rparr>) = 0"
    by (simp add: validateSenderFrame_def slash_socket_def)
  ultimately show ?thesis using slash_identifiers_collide [OF _ _ _ _ s1(1) s2] by blast
qed

end
