(* ===== verification/Config.thy ===== *)
theory Config
  imports Security Json
begin

text \<open>
  The configuration (\<open>internal/config/config.go\<close>): its record and defaults, and the check that the
  internal listener is on a loopback address, with the part of \<open>net.ParseIP\<close> it relies on.
\<close>

section \<open>Data\<close>

record tls_config =
  tl_Enabled :: bool
  tl_CertFile :: string
  tl_KeyFile :: string

record quota =
  qu_MaxWindowsHosts :: int
  qu_MaxDevicesPerHost :: int
  qu_MaxConcurrentSessions :: int
  qu_MaxMessageBytes :: int
  qu_MaxFileBytes :: int
  qu_MaxFileTransfers :: int
  qu_PairingInvitesPerHour :: int
  qu_PairingAttemptsPerMinute :: int
  qu_IdleTimeoutSeconds :: int
  qu_SessionResumeSeconds :: int

record config =
  cf_ListenHost :: string
  cf_ListenPort :: int
  cf_InternalListenHost :: string
  cf_InternalListenPort :: int
  cf_PublicHost :: string
  cf_PublicPort :: int
  cf_PublicTLS :: bool
  cf_StatePath :: string
  cf_TLS :: tls_config
  cf_DefaultQuota :: quota

definition Default :: config where
  "Default = \<lparr>cf_ListenHost = ''127.0.0.1'', cf_ListenPort = 38443, cf_InternalListenHost = [],
     cf_InternalListenPort = 0, cf_PublicHost = [], cf_PublicPort = 38443, cf_PublicTLS = False,
     cf_StatePath = ''relay-state.db'', cf_TLS = \<lparr>tl_Enabled = False, tl_CertFile = [], tl_KeyFile = []\<rparr>,
     cf_DefaultQuota = \<lparr>qu_MaxWindowsHosts = 4, qu_MaxDevicesPerHost = 8, qu_MaxConcurrentSessions = 16,
       qu_MaxMessageBytes = 11 * 1024 * 1024, qu_MaxFileBytes = 104857600, qu_MaxFileTransfers = 2,
       qu_PairingInvitesPerHour = 30, qu_PairingAttemptsPerMinute = 240, qu_IdleTimeoutSeconds = 120,
       qu_SessionResumeSeconds = 60\<rparr>\<rparr>"

section \<open>Addresses\<close>

text \<open>
  \<open>netip.ParseAddr\<close>, byte by byte as its loops go. The fields of an IPv4 address: value and digits
  of the current field, the fields before it, and whether the previous character was a dot or the start.
\<close>

fun ipv4_fields :: "string \<Rightarrow> int \<Rightarrow> nat \<Rightarrow> int list \<Rightarrow> int list option" where
  "ipv4_fields [] val digLen fs =
     (if length fs < 3 \<or> digLen = 0 then None else Some (fs @ [val]))"
| "ipv4_fields (c # s) val digLen fs =
     (if is_digit c then
        (if digLen = 1 \<and> val = 0 then None
         else let val' = val * 10 + (of_char c - 48) in
           if val' > 255 then None else ipv4_fields s val' (digLen + 1) fs)
      else if c = CHR ''.'' then
        (if digLen = 0 \<or> s = [] \<or> length fs = 3 then None else ipv4_fields s 0 0 (fs @ [val]))
      else None)"

definition parseIPv4 :: "string \<Rightarrow> int list option" where
  "parseIPv4 s = ipv4_fields s 0 0 []"

text \<open>
  The loop of \<open>parseIPv6\<close>: the rest of the text, the bytes so far and the place of the ellipsis; it
  ends with what it has not read.
\<close>

function ipv6_loop :: "string \<Rightarrow> int list \<Rightarrow> nat option \<Rightarrow> (int list \<times> nat option \<times> string) option" where
  "ipv6_loop s ip ell =
     (if length ip \<ge> 16 then Some (ip, ell, s)
      else
        let ds = takeWhile (\<lambda>c. hex_val c \<noteq> None) s; rest = drop (length ds) s in
        if ds = [] \<or> length ds > 4 then None
        else if rest \<noteq> [] \<and> hd rest = CHR ''.'' then
          (if ell = None \<and> length ip \<noteq> 12 \<or> length ip + 4 > 16 then None
           else case parseIPv4 s of None \<Rightarrow> None | Some fs \<Rightarrow> Some (ip @ fs, ell, []))
        else
          let acc = foldl (\<lambda>a c. a * 16 + the (hex_val c)) 0 ds; ip' = ip @ [acc div 256, acc mod 256] in
          if rest = [] then Some (ip', ell, [])
          else if hd rest \<noteq> CHR '':'' \<or> length rest = 1 then None
          else if hd (tl rest) = CHR '':'' then
            (if ell \<noteq> None then None
             else if tl (tl rest) = [] then Some (ip', Some (length ip'), [])
             else ipv6_loop (tl (tl rest)) ip' (Some (length ip')))
          else ipv6_loop (tl rest) ip' ell)"
  by pat_completeness auto
termination
proof (relation "measure (\<lambda>(s, ip, ell). length s)", goal_cases)
  case 1
  show ?case by simp
qed (auto simp: Let_def takeWhile_eq_Nil_iff)

declare ipv6_loop.simps [simp del]

definition parseIPv6 :: "string \<Rightarrow> int list option" where
  "parseIPv6 s =
     (if CHR ''%'' \<in> set s then None
      else
        let lead = (length s \<ge> 2 \<and> take 2 s = ''::''); t = (if lead then drop 2 s else s) in
        if lead \<and> t = [] then Some (replicate 16 0)
        else case ipv6_loop t [] (if lead then Some 0 else None) of
          None \<Rightarrow> None
        | Some (ip, ell, left) \<Rightarrow>
            if left \<noteq> [] then None
            else if length ip < 16 then
              (case ell of None \<Rightarrow> None | Some e \<Rightarrow> Some (take e ip @ replicate (16 - length ip) 0 @ drop e ip))
            else if ell \<noteq> None then None else Some ip)"

text \<open>\<open>net.ParseIP\<close>: sixteen bytes; an address with a zone is refused.\<close>

definition ParseIP :: "string \<Rightarrow> int list option" where
  "ParseIP s = (case find (\<lambda>c. c \<in> {CHR ''.'', CHR '':'', CHR ''%''}) s of
      None \<Rightarrow> None
    | Some c \<Rightarrow>
        if c = CHR ''.'' then map_option (\<lambda>f. replicate 10 0 @ [255, 255] @ f) (parseIPv4 s)
        else if c = CHR '':'' then parseIPv6 s
        else None)"

definition IsLoopback :: "int list \<Rightarrow> bool" where
  "IsLoopback ip = (if take 12 ip = replicate 10 0 @ [255, 255] then ip ! 12 = 127
     else ip = replicate 15 0 @ [1])"

text \<open>\<open>strings.EqualFold\<close> with a word of lower-case ASCII letters.\<close>

definition EqualFold :: "string \<Rightarrow> string \<Rightarrow> bool" where
  "EqualFold s word = (fold_name s = word)"

section \<open>The internal listener\<close>

definition ValidateInternalListener :: "config \<Rightarrow> string option" where
  "ValidateInternalListener cfg =
     (let host = TrimSpace (cf_InternalListenHost cfg) in
      if host = [] \<and> cf_InternalListenPort cfg = 0 then None
      else if host = [] \<or> cf_InternalListenPort cfg \<le> 0 \<or> cf_InternalListenPort cfg > 65535 then
        Some ''internal listener requires a host and a valid nonzero port''
      else if \<not> EqualFold host ''localhost'' \<and>
              (case ParseIP host of None \<Rightarrow> True | Some address \<Rightarrow> \<not> IsLoopback address) then
        Some ''internal listener host must be loopback''
      else if cf_InternalListenPort cfg = cf_ListenPort cfg then
        Some ''internal listener port must be distinct from the public listener port''
      else None)"

text \<open>\<open>net.JoinHostPort\<close>\<close>

definition JoinHostPort :: "string \<Rightarrow> string \<Rightarrow> string" where
  "JoinHostPort host port = (if CHR '':'' \<in> set host then ''['' @ host @ '']:'' @ port else host @ '':'' @ port)"

section \<open>Dotted quads\<close>

definition quad :: "int list \<Rightarrow> string" where
  "quad fs = Join CHR ''.'' (map Itoa fs)"

lemma decimal_byte:
  assumes "0 \<le> n" "n \<le> 255"
  shows "decimal n =
    (if n < 10 then [char_of (n + 48)]
     else if n < 100 then [char_of (n div 10 + 48), char_of (n mod 10 + 48)]
     else [char_of (n div 10 div 10 + 48), char_of (n div 10 mod 10 + 48), char_of (n mod 10 + 48)])"
proof -
  have "n < 100 \<longleftrightarrow> n div 10 < 10" "n div 10 div 10 < 10" using assms by linarith+
  then show ?thesis
    by (simp add: decimal.simps [of n] decimal.simps [of "n div 10"] decimal.simps [of "n div 10 div 10"])
qed

lemma digit_char:
  assumes "0 \<le> (d :: int)" "d < 10"
  shows "is_digit (char_of (d + 48))" "of_char (char_of (d + 48) :: char) = d + 48"
  using assms by (simp_all add: is_digit_def)

lemma ipv4_digit:
  assumes "0 \<le> (d :: int)" "d < 10"
  shows "ipv4_fields (char_of (d + 48) # s) val k fs =
    (if k = 1 \<and> val = 0 then None
     else if val * 10 + d > 255 then None else ipv4_fields s (val * 10 + d) (k + 1) fs)"
  using digit_char [OF assms] by (simp add: Let_def)

lemma ipv4_decimal:
  assumes "0 \<le> n" "n \<le> 255"
  shows "ipv4_fields (decimal n @ s) 0 0 fs = ipv4_fields s n (length (decimal n)) fs"
proof -
  have "n div 10 div 10 * 10 + n div 10 mod 10 = n div 10" "n div 10 * 10 + n mod 10 = n"
    by (simp_all only: div_mult_mod_eq)
  moreover have "n div 10 \<le> 25" "0 \<le> n div 10" "n div 10 div 10 < 10" "0 \<le> n div 10 div 10"
    "n < 10 \<or> 0 < n div 10" "n < 100 \<longleftrightarrow> n div 10 < 10" "n < 100 \<or> 0 < n div 10 div 10" using assms by linarith+
  ultimately show ?thesis
    using assms by (auto simp: decimal_byte ipv4_digit simp del: ipv4_fields.simps)
qed

lemma ipv4_dot:
  "k \<noteq> 0 \<Longrightarrow> s \<noteq> [] \<Longrightarrow> length fs < 3 \<Longrightarrow>
   ipv4_fields (CHR ''.'' # s) val k fs = ipv4_fields s 0 0 (fs @ [val])"
  by (simp add: is_digit_def)

lemma parseIPv4_quad:
  assumes "\<forall>n\<in>{a, b, c, d}. 0 \<le> n \<and> n \<le> 255"
  shows "parseIPv4 (quad [a, b, c, d]) = Some [a, b, c, d]"
  using assms ipv4_decimal [of d "[]" "[a, b, c]"]
  by (simp add: parseIPv4_def quad_def Itoa_def ipv4_decimal ipv4_dot del: ipv4_fields.simps(2))

lemma find_first_dot:
  "list_all is_digit ds \<Longrightarrow> find (\<lambda>c. c \<in> {CHR ''.'', CHR '':'', CHR ''%''}) (ds @ CHR ''.'' # s) = Some CHR ''.''"
  by (induction ds) (auto simp: is_digit_def)

lemma quad_digits: "0 \<le> a \<Longrightarrow> \<exists>ds s. quad [a, b, c, d] = ds @ CHR ''.'' # s \<and> ds \<noteq> [] \<and> list_all is_digit ds"
  by (intro exI [of _ "decimal a"] exI [of _ "quad [b, c, d]"])
    (simp add: quad_def Itoa_def list_all_iff decimal_digits)

lemma ParseIP_quad:
  assumes "\<forall>n\<in>{a, b, c, d}. 0 \<le> n \<and> n \<le> 255"
  shows "ParseIP (quad [a, b, c, d]) = Some (replicate 10 0 @ [255, 255, a, b, c, d])"
proof -
  have "find (\<lambda>c. c \<in> {CHR ''.'', CHR '':'', CHR ''%''}) (quad [a, b, c, d]) = Some CHR ''.''"
    using assms quad_digits [of a b c d] find_first_dot by fastforce
  then show ?thesis using parseIPv4_quad [OF assms] by (simp add: ParseIP_def)
qed

lemma fold_name_digit: "is_digit c \<Longrightarrow> \<exists>t. fold_name (c # s) = c # t"
  by (cases "c # s" rule: fold_name.cases) (auto simp: is_digit_def lower_def Let_def)

lemma quad_not_localhost: "0 \<le> a \<Longrightarrow> \<not> EqualFold (quad [a, b, c, d]) ''localhost''"
proof -
  assume "0 \<le> a"
  then obtain x s where "quad [a, b, c, d] = x # s" "is_digit x"
    using quad_digits [of a b c d] by (auto simp: neq_Nil_conv)
  with fold_name_digit [of x s] show ?thesis by (auto simp: EqualFold_def is_digit_def)
qed

text \<open>An internal listener on an IPv4 address is accepted exactly in 127.0.0.0/8.\<close>

lemma internal_listener_quad:
  assumes "\<forall>n\<in>{a, b, c, d}. 0 \<le> n \<and> n \<le> 255" "TrimSpace (cf_InternalListenHost cfg) = quad [a, b, c, d]"
  shows "ValidateInternalListener cfg = None \<longleftrightarrow>
    a = 127 \<and> 0 < cf_InternalListenPort cfg \<and> cf_InternalListenPort cfg \<le> 65535 \<and>
    cf_InternalListenPort cfg \<noteq> cf_ListenPort cfg"
proof -
  have "quad [a, b, c, d] \<noteq> []" using assms(1) quad_digits [of a b c d] by auto
  moreover have "IsLoopback (replicate 10 0 @ [255, 255, a, b, c, d]) \<longleftrightarrow> a = 127"
    by (simp add: IsLoopback_def nth_append)
  ultimately show ?thesis
    using assms quad_not_localhost [of a b c d]
    by (auto simp: ValidateInternalListener_def Let_def ParseIP_quad split: if_splits)
qed

end
