(* ===== verification/Certificates.thy ===== *)
theory Certificates
  imports Config Tenant Session
begin

text \<open>
  The embedded TLS identity (\<open>internal/security/certificate.go\<close>): a certificate and a key file that are
  created together, never overwritten, and reused. Files are their contents by path. Key
  generation and the X.509 encodings (\<open>crypto/rsa\<close>, \<open>crypto/x509\<close>, \<open>encoding/pem\<close>) are the functions
  \<open>ke_generate\<close>, from the template's addresses to the two PEM texts, key first, and \<open>ke_pair\<close>, the
  certificate chain \<open>tls.LoadX509KeyPair\<close> reads; file system errors are flags.
\<close>

type_synonym pem_files = "(string \<times> string) list"

record cert_env =
  ke_generate :: "int list list \<Rightarrow> (string \<times> string) option"
  ke_pair :: "string \<Rightarrow> string \<Rightarrow> string list option"
  ke_crypto :: crypto
  ke_mkdir_fails :: "string \<Rightarrow> bool"
  ke_create_fails :: "string \<Rightarrow> bool"
  ke_write_fails :: "string \<Rightarrow> bool"
  ke_close_fails :: "string \<Rightarrow> bool"

definition fileExists :: "string \<Rightarrow> pem_files \<Rightarrow> bool" where
  "fileExists path fs = (map_of fs path \<noteq> None)"

definition writeExclusive :: "cert_env \<Rightarrow> string \<Rightarrow> string \<Rightarrow> (pem_files, unit) tx" where
  "writeExclusive ev path content =
     tx_call (ke_mkdir_fails ev path) ''create embedded TLS identity directory''
       (tx_bind (tx_query (fileExists path)) (\<lambda>exists.
        tx_call (exists \<or> ke_create_fails ev path) ''create embedded TLS identity file''
          (tx_call (ke_write_fails ev path) ''write embedded TLS identity file''
            (tx_call (ke_close_fails ev path) ''close embedded TLS identity file''
              (tx_exec ''write'' (\<lambda>fs. Some ((), map_put path content fs)))))))"

definition ValidateTLSCertificatePair :: "cert_env \<Rightarrow> string \<Rightarrow> string \<Rightarrow> pem_files \<Rightarrow> string result" where
  "ValidateTLSCertificatePair ev certPath keyPath fs =
     (case (map_of fs certPath, map_of fs keyPath) of
        (Some cert, Some key) \<Rightarrow>
          (case ke_pair ev cert key of
             None \<Rightarrow> Inl ''validate embedded TLS identity''
           | Some [] \<Rightarrow> Inl ''validate embedded TLS identity: certificate chain is empty''
           | Some (leaf # _) \<Rightarrow> Inr (hex (sha256 (ke_crypto ev) leaf)))
      | _ \<Rightarrow> Inl ''validate embedded TLS identity'')"

text \<open>The addresses of the certificate: both loopback addresses, and the public host if it is one.\<close>

definition template_addresses :: "string \<Rightarrow> int list list" where
  "template_addresses publicHost =
     [the (ParseIP ''127.0.0.1''), the (ParseIP ''::1'')] @
     (case ParseIP publicHost of None \<Rightarrow> [] | Some address \<Rightarrow> [address])"

definition EnsureEmbeddedCertificate ::
  "cert_env \<Rightarrow> string \<Rightarrow> string \<Rightarrow> string \<Rightarrow> (pem_files, string) tx" where
  "EnsureEmbeddedCertificate ev certPath keyPath publicHost =
     tx_bind (tx_query (\<lambda>fs. (fileExists certPath fs, fileExists keyPath fs))) (\<lambda>(certExists, keyExists).
     if certExists \<noteq> keyExists then
       tx_fail ''embedded TLS certificate and key must both exist or both be absent''
     else
       let validate = (\<lambda>fs. (ValidateTLSCertificatePair ev certPath keyPath fs, fs)) in
       if certExists then validate
       else
         tx_bind (tx_some ''generate embedded TLS key'' (ke_generate ev (template_addresses publicHost))) (\<lambda>(keyPEM, certPEM).
         tx_bind (writeExclusive ev keyPath keyPEM) (\<lambda>_.
         tx_bind (\<lambda>fs. case writeExclusive ev certPath certPEM fs of
             (Inl e, fs1) \<Rightarrow> (Inl e, map_delete keyPath fs1)
           | r \<Rightarrow> r) (\<lambda>_. validate))))"

section \<open>The identity is created whole and kept\<close>

lemma writeExclusive_cases:
  "writeExclusive ev path content fs = (res, fs') \<Longrightarrow>
   (\<exists>e. res = Inl e) \<and> fs' = fs \<or> res = Inr () \<and> \<not> fileExists path fs \<and> fs' = map_put path content fs"
  by (auto simp: writeExclusive_def tx_simps split: if_splits)

text \<open>What a call does to the files: nothing, or both are new.\<close>

lemma EnsureEmbeddedCertificate_files:
  assumes "EnsureEmbeddedCertificate ev certPath keyPath publicHost fs = (res, fs')" "certPath \<noteq> keyPath"
  shows "map_of fs' = map_of fs \<and> (\<forall>fp. res = Inr fp \<longrightarrow> fileExists certPath fs \<and> fileExists keyPath fs) \<or>
    \<not> fileExists certPath fs \<and> \<not> fileExists keyPath fs \<and>
    (\<exists>keyPEM certPEM. ke_generate ev (template_addresses publicHost) = Some (keyPEM, certPEM) \<and>
      map_of fs' = (map_of fs)(keyPath \<mapsto> keyPEM, certPath \<mapsto> certPEM))"
proof (cases "fileExists certPath fs \<or> fileExists keyPath fs")
  case True
  with assms(1) show ?thesis
    by (auto simp: EnsureEmbeddedCertificate_def tx_simps Let_def split: if_splits)
next
  case False
  show ?thesis
  proof (cases "ke_generate ev (template_addresses publicHost)")
    case None
    with False assms(1) show ?thesis by (auto simp: EnsureEmbeddedCertificate_def tx_simps Let_def)
  next
    case (Some pems)
    obtain keyPEM certPEM where pems: "pems = (keyPEM, certPEM)" by force
    obtain r1 fs1 where w1: "writeExclusive ev keyPath keyPEM fs = (r1, fs1)" by force
    obtain r2 fs2 where w2: "writeExclusive ev certPath certPEM fs1 = (r2, fs2)" by force
    have none: "map_of fs keyPath = None" "map_of fs certPath = None" using False by (auto simp: fileExists_def)
    show ?thesis
      using assms False Some pems w1 w2 writeExclusive_cases [OF w1] writeExclusive_cases [OF w2] none
      by (auto simp: EnsureEmbeddedCertificate_def tx_simps Let_def fun_eq_iff split: if_splits sum.splits)
  qed
qed

text \<open>
  The embedded TLS identity is created whole, never overwritten and reused: whatever fails, a call
  changes no file that exists and leaves either both new files or none, so an installation in which
  certificate and key exist together stays so; and after a success every later call returns the same
  fingerprint and writes nothing, whatever host it is given.
\<close>

lemma embedded_identity_kept:
  assumes "EnsureEmbeddedCertificate ev certPath keyPath publicHost fs = (res, fs')" "certPath \<noteq> keyPath"
  shows "(\<forall>path. fileExists path fs \<longrightarrow> map_of fs' path = map_of fs path) \<and>
    (\<forall>path. fileExists path fs' \<longrightarrow> fileExists path fs \<or> path \<in> {certPath, keyPath}) \<and>
    (fileExists certPath fs = fileExists keyPath fs \<longrightarrow> fileExists certPath fs' = fileExists keyPath fs') \<and>
    (\<forall>fp host. res = Inr fp \<longrightarrow> EnsureEmbeddedCertificate ev certPath keyPath host fs' = (Inr fp, fs'))"
proof -
  have "EnsureEmbeddedCertificate ev certPath keyPath host fs' = (Inr fp, fs')" if "res = Inr fp" for fp host
  proof -
    have "fileExists certPath fs' \<and> fileExists keyPath fs'"
      using EnsureEmbeddedCertificate_files [OF assms] that assms(2) by (auto simp: fileExists_def)
    moreover have "ValidateTLSCertificatePair ev certPath keyPath fs' = Inr fp"
      using assms(1) that
      by (auto simp: EnsureEmbeddedCertificate_def tx_inv Let_def split: if_splits prod.splits)
        (metis surj_pair)
    ultimately show ?thesis by (simp add: EnsureEmbeddedCertificate_def tx_simps Let_def)
  qed
  with EnsureEmbeddedCertificate_files [OF assms] show ?thesis
    by (auto simp: fileExists_def split: if_splits)
qed

end
