(* ===== verification/Database.thy ===== *)
theory Database
  imports Store Session
begin

text \<open>
  The database file (\<open>internal/store/store.go\<close>): opening it, creating missing tables, and the migration
  of a file of the retired token-based pairing, which keeps a backup, the tenants and the audit
  trail. A file is the columns \<open>pragma table_info\<close> reports and the rows; an absent file has no
  tables. Driver calls fail as the argument \<open>flt\<close> says.
\<close>

record dbfile =
  df_columns :: "(string \<times> string list) list"
  df_rows :: db

type_synonym dbfiles = "(string \<times> dbfile) list"

definition db_file :: "string \<Rightarrow> dbfiles \<Rightarrow> dbfile" where
  "db_file path fs =
     (case map_of fs path of None \<Rightarrow> \<lparr>df_columns = [], df_rows = empty_db\<rparr> | Some f \<Rightarrow> f)"

definition update_file :: "string \<Rightarrow> (dbfile \<Rightarrow> dbfile) \<Rightarrow> (dbfiles, unit) tx" where
  "update_file path f = tx_exec ''sql'' (\<lambda>fs. Some ((), map_put path (f (db_file path fs)) fs))"

section \<open>Schema\<close>

definition schema_columns :: "(string \<times> string list) list" where
  "schema_columns =
    [(''tenants'', [''tenant_id'', ''display_name'', ''enabled'', ''secret_hash'', ''created_at'']),
     (''hosts'', [''tenant_id'', ''host_id'', ''display_name'', ''signing_public_key'', ''agreement_public_key'',
        ''key_version'', ''enabled'', ''revoked'', ''registered_at'', ''last_seen_at'']),
     (''devices'', [''tenant_id'', ''host_id'', ''device_id'', ''signing_public_key'', ''agreement_public_key'',
        ''key_version'', ''binding_version'', ''revoked'', ''approved_at'', ''last_seen_at'']),
     (''pairing_invites'', [''tenant_id'', ''host_id'', ''invite_id'', ''status'', ''created_at'', ''expires_at'',
        ''consumed_at'']),
     (''pairing_claims'', [''claim_id'', ''invite_id'', ''tenant_id'', ''host_id'', ''device_id'', ''header_json'',
        ''nonce'', ''ciphertext'', ''access_token_hash'', ''status'', ''device_signing_public_key'',
        ''device_agreement_public_key'', ''device_key_version'', ''binding_version'', ''approval_header'',
        ''approval_nonce'', ''approval_ciphertext'', ''created_at'', ''updated_at'', ''expires_at'',
        ''consumed_at'']),
     (''auth_challenges'', [''challenge_id'', ''challenge_hash'', ''protocol_version'', ''relay_fingerprint'',
        ''relay_signature'', ''subject_type'', ''subject_id'', ''tenant_id'', ''host_id'', ''device_id'',
        ''purpose'', ''issued_at'', ''expires_at'', ''consumed_at'']),
     (''auth_tickets'', [''ticket_hash'', ''subject_type'', ''subject_id'', ''tenant_id'', ''host_id'',
        ''device_id'', ''purpose'', ''issued_at'', ''expires_at'', ''consumed_at'']),
     (''audit_events'', [''id'', ''tenant_id'', ''event_type'', ''message'', ''created_at''])]"

text \<open>
  \<open>SchemaSQL\<close>: one statement per table, which creates it if it does not exist. Run outside a transaction, a
  statement that fails leaves the tables of those before it.
\<close>

definition create_table :: "string \<times> string list \<Rightarrow> dbfile \<Rightarrow> dbfile" where
  "create_table t f =
     (if fst t \<in> fst ` set (df_columns f) then f else f\<lparr>df_columns := df_columns f @ [t]\<rparr>)"

definition create_tables :: "dbfile \<Rightarrow> dbfile" where
  "create_tables = fold create_table schema_columns"

fun create_loop :: "faults \<Rightarrow> nat \<Rightarrow> string \<Rightarrow> (string \<times> string list) list \<Rightarrow> (dbfiles, unit) tx" where
  "create_loop flt n path [] = tx_ret ()"
| "create_loop flt n path (t # ts) =
     tx_bind (tx_call (flt n) ''sql'' (update_file path (create_table t))) (\<lambda>_. create_loop flt (Suc n) path ts)"

definition dropped_tables :: "string list" where
  "dropped_tables = [''pairing_claims'', ''auth_tickets'', ''auth_challenges'', ''pairing_invites'',
     ''devices'', ''hosts'']"

definition drop_tables :: "dbfile \<Rightarrow> dbfile" where
  "drop_tables f = \<lparr>df_columns = filter (\<lambda>t. fst t \<notin> set dropped_tables) (df_columns f),
     df_rows = (df_rows f)\<lparr>pairing_claims := [], auth_tickets := [], auth_challenges := [],
       pairing_invites := [], devices := [], hosts := []\<rparr>\<rparr>"

section \<open>Opening\<close>

definition table_has_column :: "string \<Rightarrow> string \<Rightarrow> dbfile \<Rightarrow> bool" where
  "table_has_column table column f =
     (case map_of (df_columns f) table of None \<Rightarrow> False | Some cs \<Rightarrow> column \<in> set cs)"

definition tableHasColumn :: "bool \<Rightarrow> string \<Rightarrow> string \<Rightarrow> string \<Rightarrow> (dbfiles, bool) tx" where
  "tableHasColumn fault path table column =
     tx_call fault ''sql'' (tx_query (\<lambda>fs. table_has_column table column (db_file path fs)))"

definition legacy_checks :: "(string \<times> string) list" where
  "legacy_checks = [(''hosts'', ''host_public_key''), (''devices'', ''device_public_key''),
     (''pairing_invites'', ''token_hash''), (''pairing_invites'', ''max_uses'')]"

fun legacy_loop :: "faults \<Rightarrow> nat \<Rightarrow> string \<Rightarrow> (string \<times> string) list \<Rightarrow> (dbfiles, bool) tx" where
  "legacy_loop flt n path [] = tx_ret False"
| "legacy_loop flt n path ((table, column) # checks) =
     tx_bind (tableHasColumn (flt n) path table column) (\<lambda>found.
       if found then tx_ret True else legacy_loop flt (Suc n) path checks)"

definition hasLegacySecureSchema :: "faults \<Rightarrow> string \<Rightarrow> (dbfiles, bool) tx" where
  "hasLegacySecureSchema flt path = legacy_loop flt 2 path legacy_checks"

definition backup_path :: "string \<Rightarrow> string" where
  "backup_path path = path @ ''.pre-secure-pairing.bak''"

text \<open>\<open>vacuum into\<close>: when it fails, it may leave an incomplete file.\<close>

definition incomplete_file :: dbfile where
  "incomplete_file = \<lparr>df_columns = [], df_rows = empty_db\<rparr>"

definition vacuum_into :: "faults \<Rightarrow> string \<Rightarrow> (dbfiles, unit) tx" where
  "vacuum_into flt path =
     (if flt 7 then
        tx_bind (if flt 30 then update_file (backup_path path) (\<lambda>_. incomplete_file) else tx_ret ()) (\<lambda>_. tx_fail ''sql'')
      else tx_exec ''sql'' (\<lambda>fs. Some ((), map_put (backup_path path) (db_file path fs) fs)))"

definition backupLegacySecureSchema :: "faults \<Rightarrow> string \<Rightarrow> (dbfiles, unit) tx" where
  "backupLegacySecureSchema flt path =
     tx_bind (tx_call (flt 6) ''stat'' (tx_query (\<lambda>fs. map_of fs (backup_path path) \<noteq> None))) (\<lambda>exists.
       if exists then tx_ret () else vacuum_into flt path)"

definition migrateLegacySecureSchema :: "faults \<Rightarrow> string \<Rightarrow> (dbfiles, unit) tx" where
  "migrateLegacySecureSchema flt path =
     tx_bind (hasLegacySecureSchema flt path) (\<lambda>legacy.
       if \<not> legacy then tx_ret ()
       else tx_bind (backupLegacySecureSchema flt path) (\<lambda>_.
         tx_bind (tx_call (flt 8) ''sql'' (tx_ret ())) (\<lambda>_.
         in_transaction (flt 9) (flt 12)
           (tx_bind (tx_call (flt 10) ''sql'' (update_file path drop_tables)) (\<lambda>_.
            create_loop flt 22 path schema_columns)))))"

text \<open>\<open>Open\<close>; the two pragmas change no data.\<close>

definition Open :: "faults \<Rightarrow> string \<Rightarrow> (dbfiles, unit) tx" where
  "Open flt path =
     tx_call (flt 0) ''sql'' (tx_call (flt 1) ''sql''
       (tx_bind (migrateLegacySecureSchema flt path) (\<lambda>_.
        tx_call (flt 13) ''sql'' (create_loop flt 14 path schema_columns))))"

section \<open>What opening does\<close>

definition legacy_schema :: "dbfile \<Rightarrow> bool" where
  "legacy_schema f = list_ex (\<lambda>(t, c). table_has_column t c f) legacy_checks"

definition migrated :: "dbfile \<Rightarrow> dbfile" where
  "migrated f = create_tables (if legacy_schema f then drop_tables f else f)"

lemma db_file_put [simp]: "db_file q (map_put p f fs) = (if q = p then f else db_file q fs)"
  by (simp add: db_file_def)

lemma map_of_filter_key: "P t \<Longrightarrow> map_of (filter (\<lambda>q. P (fst q)) m) t = map_of m t"
  by (induction m) auto

lemma create_table_rows [simp]: "df_rows (create_table t f) = df_rows f"
  by (simp add: create_table_def)

lemma fold_create_rows [simp]: "df_rows (fold create_table ts f) = df_rows f"
  by (induction ts arbitrary: f) simp_all

lemma fold_create_columns:
  "distinct (map fst ts) \<Longrightarrow>
   df_columns (fold create_table ts f) = df_columns f @ filter (\<lambda>t. fst t \<notin> fst ` set (df_columns f)) ts"
proof (induction ts arbitrary: f)
  case (Cons t ts)
  have "filter (\<lambda>u. fst u \<notin> fst ` set (df_columns (create_table t f))) ts = filter (\<lambda>u. fst u \<notin> fst ` set (df_columns f)) ts"
    using Cons.prems by (intro filter_cong) (auto simp: create_table_def image_iff)
  with Cons show ?case by (simp add: create_table_def)
qed simp

lemma schema_distinct: "distinct (map fst schema_columns)"
  by (simp add: schema_columns_def)

lemma create_tables_rows [simp]: "df_rows (create_tables f) = df_rows f"
  by (simp add: create_tables_def)

lemma create_tables_columns:
  "df_columns (create_tables f) = df_columns f @ filter (\<lambda>t. fst t \<notin> fst ` set (df_columns f)) schema_columns"
  by (simp add: create_tables_def fold_create_columns schema_distinct)

lemma create_table_present: "fst ` set ts \<subseteq> fst ` set (df_columns f) \<Longrightarrow> fold create_table ts f = f"
  by (induction ts arbitrary: f) (simp_all add: create_table_def)

text \<open>The statements of the schema, as far as they get.\<close>

lemma create_loop_run:
  "create_loop flt n path ts fs = (res, fs') \<Longrightarrow>
   (\<exists>k. db_file path fs' = fold create_table (take k ts) (db_file path fs)) \<and>
   (res = Inr () \<longrightarrow> db_file path fs' = fold create_table ts (db_file path fs)) \<and>
   (\<forall>q. q \<noteq> path \<longrightarrow> map_of fs' q = map_of fs q)"
proof (induction flt n path ts arbitrary: fs rule: create_loop.induct)
  case (2 flt n path t ts)
  show ?case
  proof (cases "flt n")
    case True
    with 2(2) show ?thesis by (auto simp: tx_simps intro: exI [of _ 0])
  next
    case False
    let ?fs = "map_put path (create_table t (db_file path fs)) fs"
    have "create_loop flt (Suc n) path ts ?fs = (res, fs')"
      using 2(2) False by (simp add: tx_simps update_file_def)
    from 2(1) [OF this] obtain k where "db_file path fs' = fold create_table (take (Suc k) (t # ts)) (db_file path fs)"
      "res = Inr () \<longrightarrow> db_file path fs' = fold create_table (t # ts) (db_file path fs)"
      "\<forall>q. q \<noteq> path \<longrightarrow> map_of fs' q = map_of fs q"
      by auto
    then show ?thesis by blast
  qed
qed (auto simp: tx_simps)

lemma create_loop_no_faults: "\<exists>fs'. create_loop no_faults n path ts fs = (Inr (), fs')"
  by (induction ts arbitrary: n fs) (simp_all add: tx_simps update_file_def)

lemma create_tables_known: "map_of (df_columns (create_tables f)) t =
    (case map_of (df_columns f) t of None \<Rightarrow> map_of schema_columns t | Some cs \<Rightarrow> Some cs)"
proof (cases "map_of (df_columns f) t")
  case None
  then have "map_of (filter (\<lambda>q. fst q \<notin> fst ` set (df_columns f)) schema_columns) t = map_of schema_columns t"
    using map_of_filter_key [of "\<lambda>k. k \<notin> fst ` set (df_columns f)"] by (simp add: map_of_eq_None_iff)
  with None show ?thesis by (simp add: create_tables_columns map_add_def)
next
  case (Some cs)
  then have "map_of (filter (\<lambda>q. fst q \<notin> fst ` set (df_columns f)) schema_columns) t = None"
    by (auto simp: map_of_eq_None_iff dest!: map_of_SomeD) (metis fst_conv image_eqI)
  with Some show ?thesis by (simp add: create_tables_columns map_add_def)
qed

lemma legacy_after_create: "legacy_schema (create_tables f) = legacy_schema f"
  by (simp add: legacy_schema_def legacy_checks_def table_has_column_def create_tables_known
      schema_columns_def split: option.splits)

lemma legacy_after_drop: "\<not> legacy_schema (drop_tables f)"
proof -
  have "map_of (df_columns (drop_tables f)) t = None" if "t \<in> set dropped_tables" for t
    using that by (auto simp: map_of_eq_None_iff drop_tables_def)
  then show ?thesis
    by (simp add: legacy_schema_def legacy_checks_def table_has_column_def dropped_tables_def)
qed

lemma not_legacy_migrated: "\<not> legacy_schema (migrated f)"
  by (simp add: migrated_def legacy_after_create legacy_after_drop)

lemma schema_created: "fst ` set schema_columns \<subseteq> fst ` set (df_columns (create_tables f))"
  by (auto simp: create_tables_columns)

lemma create_tables_again: "fold create_table (take k schema_columns) (create_tables f) = create_tables f"
  "create_tables (create_tables f) = create_tables f"
proof -
  have "fst ` set ts \<subseteq> fst ` set (df_columns (create_tables f))" if "set ts \<subseteq> set schema_columns" for ts
    using that schema_created [of f] by (meson image_mono subset_trans)
  then show "fold create_table (take k schema_columns) (create_tables f) = create_tables f"
    "create_tables (create_tables f) = create_tables f"
    unfolding create_tables_def [THEN fun_cong, of "create_tables f"]
    by (simp_all add: create_table_present set_take_subset)
qed

lemma migrated_again: "migrated (migrated f) = migrated f"
  using not_legacy_migrated [of f] by (simp add: migrated_def create_tables_again)

lemma legacy_loop_run:
  "legacy_loop flt n path cs fs = (Inr b, fs') \<Longrightarrow>
     fs' = fs \<and> b = list_ex (\<lambda>(t, c). table_has_column t c (db_file path fs)) cs"
  by (induction flt n path cs rule: legacy_loop.induct)
    (auto simp: tableHasColumn_def tx_inv split: if_splits)

lemma legacy_loop_err: "legacy_loop flt n path cs fs = (Inl e, fs') \<Longrightarrow> fs' = fs"
  by (induction flt n path cs rule: legacy_loop.induct)
    (auto simp: tableHasColumn_def tx_inv tx_err split: if_splits)

lemma backup_path_neq [simp]: "backup_path path \<noteq> path" "path \<noteq> backup_path path"
  by (simp_all add: backup_path_def)

lemma backup_effect:
  "backupLegacySecureSchema flt path fs = (res, fs') \<Longrightarrow>
   fs' = fs \<and> (res = Inr () \<longrightarrow> map_of fs (backup_path path) \<noteq> None) \<or>
   map_of fs (backup_path path) = None \<and> fs' = map_put (backup_path path) (db_file path fs) fs \<or>
   map_of fs (backup_path path) = None \<and> fs' = map_put (backup_path path) incomplete_file fs \<and> res \<noteq> Inr ()"
  by (auto simp: backupLegacySecureSchema_def vacuum_into_def update_file_def tx_simps split: if_splits)

definition backup_taken :: "string \<Rightarrow> dbfiles \<Rightarrow> dbfiles \<Rightarrow> bool" where
  "backup_taken path fs fs' \<longleftrightarrow>
     map_of fs' (backup_path path) =
       Some (case map_of fs (backup_path path) of None \<Rightarrow> db_file path fs | Some b \<Rightarrow> b)"

definition only_files :: "string set \<Rightarrow> dbfiles \<Rightarrow> dbfiles \<Rightarrow> bool" where
  "only_files P fs fs' \<longleftrightarrow> (\<forall>q. q \<notin> P \<longrightarrow> map_of fs' q = map_of fs q)"

lemma drop_create_effect:
  assumes "in_transaction a b (tx_bind (tx_call c ''sql'' (update_file path drop_tables))
      (\<lambda>_. create_loop flt n path schema_columns)) fs = (res, fs')"
  shows "fs' = fs \<and> res \<noteq> Inr () \<or>
    db_file path fs' = create_tables (drop_tables (db_file path fs)) \<and> (\<forall>q. q \<noteq> path \<longrightarrow> map_of fs' q = map_of fs q)"
proof -
  let ?fs = "map_put path (drop_tables (db_file path fs)) fs"
  obtain rc fs1 where loop: "create_loop flt n path schema_columns ?fs = (rc, fs1)" by force
  have "fs' = fs \<and> res \<noteq> Inr () \<or> rc = Inr () \<and> fs' = fs1"
    using assms loop by (cases rc) (auto simp: in_transaction_def update_file_def tx_simps split: if_splits)
  with create_loop_run [OF loop] show ?thesis by (auto simp: create_tables_def)
qed

lemma migrate_effect:
  assumes "migrateLegacySecureSchema flt path fs = (res, fs')"
  shows "only_files {path, backup_path path} fs fs'"
    and "db_file path fs' = db_file path fs \<and> (res = Inr () \<longrightarrow> \<not> legacy_schema (db_file path fs)) \<or>
      legacy_schema (db_file path fs) \<and> db_file path fs' = migrated (db_file path fs) \<and> backup_taken path fs fs'"
proof -
  let ?f = "db_file path fs"
  have "only_files {path, backup_path path} fs fs' \<and>
     (db_file path fs' = ?f \<and> (res = Inr () \<longrightarrow> \<not> legacy_schema ?f) \<or>
      legacy_schema ?f \<and> db_file path fs' = migrated ?f \<and> backup_taken path fs fs')"
  proof (cases "hasLegacySecureSchema flt path fs")
    case (Pair r fs1)
    show ?thesis
    proof (cases r)
      case (Inl e)
      with Pair have "fs1 = fs" by (auto simp: hasLegacySecureSchema_def dest: legacy_loop_err)
      with Pair Inl assms show ?thesis
        by (auto simp: migrateLegacySecureSchema_def tx_simps only_files_def)
    next
      case (Inr b)
      with Pair have fs1: "fs1 = fs" and b: "b = legacy_schema ?f"
        by (auto simp: hasLegacySecureSchema_def legacy_schema_def dest: legacy_loop_run)
      show ?thesis
      proof (cases b)
        case False
        with Pair Inr fs1 b assms show ?thesis
          by (auto simp: migrateLegacySecureSchema_def tx_simps only_files_def)
      next
        case True
        obtain rb fs2 where bk: "backupLegacySecureSchema flt path fs = (rb, fs2)" by force
        have fs2: "db_file path fs2 = ?f" "only_files {path, backup_path path} fs fs2"
          "rb = Inr () \<longrightarrow> backup_taken path fs fs2"
          using backup_effect [OF bk] by (auto simp: only_files_def backup_taken_def)
        obtain rt fs3 where tx: "in_transaction (flt 9) (flt 12) (tx_bind (tx_call (flt 10) ''sql'' (update_file path drop_tables))
            (\<lambda>_. create_loop flt 22 path schema_columns)) fs2 = (rt, fs3)" by force
        have "fs' = fs2 \<and> res \<noteq> Inr () \<or> rb = Inr () \<and> fs' = fs3 \<and> res = rt"
          using assms Pair Inr fs1 b True bk tx
          by (cases rb) (auto simp: migrateLegacySecureSchema_def tx_simps split: if_splits)
        with drop_create_effect [OF tx] fs2 b True show ?thesis
          by (auto simp: only_files_def backup_taken_def migrated_def)
      qed
    qed
  qed
  then show "only_files {path, backup_path path} fs fs'"
    and "db_file path fs' = ?f \<and> (res = Inr () \<longrightarrow> \<not> legacy_schema ?f) \<or>
      legacy_schema ?f \<and> db_file path fs' = migrated ?f \<and> backup_taken path fs fs'"
    by blast+
qed

text \<open>Without faults opening succeeds.\<close>

lemma legacy_loop_clean: "(\<And>i. i < n + length cs \<Longrightarrow> \<not> flt i) \<Longrightarrow> \<exists>b. legacy_loop flt n path cs fs = (Inr b, fs)"
  by (induction cs arbitrary: n) (auto simp: tableHasColumn_def tx_simps)

lemma legacy_loop_no_faults: "\<exists>b. legacy_loop no_faults n path cs fs = (Inr b, fs)"
  by (rule legacy_loop_clean) simp

lemma Open_no_faults: "\<exists>fs'. Open no_faults path fs = (Inr (), fs')"
proof -
  obtain b where b: "hasLegacySecureSchema no_faults path fs = (Inr b, fs)"
    using legacy_loop_no_faults by (metis hasLegacySecureSchema_def)
  obtain fs1 where "migrateLegacySecureSchema no_faults path fs = (Inr (), fs1)"
  proof (cases b)
    case True
    have "\<exists>fs2. backupLegacySecureSchema no_faults path fs = (Inr (), fs2)"
      by (cases "map_of fs (backup_path path)") (simp_all add: backupLegacySecureSchema_def vacuum_into_def tx_simps)
    then obtain fs2 where bk: "backupLegacySecureSchema no_faults path fs = (Inr (), fs2)" by blast
    obtain fs3 where "create_loop no_faults 22 path schema_columns (map_put path (drop_tables (db_file path fs2)) fs2) = (Inr (), fs3)"
      using create_loop_no_faults by blast
    with True b bk show thesis
      by (intro that) (simp add: migrateLegacySecureSchema_def update_file_def in_transaction_def tx_simps)
  qed (use b that in \<open>simp add: migrateLegacySecureSchema_def tx_simps\<close>)
  then show ?thesis using create_loop_no_faults [of 14 path schema_columns fs1] by (simp add: Open_def tx_simps)
qed

text \<open>
  Opening: on success the file is migrated, with a backup if it was of the retired schema; on failure it
  may be migrated, or some of its missing tables are created.
\<close>

lemma Open_effect:
  assumes "Open flt path fs = (res, fs')"
  shows "only_files {path, backup_path path} fs fs'"
    and "(\<exists>k. db_file path fs' = fold create_table (take k schema_columns) (db_file path fs)) \<and> res \<noteq> Inr () \<or>
      db_file path fs' = migrated (db_file path fs) \<and>
      (legacy_schema (db_file path fs) \<longrightarrow> backup_taken path fs fs')"
proof -
  let ?f = "db_file path fs"
  obtain rm fs1 where mig: "migrateLegacySecureSchema flt path fs = (rm, fs1)" by force
  obtain rc fs2 where loop: "create_loop flt 14 path schema_columns fs1 = (rc, fs2)" by force
  note eff = migrate_effect [OF mig] and run = create_loop_run [OF loop]
  have "fs' = fs \<and> res \<noteq> Inr () \<or> fs' = fs1 \<and> res \<noteq> Inr () \<or> rm = Inr () \<and> fs' = fs2 \<and> res = rc"
    using assms mig loop by (cases rm) (auto simp: Open_def tx_simps split: if_splits)
  then consider "fs' = fs" "res \<noteq> Inr ()" | "fs' = fs1" "res \<noteq> Inr ()" | "rm = Inr ()" "fs' = fs2" "res = rc" by blast
  then have "only_files {path, backup_path path} fs fs' \<and>
    ((\<exists>k. db_file path fs' = fold create_table (take k schema_columns) ?f) \<and> res \<noteq> Inr () \<or>
      db_file path fs' = migrated ?f \<and> (legacy_schema ?f \<longrightarrow> backup_taken path fs fs'))"
  proof cases
    case 1
    then show ?thesis by (auto simp: only_files_def intro!: exI [of _ 0])
  next
    case 2
    with eff show ?thesis by (auto intro!: exI [of _ 0])
  next
    case 3
    have files: "only_files {path, backup_path path} fs fs'" "backup_taken path fs fs1 \<longrightarrow> backup_taken path fs fs'"
      using eff(1) run 3(2) by (auto simp: only_files_def backup_taken_def)
    from eff(2) 3(1) consider "db_file path fs1 = ?f" "\<not> legacy_schema ?f"
      | "legacy_schema ?f" "db_file path fs1 = migrated ?f" "backup_taken path fs fs1" by blast
    then show ?thesis
    proof cases
      case 1
      with files run 3 show ?thesis by (cases "res = Inr ()") (auto simp: migrated_def create_tables_def)
    next
      case 2
      from run obtain k where "db_file path fs2 = fold create_table (take k schema_columns) (migrated ?f)"
        using 2(2) by auto
      with 2 files 3(2) show ?thesis by (simp add: migrated_def create_tables_again)
    qed
  qed
  then show "only_files {path, backup_path path} fs fs'"
    and "(\<exists>k. db_file path fs' = fold create_table (take k schema_columns) ?f) \<and> res \<noteq> Inr () \<or>
      db_file path fs' = migrated ?f \<and> (legacy_schema ?f \<longrightarrow> backup_taken path fs fs')"
    by blast+
qed

lemma migrated_rows:
  "tenants (df_rows (migrated f)) = tenants (df_rows f)"
  "audit_events (df_rows (migrated f)) = audit_events (df_rows f)"
  "\<not> legacy_schema f \<Longrightarrow> df_rows (migrated f) = df_rows f"
  "fst ` set schema_columns \<subseteq> fst ` set (df_columns (migrated f))"
  using schema_created by (auto simp: migrated_def drop_tables_def)

lemma migrated_inv: "db_inv (df_rows f) \<Longrightarrow> db_inv (df_rows (migrated f))"
  by (auto simp: migrated_def drop_tables_def db_inv_defs)

text \<open>
  A \<open>vacuum into\<close> that fails after it has created the file: the next opening takes that file for the backup
  and drops the retired tables, so that their rows are nowhere any more.
\<close>

lemma interrupted_backup_kept:
  assumes "legacy_schema (db_file path fs)" "map_of fs (backup_path path) = None"
  shows "\<exists>fs1 fs2. Open (\<lambda>i. i = 7 \<or> i = 30) path fs = (Inl ''sql'', fs1) \<and> Open no_faults path fs1 = (Inr (), fs2) \<and>
    map_of fs2 (backup_path path) = Some incomplete_file \<and> hosts (df_rows (db_file path fs2)) = []"
proof -
  let ?flt = "\<lambda>i::nat. i = 7 \<or> i = 30" and ?fs = "map_put (backup_path path) incomplete_file fs"
  obtain b where b: "hasLegacySecureSchema ?flt path fs = (Inr b, fs)"
    using legacy_loop_clean [of 2 legacy_checks ?flt] by (auto simp: hasLegacySecureSchema_def legacy_checks_def)
  with assms(1) have "b" using legacy_loop_run by (auto simp: hasLegacySecureSchema_def legacy_schema_def)
  with b assms(2) have "Open ?flt path fs = (Inl ''sql'', ?fs)"
    by (simp add: Open_def migrateLegacySecureSchema_def backupLegacySecureSchema_def vacuum_into_def update_file_def tx_simps)
  moreover obtain fs2 where op: "Open no_faults path ?fs = (Inr (), fs2)" using Open_no_faults by blast
  moreover have "db_file path fs2 = migrated (db_file path fs)" "backup_taken path ?fs fs2"
    using Open_effect(2) [OF op] assms(1) by auto
  ultimately show ?thesis using assms(1) by (auto simp: backup_taken_def migrated_def drop_tables_def)
qed

text \<open>
  C36: Opening the database never loses a tenant or an audit event and never breaks the integrity of
  the rows, whatever fails; other data goes only when the file has the retired schema, and then only with
  a backup on disk (of this file, unless a file of that name was there before, which a failed attempt
  may have left incomplete); no other file is touched. After a successful opening every table is there,
  none is of the retired schema, and opening again changes nothing.
\<close>

theorem Open_keeps_tenants:
  assumes "Open flt path fs = (res, fs')"
  defines "f \<equiv> db_file path fs" and "f' \<equiv> db_file path fs'"
  shows "tenants (df_rows f') = tenants (df_rows f) \<and> audit_events (df_rows f') = audit_events (df_rows f) \<and>
    (db_inv (df_rows f) \<longrightarrow> db_inv (df_rows f')) \<and>
    (df_rows f' \<noteq> df_rows f \<longrightarrow> legacy_schema f \<and>
       map_of fs' (backup_path path) =
         Some (case map_of fs (backup_path path) of None \<Rightarrow> f | Some b \<Rightarrow> b)) \<and>
    (\<forall>q. q \<notin> {path, backup_path path} \<longrightarrow> map_of fs' q = map_of fs q) \<and>
    (res = Inr () \<longrightarrow> \<not> legacy_schema f' \<and> fst ` set schema_columns \<subseteq> fst ` set (df_columns f') \<and>
       (\<forall>flt' res' fs''. Open flt' path fs' = (res', fs'') \<longrightarrow> db_file path fs'' = f'))"
proof -
  note eff = Open_effect [OF assms(1), folded f_def f'_def]
  have again: "db_file path fs'' = f'" if "f' = migrated f" "Open flt' path fs' = (res', fs'')" for flt' res' fs''
    using Open_effect(2) [OF that(2)] that(1) by (auto simp: f'_def [symmetric] migrated_again)
      (simp_all add: migrated_def create_tables_again)
  from eff(2) consider k where "f' = fold create_table (take k schema_columns) f" "res \<noteq> Inr ()" | "f' = migrated f" "legacy_schema f \<longrightarrow> backup_taken path fs fs'"
    by blast
  then show ?thesis
  proof cases
    case 1
    with eff(1) show ?thesis by (auto simp: only_files_def)
  next
    case 2
    with eff(1) again migrated_rows [of f] migrated_inv [of f] not_legacy_migrated [of f] show ?thesis
      by (auto simp: only_files_def backup_taken_def f_def [symmetric] split: option.splits)
  qed
qed

end
