(* ===== verification/Listeners.thy ===== *)
theory Listeners
  imports Config Server
begin

text \<open>
  Starting and stopping the server (\<open>internal/relay/server.go\<close>): the checks of \<open>Serve\<close>, the listeners it
  opens and whether they carry TLS, and how the outcomes of serving combine.
  The outcomes of \<open>LoadOrCreateRelayIdentity\<close>, \<open>tls.LoadX509KeyPair\<close> and \<open>net.Listen\<close> are an environment.
\<close>

record listen_env =
  le_load :: "signer result"
  le_certificate :: "string \<Rightarrow> string \<Rightarrow> bool"
  le_listen :: "string \<Rightarrow> bool"

record listener =
  ln_address :: string
  ln_tls :: "(string \<times> string) option"

definition buildTLSConfig :: "listen_env \<Rightarrow> config \<Rightarrow> (string \<times> string) option result" where
  "buildTLSConfig ev cfg =
     (let tls = cf_TLS cfg in
      if \<not> tl_Enabled tls then Inr None
      else if le_certificate ev (tl_CertFile tls) (tl_KeyFile tls) then Inr (Some (tl_CertFile tls, tl_KeyFile tls))
      else Inl ''load TLS certificate'')"

text \<open>
  \<open>net.Listen\<close> and \<open>Close\<close>, on the listeners that are open. \<open>Serve\<close> up to the point where it serves: the listeners,
  the public one first, or an error; when the internal one can not be opened, the public one is closed.
\<close>

definition net_listen :: "listen_env \<Rightarrow> string \<Rightarrow> listener \<Rightarrow> (listener list, unit) tx" where
  "net_listen ev e l = tx_exec e (\<lambda>held. if le_listen ev (ln_address l) then Some ((), held @ [l]) else None)"

definition close_listener :: "listener \<Rightarrow> (listener list, unit) tx" where
  "close_listener l = (\<lambda>held. (Inr (), remove1 l held))"

definition open_listeners :: "listen_env \<Rightarrow> config \<Rightarrow> (listener list, listener list) tx" where
  "open_listeners ev cfg =
     tx_bind (tx_lift (buildTLSConfig ev cfg)) (\<lambda>tls.
     case ValidateInternalListener cfg of
       Some e \<Rightarrow> tx_fail e
     | None \<Rightarrow>
         if cf_InternalListenHost cfg \<noteq> [] \<and> \<not> tl_Enabled (cf_TLS cfg) then
           tx_fail ''internal listener requires public TLS''
         else
           let publicListener = \<lparr>ln_address = JoinHostPort (cf_ListenHost cfg) (Itoa (cf_ListenPort cfg)), ln_tls = tls\<rparr>;
               internalListener = \<lparr>ln_address = JoinHostPort (cf_InternalListenHost cfg) (Itoa (cf_InternalListenPort cfg)),
                 ln_tls = None\<rparr> in
           tx_bind (net_listen ev ''public listener'' publicListener) (\<lambda>_.
           if cf_InternalListenHost cfg = [] \<or> cf_InternalListenPort cfg = 0 then tx_ret [publicListener]
           else tx_bind (tx_catch (net_listen ev ''internal listener'' internalListener)
                  (tx_bind (close_listener publicListener) (\<lambda>_. tx_fail ''internal listener''))) (\<lambda>_.
             tx_ret [publicListener, internalListener])))"

text \<open>The result, the listeners that are open, and the server.\<close>

definition Serve :: "listen_env \<Rightarrow> config \<Rightarrow> server \<Rightarrow> listener list result \<times> listener list \<times> server" where
  "Serve ev cfg s =
     (case ensureAuth (le_load ev) s of
        (Some _, s1) \<Rightarrow> (Inl ''initialize Relay identity'', [], s1)
      | (None, s1) \<Rightarrow> (case open_listeners ev cfg [] of (res, held) \<Rightarrow> (res, held, s1)))"

text \<open>The end of \<open>serve\<close>, from what the HTTP server and the shutdown return, and of \<open>serveBoth\<close>.\<close>

definition serve_result :: "string option \<Rightarrow> string option \<Rightarrow> string option" where
  "serve_result err shutdownErr =
     (if err \<noteq> None \<and> err \<noteq> Some ''http: Server closed'' then err else shutdownErr)"

definition serveBoth_result :: "string option \<Rightarrow> string option \<Rightarrow> string option" where
  "serveBoth_result first second = (if first \<noteq> None then first else second)"

section \<open>Which listeners are opened\<close>

lemma accepted_internal_host:
  assumes "ValidateInternalListener cfg = None" "TrimSpace (cf_InternalListenHost cfg) \<noteq> []"
  shows "EqualFold (TrimSpace (cf_InternalListenHost cfg)) ''localhost'' \<or>
      (\<exists>ip. ParseIP (TrimSpace (cf_InternalListenHost cfg)) = Some ip \<and> IsLoopback ip)"
    and "0 < cf_InternalListenPort cfg" "cf_InternalListenPort cfg \<le> 65535"
    "cf_InternalListenPort cfg \<noteq> cf_ListenPort cfg"
  using assms by (auto simp: ValidateInternalListener_def Let_def split: if_splits option.splits)

text \<open>Either an error and no listener is left, or the listeners returned are the open ones.\<close>

lemma open_listeners_result:
  assumes "open_listeners ev cfg [] = (res, held)"
  obtains e where "res = Inl e" "held = []"
  | tls where "buildTLSConfig ev cfg = Inr tls" "ValidateInternalListener cfg = None" "res = Inr held"
    "held = [\<lparr>ln_address = JoinHostPort (cf_ListenHost cfg) (Itoa (cf_ListenPort cfg)), ln_tls = tls\<rparr>] \<or>
      tl_Enabled (cf_TLS cfg) \<and> cf_InternalListenHost cfg \<noteq> [] \<and> cf_InternalListenPort cfg \<noteq> 0 \<and>
      held = [\<lparr>ln_address = JoinHostPort (cf_ListenHost cfg) (Itoa (cf_ListenPort cfg)), ln_tls = tls\<rparr>,
        \<lparr>ln_address = JoinHostPort (cf_InternalListenHost cfg) (Itoa (cf_InternalListenPort cfg)), ln_tls = None\<rparr>]"
proof (cases "buildTLSConfig ev cfg")
  case (Inl e)
  with assms show thesis by (intro that(1)) (auto simp: open_listeners_def tx_bind_def tx_lift_def)
next
  case (Inr tls)
  with assms show thesis
    by (cases "ValidateInternalListener cfg")
      (auto simp: open_listeners_def tx_bind_def tx_lift_def tx_fail_def tx_ret_def tx_catch_def tx_exec_def
        net_listen_def close_listener_def Let_def split: if_splits intro: that)
qed

text \<open>
  C35: The relay opens at most two listeners. The public one is at the configured address and has TLS
  exactly when the configuration enables it; a second one, without TLS, is opened only when the public
  one has TLS, on another port, and on \<open>localhost\<close> or a loopback address: a dotted quad only when it
  starts with 127. The listeners it serves on are the ones that are open; after an error none is.
\<close>

theorem Serve_listeners:
  assumes "Serve ev cfg s = (res, held, s')"
  shows "(\<forall>e. res = Inl e \<longrightarrow> held = []) \<and>
   (\<forall>ls. res = Inr ls \<longrightarrow> held = ls \<and> (\<exists>pub rest. ls = pub # rest \<and>
    ln_address pub = JoinHostPort (cf_ListenHost cfg) (Itoa (cf_ListenPort cfg)) \<and>
    (ln_tls pub \<noteq> None \<longleftrightarrow> tl_Enabled (cf_TLS cfg)) \<and>
    (rest \<noteq> [] \<longrightarrow>
      (let host = cf_InternalListenHost cfg; port = cf_InternalListenPort cfg in
       rest = [\<lparr>ln_address = JoinHostPort host (Itoa port), ln_tls = None\<rparr>] \<and> ln_tls pub \<noteq> None \<and>
       0 < port \<and> port \<le> 65535 \<and> port \<noteq> cf_ListenPort cfg \<and>
       (EqualFold (TrimSpace host) ''localhost'' \<or> (\<exists>ip. ParseIP (TrimSpace host) = Some ip \<and> IsLoopback ip)) \<and>
       (\<forall>a b c d. (\<forall>n\<in>{a, b, c, d}. 0 \<le> n \<and> n \<le> 255) \<longrightarrow> TrimSpace host = quad [a, b, c, d] \<longrightarrow> a = 127)))))"
proof -
  obtain err s1 where auth: "ensureAuth (le_load ev) s = (err, s1)" by force
  obtain res1 held1 where run: "open_listeners ev cfg [] = (res1, held1)" by force
  from run show ?thesis
  proof (cases rule: open_listeners_result)
    case 1
    with assms auth run show ?thesis by (cases err) (auto simp: Serve_def)
  next
    case (2 tls)
    have "tls \<noteq> None \<longleftrightarrow> tl_Enabled (cf_TLS cfg)"
      using 2(1) by (auto simp: buildTLSConfig_def Let_def split: if_splits)
    moreover have "TrimSpace (cf_InternalListenHost cfg) \<noteq> []" if "cf_InternalListenPort cfg \<noteq> 0"
      using 2(2) that by (auto simp: ValidateInternalListener_def Let_def split: if_splits)
    moreover have "(\<exists>e. res = Inl e) \<and> held = [] \<or> res = Inr held1 \<and> held = held1"
      using assms auth run 2(3) by (cases err) (auto simp: Serve_def)
    ultimately show ?thesis
      using 2(4) accepted_internal_host [OF 2(2)] internal_listener_quad [of _ _ _ _ cfg] 2(2)
      by (auto simp: Let_def)
  qed
qed

end
