(* ===== verification/Cli.thy ===== *)
theory Cli
  imports Certificates Database Listeners
begin

text \<open>
  The command line (\<open>internal/cli\<close>): the parsing of flags, every command, and what it prints on standard
  output. The world holds configuration files, as the value they were written from, databases and the
  PEM files, by path; a path names one file and paths are Unix paths. What the operating system
  answers is an environment. Messages on standard error are not modelled, the exit code is; a JSON
  object on standard output is the record that is printed.
\<close>

section \<open>Flags\<close>

text \<open>\<open>strconv.ParseBool\<close>\<close>

definition ParseBool :: "string \<Rightarrow> bool option" where
  "ParseBool s =
     (if s \<in> set [''1'', ''t'', ''T'', ''TRUE'', ''true'', ''True''] then Some True
      else if s \<in> set [''0'', ''f'', ''F'', ''FALSE'', ''false'', ''False''] then Some False
      else None)"

datatype flag_kind = StringFlag | BoolFlag

type_synonym flags = "(string \<times> string) list"

text \<open>A flag's name and the value after the first equals sign that does not start the name.\<close>

definition split_flag :: "string \<Rightarrow> string \<times> string option" where
  "split_flag name =
     (let rest = dropWhile (\<lambda>c. c \<noteq> CHR ''='') (tl name) in
      if rest = [] then (name, None)
      else (hd name # takeWhile (\<lambda>c. c \<noteq> CHR ''='') (tl name), Some (tl rest)))"

text \<open>
  \<open>flag.FlagSet.Parse\<close>: the values set, the last one counting, or \<open>None\<close> for an error. Parsing stops at the
  first argument that is not a flag.
\<close>

fun parse_flags :: "(string \<times> flag_kind) list \<Rightarrow> string list \<Rightarrow> flags \<Rightarrow> flags option" where
  "parse_flags spec [] acc = Some acc"
| "parse_flags spec (s # args) acc =
     (if length s < 2 \<or> hd s \<noteq> CHR ''-'' \<or> s = ''--'' then Some acc
      else
        let name0 = drop (if s ! 1 = CHR ''-'' then 2 else 1) s in
        if name0 = [] \<or> hd name0 = CHR ''-'' \<or> hd name0 = CHR ''='' then None
        else case split_flag name0 of (name, val) \<Rightarrow>
        (case map_of spec name of
           None \<Rightarrow> None
         | Some BoolFlag \<Rightarrow>
             (case ParseBool (case val of None \<Rightarrow> ''true'' | Some v \<Rightarrow> v) of
                None \<Rightarrow> None
              | Some b \<Rightarrow> parse_flags spec args (map_put name (if b then ''true'' else ''false'') acc))
         | Some StringFlag \<Rightarrow>
             (case val of
                Some v \<Rightarrow> parse_flags spec args (map_put name v acc)
              | None \<Rightarrow>
                  (case args of
                     [] \<Rightarrow> None
                   | v # rest \<Rightarrow> parse_flags spec rest (map_put name v acc)))))"

definition flag_value :: "flags \<Rightarrow> string \<Rightarrow> string \<Rightarrow> string" where
  "flag_value fl name def = (case map_of fl name of None \<Rightarrow> def | Some v \<Rightarrow> v)"

definition flag_set :: "flags \<Rightarrow> string \<Rightarrow> bool" where
  "flag_set fl name = (flag_value fl name ''false'' = ''true'')"

section \<open>World and output\<close>

record local_secret_output =
  lso_TenantID :: string
  lso_Value :: string
  lso_Source :: string

record local_tenant_output =
  lto_TenantID :: string
  lto_DisplayName :: string
  lto_Enabled :: bool

record local_info_output =
  li_Version :: string
  li_ConfigPath :: string
  li_StatePath :: string
  li_ListenHost :: string
  li_ListenPort :: int
  li_InternalListenHost :: string
  li_InternalListenPort :: int
  li_InternalTLSRequired :: bool
  li_InternalRelayURL :: string
  li_InternalHealthURL :: string
  li_PublicHost :: string
  li_PublicPort :: int
  li_ListenerTLSRequired :: bool
  li_TLSRequired :: bool
  li_CertificatePath :: string
  li_CertificateSHA256 :: string
  li_RelayHost :: string
  li_RelayPort :: int
  li_RelayURL :: string
  li_HealthURL :: string
  li_Tenants :: "local_tenant_output list"
  li_Secret :: "local_secret_output option"

datatype out_item = Line string | InfoJSON local_info_output

record world =
  wd_configs :: "(string \<times> config) list"
  wd_stores :: dbfiles
  wd_pems :: pem_files

record cli_env =
  ce_Version :: string
  ce_mkdir :: "string \<Rightarrow> bool"
  ce_write :: "string \<Rightarrow> bool"
  ce_abs :: "string \<Rightarrow> string option"
  ce_cert :: cert_env
  ce_open :: faults
  ce_cancelled :: bool
  ce_listen :: listen_env
  ce_serving :: "listener list \<Rightarrow> db \<Rightarrow> string option \<times> db"
  ce_crypto :: crypto
  ce_rand :: "nat \<Rightarrow> rand"
  ce_now :: int
  ce_flt :: "nat \<Rightarrow> faults"

type_synonym outcome = "int \<times> out_item list \<times> world"

definition fail_code :: "int \<Rightarrow> world \<Rightarrow> outcome" where
  "fail_code code w = (code, [], w)"

definition bool_text :: "bool \<Rightarrow> string" where
  "bool_text b = (if b then ''true'' else ''false'')"

text \<open>
  \<open>config.Save\<close> and \<open>config.Load\<close>: a string comes back as JSON prints and reads it, so bytes that
  are not UTF-8 are replaced. \<open>Load\<close> fails on a missing file.
\<close>

definition json_copy :: "string \<Rightarrow> string" where
  "json_copy s = (case unmarshal_string (json_quote s) of None \<Rightarrow> s | Some t \<Rightarrow> t)"

definition Load :: "string \<Rightarrow> world \<Rightarrow> config option" where
  "Load path w = map_option (\<lambda>cfg. cfg\<lparr>cf_ListenHost := json_copy (cf_ListenHost cfg),
      cf_InternalListenHost := json_copy (cf_InternalListenHost cfg),
      cf_PublicHost := json_copy (cf_PublicHost cfg), cf_StatePath := json_copy (cf_StatePath cfg),
      cf_TLS := (cf_TLS cfg)\<lparr>tl_CertFile := json_copy (tl_CertFile (cf_TLS cfg)),
        tl_KeyFile := json_copy (tl_KeyFile (cf_TLS cfg))\<rparr>\<rparr>) (map_of (wd_configs w) path)"

definition Save :: "string \<Rightarrow> config \<Rightarrow> world \<Rightarrow> world" where
  "Save path cfg w = w\<lparr>wd_configs := map_put path cfg (wd_configs w)\<rparr>"

text \<open>A service operation on the database at a path.\<close>

definition on_db :: "string \<Rightarrow> (db, 'a) tx \<Rightarrow> world \<Rightarrow> 'a result \<times> world" where
  "on_db path m w =
     (let f = db_file path (wd_stores w) in
      case m (df_rows f) of (r, d) \<Rightarrow> (r, w\<lparr>wd_stores := map_put path (f\<lparr>df_rows := d\<rparr>) (wd_stores w)\<rparr>))"

section \<open>Paths\<close>

text \<open>\<open>filepath.Clean\<close>, \<open>Dir\<close> and \<open>Join\<close>.\<close>

definition clean_step :: "bool \<Rightarrow> string list \<Rightarrow> string \<Rightarrow> string list" where
  "clean_step rooted acc c =
     (if c = [] \<or> c = ''.'' then acc
      else if c = ''..'' then
        (if acc \<noteq> [] \<and> last acc \<noteq> ''..'' then butlast acc
         else if rooted then acc else acc @ [c])
      else acc @ [c])"

definition Clean :: "string \<Rightarrow> string" where
  "Clean path =
     (let rooted = (path \<noteq> [] \<and> hd path = CHR ''/'');
          body = Join CHR ''/'' (foldl (clean_step rooted) [] (Split CHR ''/'' path))
      in if rooted then CHR ''/'' # body else if body = [] then ''.'' else body)"

definition Dir :: "string \<Rightarrow> string" where
  "Dir path = Clean (rev (dropWhile (\<lambda>c. c \<noteq> CHR ''/'') (rev path)))"

definition JoinPath :: "string \<Rightarrow> string \<Rightarrow> string" where
  "JoinPath a b = (if a = [] \<and> b = [] then [] else if a = [] then Clean b
     else if b = [] then Clean a else Clean (a @ ''/'' @ b))"

definition ensureParentDir :: "cli_env \<Rightarrow> string \<Rightarrow> bool" where
  "ensureParentDir ev path = (let dir = Dir path in dir = ''.'' \<or> dir = [] \<or> ce_mkdir ev dir)"

section \<open>Endpoints\<close>

definition publicEndpoint :: "config \<Rightarrow> string \<times> int" where
  "publicEndpoint cfg =
     (if cf_PublicHost cfg = [] then (cf_ListenHost cfg, cf_ListenPort cfg)
      else (cf_PublicHost cfg, if cf_PublicPort cfg = 0 then cf_ListenPort cfg else cf_PublicPort cfg))"

definition publicTLSRequired :: "config \<Rightarrow> bool" where
  "publicTLSRequired cfg = (cf_PublicTLS cfg \<or> tl_Enabled (cf_TLS cfg))"

definition relayURL :: "config \<Rightarrow> string \<Rightarrow> int \<Rightarrow> string" where
  "relayURL cfg host port =
     (if publicTLSRequired cfg then ''https'' else ''http'') @ ''://'' @ JoinHostPort host (Itoa port)"

definition parsePort :: "string \<Rightarrow> int option" where
  "parsePort val =
     (case ParseInt64 val of None \<Rightarrow> None | Some port \<Rightarrow> if port < 0 \<or> port > 65535 then None else Some port)"

text \<open>A port flag: nothing to do when it is empty.\<close>

definition port_flag :: "string \<Rightarrow> int \<Rightarrow> int option" where
  "port_flag val current = (if val = [] then Some current else parsePort val)"

definition or_default :: "string \<Rightarrow> string \<Rightarrow> string" where
  "or_default val def = (if val = [] then def else val)"

section \<open>Information\<close>

definition localInfoFromConfig ::
  "cli_env \<Rightarrow> world \<Rightarrow> string \<Rightarrow> config \<Rightarrow> tenant list \<Rightarrow> local_secret_output option \<Rightarrow> local_info_output option" where
  "localInfoFromConfig ev w configPath cfg ts secret =
     (case publicEndpoint cfg of (host, port) \<Rightarrow>
      let url = relayURL cfg host port;
          internal = (cf_InternalListenHost cfg \<noteq> [] \<and> cf_InternalListenPort cfg > 0);
          internalURL = ''http://'' @ JoinHostPort (cf_InternalListenHost cfg) (Itoa (cf_InternalListenPort cfg));
          tls = cf_TLS cfg;
          base = \<lparr>li_Version = ce_Version ev, li_ConfigPath = configPath, li_StatePath = cf_StatePath cfg,
            li_ListenHost = cf_ListenHost cfg, li_ListenPort = cf_ListenPort cfg,
            li_InternalListenHost = (if internal then cf_InternalListenHost cfg else []),
            li_InternalListenPort = (if internal then cf_InternalListenPort cfg else 0),
            li_InternalTLSRequired = False,
            li_InternalRelayURL = (if internal then internalURL else []),
            li_InternalHealthURL = (if internal then internalURL @ ''/health'' else []),
            li_PublicHost = cf_PublicHost cfg, li_PublicPort = cf_PublicPort cfg,
            li_ListenerTLSRequired = tl_Enabled tls, li_TLSRequired = publicTLSRequired cfg,
            li_CertificatePath = [], li_CertificateSHA256 = [],
            li_RelayHost = host, li_RelayPort = port, li_RelayURL = url, li_HealthURL = url @ ''/health'',
            li_Tenants = map (\<lambda>t. \<lparr>lto_TenantID = TenantID t, lto_DisplayName = DisplayName t, lto_Enabled = Enabled t\<rparr>) ts,
            li_Secret = secret\<rparr>
      in
      if tl_Enabled tls then
        (case ValidateTLSCertificatePair (ce_cert ev) (tl_CertFile tls) (tl_KeyFile tls) (wd_pems w) of
           Inl _ \<Rightarrow> None
         | Inr fingerprint \<Rightarrow>
             Some (base\<lparr>li_CertificatePath := tl_CertFile tls, li_CertificateSHA256 := fingerprint\<rparr>))
      else Some base)"

text \<open>\<open>openTenantService\<close>: the configuration and the opened database, or exit code 1.\<close>

definition openTenantService :: "cli_env \<Rightarrow> string \<Rightarrow> world \<Rightarrow> (config \<Rightarrow> world \<Rightarrow> outcome) \<Rightarrow> outcome" where
  "openTenantService ev configPath w k =
     (case Load configPath w of
        None \<Rightarrow> fail_code 1 w
      | Some cfg \<Rightarrow>
          (case Open (ce_open ev) (cf_StatePath cfg) (wd_stores w) of
             (Inl _, fs) \<Rightarrow> fail_code 1 (w\<lparr>wd_stores := fs\<rparr>)
           | (Inr _, fs) \<Rightarrow> k cfg (w\<lparr>wd_stores := fs\<rparr>)))"

definition secret_output :: "tenant \<times> string \<Rightarrow> local_secret_output" where
  "secret_output c = \<lparr>lso_TenantID = TenantID (fst c), lso_Value = snd c, lso_Source = ''created''\<rparr>"

text \<open>The output of a service operation, or exit code 1.\<close>

definition on_service ::
  "config \<Rightarrow> (db, 'a) tx \<Rightarrow> ('a \<Rightarrow> world \<Rightarrow> out_item list option) \<Rightarrow> world \<Rightarrow> outcome" where
  "on_service cfg m f w =
     (case on_db (cf_StatePath cfg) m w of
        (Inl _, w1) \<Rightarrow> fail_code 1 w1
      | (Inr x, w1) \<Rightarrow> (case f x w1 of None \<Rightarrow> fail_code 1 w1 | Some out \<Rightarrow> (0, out, w1)))"

text \<open>The tenants, with a new one when there is none and one is wanted.\<close>

definition create_tenant :: "cli_env \<Rightarrow> nat \<Rightarrow> string \<Rightarrow> (db, tenant \<times> string) tx" where
  "create_tenant ev n name =
     Create (ce_crypto ev) (ce_rand ev 0) (ce_rand ev 1) (ce_rand ev 2) (ce_now ev) (ce_flt ev n) name"

definition ensure_tenant ::
  "cli_env \<Rightarrow> bool \<Rightarrow> string \<Rightarrow> (db, tenant list \<times> (tenant \<times> string) option) tx" where
  "ensure_tenant ev wanted name =
     tx_bind (ListTenants (ce_flt ev 0)) (\<lambda>ts.
       if wanted \<and> ts = [] then
         tx_bind (create_tenant ev 1 name) (\<lambda>c. tx_ret (ts @ [fst c], Some c))
       else tx_ret (ts, None))"

definition info_lines :: "cli_env \<Rightarrow> string \<Rightarrow> config \<Rightarrow> tenant list \<Rightarrow> (tenant \<times> string) option \<Rightarrow> string list" where
  "info_lines ev configPath cfg ts created =
     (case publicEndpoint cfg of (host, port) \<Rightarrow>
      let url = relayURL cfg host port in
      [''MyCodex Relay'', ''version='' @ ce_Version ev, ''configPath='' @ configPath,
       ''statePath='' @ cf_StatePath cfg, ''listenHost='' @ cf_ListenHost cfg,
       ''listenPort='' @ Itoa (cf_ListenPort cfg), ''publicHost='' @ cf_PublicHost cfg,
       ''publicPort='' @ Itoa (cf_PublicPort cfg), ''listenerTlsRequired='' @ bool_text (tl_Enabled (cf_TLS cfg)),
       ''tlsRequired='' @ bool_text (publicTLSRequired cfg), ''relayHost='' @ host, ''relayPort='' @ Itoa port,
       ''relayUrl='' @ url, ''healthUrl='' @ url @ ''/health'', ''tenants='' @ Itoa (int (length ts))] @
      concat (map (\<lambda>t.
        [[], ''tenantId='' @ TenantID t, ''displayName='' @ DisplayName t, ''enabled='' @ bool_text (Enabled t),
         ''connectionRelayHost='' @ host, ''connectionRelayPort='' @ Itoa port] @
        (case created of
           Some (c, secret) \<Rightarrow>
             if TenantID t = TenantID c then [''tenantSecret='' @ secret, ''tenantSecretSource=created''] else []
         | None \<Rightarrow> if TenantID t = [] then [''tenantSecret='', ''tenantSecretSource=created''] else [])) ts))"

definition info_json :: "local_info_output option \<Rightarrow> out_item list option" where
  "info_json info = map_option (\<lambda>i. [InfoJSON i]) info"

definition runInfo :: "cli_env \<Rightarrow> string list \<Rightarrow> world \<Rightarrow> outcome" where
  "runInfo ev args w =
     (case parse_flags [(''config'', StringFlag), (''ensure-tenant'', BoolFlag), (''tenant-name'', StringFlag), (''json'', BoolFlag)] args [] of
        None \<Rightarrow> fail_code 2 w
      | Some fl \<Rightarrow>
          let configPath = flag_value fl ''config'' ''relay-config.json'' in
          openTenantService ev configPath w (\<lambda>cfg.
            on_service cfg (ensure_tenant ev (flag_set fl ''ensure-tenant'') (flag_value fl ''tenant-name'' ''Local''))
              (\<lambda>(ts, created) w1.
                if flag_set fl ''json'' then
                  info_json (localInfoFromConfig ev w1 configPath cfg ts
                    (case created of None \<Rightarrow> None
                     | Some c \<Rightarrow> if TenantID (fst c) \<noteq> [] then Some (secret_output c) else None))
                else Some (map Line (info_lines ev configPath cfg ts created)))))"

section \<open>Tenants\<close>

definition tenant_spec :: "(string \<times> flag_kind) list" where
  "tenant_spec = [(''config'', StringFlag), (''tenant'', StringFlag)]"

text \<open>A command on one tenant: its flags, the tenant it names, the operation and what it prints.\<close>

definition on_tenant ::
  "cli_env \<Rightarrow> string list \<Rightarrow> (string \<Rightarrow> (db, 'a) tx) \<Rightarrow> (string \<Rightarrow> config \<Rightarrow> 'a \<Rightarrow> string list) \<Rightarrow> world \<Rightarrow> outcome" where
  "on_tenant ev args m f w =
     (case parse_flags tenant_spec args [] of
        None \<Rightarrow> fail_code 2 w
      | Some fl \<Rightarrow>
          let tenantID = flag_value fl ''tenant'' [] in
          if tenantID = [] then fail_code 2 w
          else openTenantService ev (flag_value fl ''config'' ''relay-config.json'') w (\<lambda>cfg.
            on_service cfg (m tenantID) (\<lambda>x _. Some (map Line (f tenantID cfg x)))))"

definition runTenantCreate :: "cli_env \<Rightarrow> string list \<Rightarrow> world \<Rightarrow> outcome" where
  "runTenantCreate ev args w =
     (case parse_flags [(''config'', StringFlag), (''name'', StringFlag)] args [] of
        None \<Rightarrow> fail_code 2 w
      | Some fl \<Rightarrow>
          let name = flag_value fl ''name'' [] in
          if name = [] then fail_code 2 w
          else openTenantService ev (flag_value fl ''config'' ''relay-config.json'') w (\<lambda>cfg.
            on_service cfg (create_tenant ev 0 name) (\<lambda>(t, secret) _.
              Some [Line (''tenantId='' @ TenantID t), Line (''tenantSecret='' @ secret)])))"

definition list_line :: "tenant \<Rightarrow> string" where
  "list_line t = TenantID t @ [CHR 0x09] @ DisplayName t @ [CHR 0x09] @
     (if Enabled t then ''enabled'' else ''disabled'')"

definition runTenantList :: "cli_env \<Rightarrow> string list \<Rightarrow> world \<Rightarrow> outcome" where
  "runTenantList ev args w =
     (case parse_flags [(''config'', StringFlag)] args [] of
        None \<Rightarrow> fail_code 2 w
      | Some fl \<Rightarrow>
          openTenantService ev (flag_value fl ''config'' ''relay-config.json'') w (\<lambda>cfg.
            on_service cfg (ListTenants (ce_flt ev 0)) (\<lambda>ts _. Some (map (\<lambda>t. Line (list_line t)) ts))))"

text \<open>\<open>Format\<close> with the layout of whole seconds, of a time in UTC.\<close>

definition RFC3339 :: "int \<Rightarrow> string" where
  "RFC3339 t = RFC3339Nano (t div Second * Second)"

definition runTenantShow :: "cli_env \<Rightarrow> string list \<Rightarrow> world \<Rightarrow> outcome" where
  "runTenantShow ev args = on_tenant ev args (GetTenant (ce_flt ev 0)) (\<lambda>tenantID cfg t.
     [''tenantId='' @ TenantID t, ''displayName='' @ DisplayName t,
      ''enabled='' @ bool_text (Enabled t), ''createdAt='' @ RFC3339 (CreatedAt t)])"

definition runTenantSetEnabled :: "cli_env \<Rightarrow> string list \<Rightarrow> bool \<Rightarrow> world \<Rightarrow> outcome" where
  "runTenantSetEnabled ev args enabled =
     on_tenant ev args (\<lambda>tenantID. SetEnabled (ce_flt ev 0) tenantID enabled) (\<lambda>tenantID cfg _.
       [''tenantId='' @ tenantID, ''enabled='' @ bool_text enabled])"

definition runTenantRotateSecret :: "cli_env \<Rightarrow> string list \<Rightarrow> world \<Rightarrow> outcome" where
  "runTenantRotateSecret ev args =
     on_tenant ev args (RotateSecret (ce_crypto ev) (ce_rand ev 0) (ce_rand ev 1) (ce_flt ev 0)) (\<lambda>tenantID cfg secret.
       [''tenantId='' @ tenantID, ''tenantSecret='' @ secret])"

definition runTenantPrintConnection :: "cli_env \<Rightarrow> string list \<Rightarrow> world \<Rightarrow> outcome" where
  "runTenantPrintConnection ev args = on_tenant ev args (GetTenant (ce_flt ev 0)) (\<lambda>tenantID cfg _.
     case publicEndpoint cfg of (host, port) \<Rightarrow>
       [''relayHost='' @ host, ''relayPort='' @ Itoa port, ''tlsRequired='' @ bool_text (publicTLSRequired cfg),
        ''tenantId='' @ tenantID])"

definition runTenant :: "cli_env \<Rightarrow> string list \<Rightarrow> world \<Rightarrow> outcome" where
  "runTenant ev args w = (case args of
      [] \<Rightarrow> (0, [Line ''tenant commands: create, list, show, disable, enable, rotate-secret, print-connection''], w)
    | cmd # rest \<Rightarrow>
        if cmd = ''create'' then runTenantCreate ev rest w
        else if cmd = ''list'' then runTenantList ev rest w
        else if cmd = ''show'' then runTenantShow ev rest w
        else if cmd = ''disable'' then runTenantSetEnabled ev rest False w
        else if cmd = ''enable'' then runTenantSetEnabled ev rest True w
        else if cmd = ''rotate-secret'' then runTenantRotateSecret ev rest w
        else if cmd = ''print-connection'' then runTenantPrintConnection ev rest w
        else fail_code 2 w)"

section \<open>Configuration, serving and local commands\<close>

definition runConfigure :: "cli_env \<Rightarrow> string list \<Rightarrow> world \<Rightarrow> outcome" where
  "runConfigure ev args w =
     (case parse_flags [(''config'', StringFlag), (''state'', StringFlag), (''listen-host'', StringFlag),
          (''listen-port'', StringFlag), (''public-host'', StringFlag), (''public-port'', StringFlag),
          (''public-tls'', BoolFlag)] args [] of
        None \<Rightarrow> fail_code 2 w
      | Some fl \<Rightarrow>
          let get = (\<lambda>name. flag_value fl name []); configPath = flag_value fl ''config'' ''relay-config.json'' in
          (case port_flag (get ''listen-port'') (cf_ListenPort Default) of None \<Rightarrow> fail_code 2 w | Some listenPort \<Rightarrow>
           case port_flag (get ''public-port'') (cf_PublicPort Default) of None \<Rightarrow> fail_code 2 w | Some publicPort \<Rightarrow>
           let cfg = Default\<lparr>cf_StatePath := or_default (get ''state'') (cf_StatePath Default),
                 cf_ListenHost := or_default (get ''listen-host'') (cf_ListenHost Default),
                 cf_ListenPort := listenPort, cf_PublicHost := or_default (get ''public-host'') (cf_PublicHost Default),
                 cf_PublicPort := publicPort, cf_PublicTLS := flag_set fl ''public-tls''\<rparr>
           in
           if \<not> ensureParentDir ev configPath \<or> \<not> ce_write ev configPath then fail_code 1 w
           else (0, [Line (''configPath='' @ configPath)], Save configPath cfg w)))"

text \<open>
  \<open>serve\<close>: after the line is printed, the server runs on its listeners until it ends; \<open>ce_serving\<close> is how it
  ends and what the handlers have done to the database by then.
\<close>

definition runServe :: "cli_env \<Rightarrow> string list \<Rightarrow> world \<Rightarrow> outcome" where
  "runServe ev args w =
     (case parse_flags [(''config'', StringFlag)] args [] of
        None \<Rightarrow> fail_code 2 w
      | Some fl \<Rightarrow>
          let configPath = flag_value fl ''config'' ''relay-config.json'' in
          openTenantService ev configPath w (\<lambda>cfg w1.
            let quota = cf_DefaultQuota cfg; path = cf_StatePath cfg;
                server = (NewServer (qu_MaxMessageBytes quota) (qu_PairingAttemptsPerMinute quota))
                  \<lparr>sv_store := True, sv_db := df_rows (db_file path (wd_stores w1))\<rparr>;
                out = [Line (''serve initialized configPath='' @ configPath @ '' statePath='' @ path)] in
            if ce_cancelled ev then (0, out, w1)
            else case Serve (ce_listen ev) cfg server of
              (Inl _, _) \<Rightarrow> (1, out, w1)
            | (Inr ls, _) \<Rightarrow>
                (case on_db path (\<lambda>d. case ce_serving ev ls d of (err, d1) \<Rightarrow> (Inr err, d1)) w1 of
                   (r, w2) \<Rightarrow> (if r = Inr None then 0 else 1, out, w2))))"

text \<open>\<open>local init\<close>: the configuration the flags ask for, or the exit code.\<close>

definition local_config :: "flags \<Rightarrow> config option" where
  "local_config fl =
     (let get = (\<lambda>name. flag_value fl name []) in
      case port_flag (get ''listen-port'') (cf_ListenPort Default) of None \<Rightarrow> None | Some listenPort \<Rightarrow>
      case port_flag (get ''internal-listen-port'') (cf_InternalListenPort Default) of None \<Rightarrow> None | Some internalPort \<Rightarrow>
      let cfg = Default\<lparr>cf_StatePath := or_default (get ''state'') (cf_StatePath Default),
            cf_ListenHost := or_default (get ''listen-host'') (cf_ListenHost Default), cf_ListenPort := listenPort,
            cf_InternalListenHost := get ''internal-listen-host'', cf_InternalListenPort := internalPort\<rparr>
      in
      if ValidateInternalListener cfg \<noteq> None then None
      else if (cf_InternalListenHost cfg \<noteq> [] \<or> cf_InternalListenPort cfg \<noteq> 0) \<and> \<not> flag_set fl ''embedded-tls'' then None
      else case port_flag (get ''public-port'') (cf_PublicPort Default) of None \<Rightarrow> None | Some publicPort \<Rightarrow>
      Some (cfg\<lparr>cf_PublicHost := get ''public-host'', cf_PublicPort := publicPort, cf_PublicTLS := flag_set fl ''public-tls''\<rparr>))"

text \<open>The embedded TLS identity: the configuration's absolute path, and the configuration with it.\<close>

definition embed_tls :: "cli_env \<Rightarrow> bool \<Rightarrow> string \<Rightarrow> config \<Rightarrow> world \<Rightarrow> (string \<times> config) option \<times> world" where
  "embed_tls ev embedded configPath cfg w =
     (if \<not> embedded then (Some (configPath, cfg), w)
      else case ce_abs ev configPath of
        None \<Rightarrow> (None, w)
      | Some absolute \<Rightarrow>
          let identityDir = Dir absolute; certPath = JoinPath identityDir ''embedded-relay-cert.pem'';
              keyPath = JoinPath identityDir ''embedded-relay-key.pem'' in
          (case EnsureEmbeddedCertificate (ce_cert ev) certPath keyPath (cf_PublicHost cfg) (wd_pems w) of
             (Inl _, fs) \<Rightarrow> (None, w\<lparr>wd_pems := fs\<rparr>)
           | (Inr _, fs) \<Rightarrow>
               (Some (absolute, cfg\<lparr>cf_TLS := \<lparr>tl_Enabled = True, tl_CertFile = certPath, tl_KeyFile = keyPath\<rparr>\<rparr>),
                w\<lparr>wd_pems := fs\<rparr>)))"

definition runLocalInit :: "cli_env \<Rightarrow> string list \<Rightarrow> world \<Rightarrow> outcome" where
  "runLocalInit ev args w =
     (case parse_flags [(''config'', StringFlag), (''state'', StringFlag), (''listen-host'', StringFlag),
          (''listen-port'', StringFlag), (''internal-listen-host'', StringFlag), (''internal-listen-port'', StringFlag),
          (''public-host'', StringFlag), (''public-port'', StringFlag), (''public-tls'', BoolFlag),
          (''embedded-tls'', BoolFlag), (''json'', BoolFlag)] args [] of
        None \<Rightarrow> fail_code 2 w
      | Some fl \<Rightarrow>
          if \<not> flag_set fl ''json'' then fail_code 2 w
          else case local_config fl of None \<Rightarrow> fail_code 2 w | Some cfg \<Rightarrow>
          case embed_tls ev (flag_set fl ''embedded-tls'') (flag_value fl ''config'' ''relay-config.json'') cfg w of
            (None, w1) \<Rightarrow> fail_code 1 w1
          | (Some (configPath, cfg1), w1) \<Rightarrow>
              if \<not> ensureParentDir ev configPath \<or> \<not> ensureParentDir ev (cf_StatePath cfg1) \<or> \<not> ce_write ev configPath
              then fail_code 1 w1
              else
                let w2 = Save configPath cfg1 w1 in
                (case info_json (localInfoFromConfig ev w2 configPath cfg1 [] None) of
                   None \<Rightarrow> fail_code 1 w2
                 | Some out \<Rightarrow> (0, out, w2)))"

definition runLocalInfo :: "cli_env \<Rightarrow> string list \<Rightarrow> world \<Rightarrow> outcome" where
  "runLocalInfo ev args w =
     (case parse_flags [(''config'', StringFlag), (''json'', BoolFlag)] args [] of
        None \<Rightarrow> fail_code 2 w
      | Some fl \<Rightarrow>
          if \<not> flag_set fl ''json'' then fail_code 2 w
          else let configPath = flag_value fl ''config'' ''relay-config.json'' in
          openTenantService ev configPath w (\<lambda>cfg.
            on_service cfg (ListTenants (ce_flt ev 0)) (\<lambda>ts w1.
              info_json (localInfoFromConfig ev w1 configPath cfg ts None))))"

definition runLocalEnsureTenant :: "cli_env \<Rightarrow> string list \<Rightarrow> world \<Rightarrow> outcome" where
  "runLocalEnsureTenant ev args w =
     (case parse_flags [(''config'', StringFlag), (''name'', StringFlag), (''json'', BoolFlag)] args [] of
        None \<Rightarrow> fail_code 2 w
      | Some fl \<Rightarrow>
          if \<not> flag_set fl ''json'' then fail_code 2 w
          else let configPath = flag_value fl ''config'' ''relay-config.json'' in
          openTenantService ev configPath w (\<lambda>cfg w1.
            if localInfoFromConfig ev w1 configPath cfg [] None = None then fail_code 1 w1
            else on_service cfg (ensure_tenant ev True (flag_value fl ''name'' ''Local'')) (\<lambda>(ts, created) w2.
              info_json (localInfoFromConfig ev w2 configPath cfg ts (map_option secret_output created))) w1))"

definition runLocal :: "cli_env \<Rightarrow> string list \<Rightarrow> world \<Rightarrow> outcome" where
  "runLocal ev args w = (case args of
      [] \<Rightarrow> (0, [Line ''local commands: init, info, ensure-tenant''], w)
    | cmd # rest \<Rightarrow>
        if cmd = ''init'' then runLocalInit ev rest w
        else if cmd = ''info'' then runLocalInfo ev rest w
        else if cmd = ''ensure-tenant'' then runLocalEnsureTenant ev rest w
        else fail_code 2 w)"

definition runDebug :: "string list \<Rightarrow> world \<Rightarrow> outcome" where
  "runDebug args w =
     (if args = [] \<or> hd args \<noteq> ''auth-header'' then fail_code 2 w
      else case parse_flags [(''token'', StringFlag)] (tl args) [] of
        None \<Rightarrow> fail_code 2 w
      | Some fl \<Rightarrow>
          let token = flag_value fl ''token'' [] in
          if token = [] then fail_code 2 w else (0, [Line (''Authorization=Bearer '' @ token)], w))"

definition RunWithContext :: "cli_env \<Rightarrow> string list \<Rightarrow> world \<Rightarrow> outcome" where
  "RunWithContext ev args w = (case args of
      [] \<Rightarrow> fail_code 2 w
    | cmd # rest \<Rightarrow>
        if cmd = ''help'' then (0, [Line ''commands: help, version, configure, serve, info, local, tenant, debug''], w)
        else if cmd = ''version'' then (0, [Line (''mycodex-relay '' @ ce_Version ev)], w)
        else if cmd = ''configure'' then runConfigure ev rest w
        else if cmd = ''serve'' then runServe ev rest w
        else if cmd = ''info'' then runInfo ev rest w
        else if cmd = ''local'' then runLocal ev rest w
        else if cmd = ''tenant'' then runTenant ev rest w
        else if cmd = ''debug'' then runDebug rest w
        else fail_code 2 w)"

end
