(* ===== verification/Cli_Secrecy.thy ===== *)
theory Cli_Secrecy
  imports Cli
begin

text \<open>
  What the command line reveals. Two installations look alike when they have the same configurations, PEM files
  and tables and the same tenants up to their secret hashes; hosts, devices, invites, claims, challenges and
  tickets may differ. No command tells them apart, and they look alike afterwards.
\<close>

section \<open>Views\<close>

definition noninterfering :: "('s \<Rightarrow> 'v) \<Rightarrow> ('a \<Rightarrow> 'b) \<Rightarrow> ('s, 'a) tx \<Rightarrow> bool" where
  "noninterfering v g m \<longleftrightarrow>
     (\<forall>s t. v s = v t \<longrightarrow> map_prod (map_sum id g) v (m s) = map_prod (map_sum id g) v (m t))"

definition public_row :: "tenant_row \<Rightarrow> string \<times> string \<times> int \<times> string" where
  "public_row r = (tn_tenant_id r, tn_display_name r, tn_enabled r, tn_created_at r)"

definition public_db :: "db \<Rightarrow> (string \<times> string \<times> int \<times> string) list" where
  "public_db d = map public_row (tenants d)"

definition public_tenant :: "tenant \<Rightarrow> string \<times> string \<times> bool \<times> int" where
  "public_tenant t = (TenantID t, DisplayName t, Enabled t, CreatedAt t)"

definition public_files :: "dbfiles \<Rightarrow> string \<Rightarrow> ((string \<times> string list) list \<times> (string \<times> string \<times> int \<times> string) list) option" where
  "public_files fs p = map_option (\<lambda>f. (df_columns f, public_db (df_rows f))) (map_of fs p)"

definition world_view :: "world \<Rightarrow> (string \<times> config) list \<times> pem_files \<times>
    (string \<Rightarrow> ((string \<times> string list) list \<times> (string \<times> string \<times> int \<times> string) list) option)" where
  "world_view w = (wd_configs w, wd_pems w, public_files (wd_stores w))"

definition alike :: "world \<Rightarrow> world \<Rightarrow> bool" where
  "alike w1 w2 \<longleftrightarrow> world_view w1 = world_view w2"

section \<open>Rules\<close>

named_theorems ni

lemma niD:
  "noninterfering v g m \<Longrightarrow> v s = v t \<Longrightarrow> map_prod (map_sum id g) v (m s) = map_prod (map_sum id g) v (m t)"
  unfolding noninterfering_def by blast

lemma niI:
  "(\<And>s t. v s = v t \<Longrightarrow> map_prod (map_sum id g) v (m s) = map_prod (map_sum id g) v (m t)) \<Longrightarrow> noninterfering v g m"
  unfolding noninterfering_def by blast

lemma ni_basic [ni]:
  "noninterfering v g (tx_ret x)" "noninterfering v g (tx_fail e)" "noninterfering v g (tx_lift r)"
  "noninterfering v g (tx_some e opt)"
  by (auto simp: noninterfering_def tx_simps split: option.splits)

lemma ni_call [ni]: "noninterfering v g m \<Longrightarrow> noninterfering v g (tx_call b e m)"
  by (cases b) (simp_all add: tx_call_def ni_basic)

lemma ni_guard [ni]: "noninterfering v g m \<Longrightarrow> noninterfering v g (tx_guard b e m)"
  by (cases b) (simp_all add: tx_guard_def ni_basic)

lemma ni_if [ni]: "noninterfering v g m \<Longrightarrow> noninterfering v g n \<Longrightarrow> noninterfering v g (if b then m else n)"
  by simp

lemma ni_query: "(\<And>s t. v s = v t \<Longrightarrow> g (q s) = g (q t)) \<Longrightarrow> noninterfering v g (tx_query q)"
  unfolding noninterfering_def tx_run map_prod_simp map_sum.simps by blast

lemma ni_exec:
  "(\<And>s t. v s = v t \<Longrightarrow> map_option (map_prod g v) (f s) = map_option (map_prod g v) (f t)) \<Longrightarrow>
   noninterfering v g (tx_exec e f)"
proof (rule niI)
  fix s t assume f: "\<And>s t. v s = v t \<Longrightarrow> map_option (map_prod g v) (f s) = map_option (map_prod g v) (f t)"
    and st: "v s = v t"
  from f [OF st] have "map_option (map_prod g v) (f s) = map_option (map_prod g v) (f t)" .
  then show "map_prod (map_sum id g) v (tx_exec e f s) = map_prod (map_sum id g) v (tx_exec e f t)"
    by (cases "f s"; cases "f t") (auto simp: tx_simps st split: prod.splits)
qed

lemma ni_bind:
  assumes "noninterfering v h m"
    and "\<And>x y s t. h x = h y \<Longrightarrow> v s = v t \<Longrightarrow>
      map_prod (map_sum id g) v (f x s) = map_prod (map_sum id g) v (f y t)"
  shows "noninterfering v g (tx_bind m f)"
proof (rule niI)
  fix s t assume "v s = v t"
  then have eq: "map_prod (map_sum id h) v (m s) = map_prod (map_sum id h) v (m t)"
    using assms(1) by (rule niD [rotated])
  obtain r1 s1 r2 t1 where m: "m s = (r1, s1)" "m t = (r2, t1)" by (metis surj_pair)
  show "map_prod (map_sum id g) v (tx_bind m f s) = map_prod (map_sum id g) v (tx_bind m f t)"
  proof (cases r1)
    case (Inl e)
    with eq show ?thesis by (cases r2) (auto simp: tx_simps m)
  next
    case (Inr x)
    with eq obtain y where "r2 = Inr y" "h x = h y" "v s1 = v t1" by (cases r2) (auto simp: m)
    with Inr assms(2) [of x y s1 t1] show ?thesis by (simp add: tx_simps m)
  qed
qed

lemma ni_bind_id [ni]:
  "noninterfering v id m \<Longrightarrow> (\<And>x. noninterfering v g (f x)) \<Longrightarrow> noninterfering v g (tx_bind m f)"
  by (rule ni_bind [of v id], assumption, simp, rule niD)

lemma ni_transaction [ni]:
  assumes "noninterfering v g m"
  shows "noninterfering v g (in_transaction b c m)"
proof (rule niI)
  fix s t assume st: "v s = v t"
  then have eq: "map_prod (map_sum id g) v (m s) = map_prod (map_sum id g) v (m t)"
    using assms by (rule niD [rotated])
  obtain r1 s1 r2 t1 where m: "m s = (r1, s1)" "m t = (r2, t1)" by (metis surj_pair)
  show "map_prod (map_sum id g) v (in_transaction b c m s) = map_prod (map_sum id g) v (in_transaction b c m t)"
    using eq st by (cases r1; cases r2) (auto simp: in_transaction_def m)
qed

section \<open>The tenant service\<close>

lemma insort_key_map: "map f (insort_key (\<lambda>x. k (f x)) x xs) = insort_key k (f x) (map f xs)"
  by (induction xs) auto

lemma sort_key_map: "map f (sort_key (\<lambda>x. k (f x)) xs) = sort_key k (map f xs)"
  by (induction xs) (simp_all add: insort_key_map)

lemma public_tenant_of_row:
  "public_tenant (tenant_of_row r) =
     (case public_row r of (i, n, e, c) \<Rightarrow> (i, n, e \<noteq> 0, parse_RFC3339Nano c))"
  by (simp add: public_tenant_def tenant_of_row_def public_row_def)

lemma ListTenants_ni: "noninterfering public_db (map public_tenant) (ListTenants flt)"
proof -
  let ?k = "\<lambda>r. (tn_created_at r, tn_tenant_id r)"
  let ?k' = "\<lambda>(i, n, e, c). (c, i)"
  let ?p = "\<lambda>(i, n, e, c). (i, n, e \<noteq> 0, parse_RFC3339Nano c)"
  have "map public_tenant (map tenant_of_row (sort_key ?k ts)) = map ?p (sort_key ?k' (map public_row ts))" for ts
    using sort_key_map [of public_row ?k' ts, symmetric]
    by (simp add: public_tenant_of_row public_row_def case_prod_beta)
  then show ?thesis
    unfolding ListTenants_def by (intro ni ni_query) (simp add: public_db_def)
qed

lemma find_public: "map_option public_row (find (\<lambda>r. tn_tenant_id r = tid) ts) = find (\<lambda>p. fst p = tid) (map public_row ts)"
  by (induction ts) (auto simp: public_row_def)

lemma GetTenant_ni: "noninterfering public_db public_tenant (GetTenant flt tid)"
  unfolding GetTenant_def
proof (rule ni_bind [where h = "map_option public_row"], intro ni ni_query)
  show "map_option public_row (find (\<lambda>r. tn_tenant_id r = tid) (tenants s)) =
      map_option public_row (find (\<lambda>r. tn_tenant_id r = tid) (tenants t))" if "public_db s = public_db t" for s t
    using that by (simp add: find_public public_db_def)
next
  fix x y :: "tenant_row option" and s t :: db
  assume "map_option public_row x = map_option public_row y" "public_db s = public_db t"
  then show "map_prod (map_sum id public_tenant) public_db
      (tx_bind (tx_some ''tenant_not_found'' x) (\<lambda>r. tx_ret (tenant_of_row r)) s) =
    map_prod (map_sum id public_tenant) public_db
      (tx_bind (tx_some ''tenant_not_found'' y) (\<lambda>r. tx_ret (tenant_of_row r)) t)"
    by (cases x; cases y) (auto simp: tx_simps public_tenant_of_row)
qed

lemma tenant_ids: "map tn_tenant_id ts = map fst (map public_row ts)"
  by (simp add: public_row_def)

lemma public_ids: "map public_row ts = map public_row us \<Longrightarrow> map tn_tenant_id ts = map tn_tenant_id us"
  by (simp only: tenant_ids)

lemma insert_tenant_ni: "noninterfering public_db id (tx_exec e (insert_tenant r))"
proof (rule ni_exec)
  fix s t assume "public_db s = public_db t"
  then have "map public_row (tenants s) = map public_row (tenants t)" by (simp add: public_db_def)
  moreover from public_ids [OF this] have "tn_tenant_id ` set (tenants s) = tn_tenant_id ` set (tenants t)"
    by (metis list.set_map)
  ultimately show "map_option (map_prod id public_db) (insert_tenant r s) = map_option (map_prod id public_db) (insert_tenant r t)"
    by (auto simp: insert_tenant_def public_db_def)
qed

lemma Create_ni: "noninterfering public_db id (Create cr r1 r2 r3 now flt name)"
  unfolding Create_def Let_def by (intro ni insert_tenant_ni)

text \<open>An update of one tenant that the view shows in the same way, or not at all.\<close>

lemma update_tenants_ni:
  assumes "\<And>r. public_row (f r) = h (public_row r)"
  shows "noninterfering public_db id (tx_exec e (update_tenants (\<lambda>r. tn_tenant_id r = tid) f))"
proof (rule ni_exec)
  fix s t assume "public_db s = public_db t"
  then have eq: "map public_row (tenants s) = map public_row (tenants t)" by (simp add: public_db_def)
  have upd: "map public_row (update_where (\<lambda>r. tn_tenant_id r = tid) f ts) =
      map (\<lambda>p. if fst p = tid then h p else p) (map public_row ts)" for ts
    using assms by (induction ts) (auto simp: public_row_def)
  have aff: "affected (\<lambda>r. tn_tenant_id r = tid) ts = length (filter (\<lambda>i. i = tid) (map fst (map public_row ts)))" for ts
    by (induction ts) (auto simp: affected_def public_row_def)
  show "map_option (map_prod id public_db) (update_tenants (\<lambda>r. tn_tenant_id r = tid) f s) =
      map_option (map_prod id public_db) (update_tenants (\<lambda>r. tn_tenant_id r = tid) f t)"
    by (simp add: update_tenants_def public_db_def upd aff eq del: map_map list.map_comp)
qed

lemma SetEnabled_ni: "noninterfering public_db id (SetEnabled flt tid en)"
  unfolding SetEnabled_def Let_def
  by (intro ni update_tenants_ni [where h = "\<lambda>(i, n, e, c). (i, n, if en then 1 else 0, c)"])
    (simp add: public_row_def)

lemma RotateSecret_ni: "noninterfering public_db id (RotateSecret cr r1 r2 flt tid)"
  unfolding RotateSecret_def
  by (intro ni update_tenants_ni [where h = id]) (simp add: public_row_def)

lemma create_tenant_ni: "noninterfering public_db id (create_tenant ev n name)"
  unfolding create_tenant_def by (rule Create_ni)

definition public_ensured :: "tenant list \<times> (tenant \<times> string) option \<Rightarrow> _" where
  "public_ensured = map_prod (map public_tenant) id"

lemma ensure_tenant_ni: "noninterfering public_db public_ensured (ensure_tenant ev wanted name)"
  unfolding ensure_tenant_def
proof (rule ni_bind [OF ListTenants_ni])
  fix ts us :: "tenant list" and s t :: db
  assume eq: "map public_tenant ts = map public_tenant us" and st: "public_db s = public_db t"
  then have nil: "ts = [] \<longleftrightarrow> us = []" by auto
  have made: "noninterfering public_db public_ensured
      (tx_bind (create_tenant ev 1 name) (\<lambda>c. tx_ret (ts @ [fst c], Some c)))" for ts
    by (intro ni create_tenant_ni)
  show "map_prod (map_sum id public_ensured) public_db
      ((if wanted \<and> ts = [] then tx_bind (create_tenant ev 1 name) (\<lambda>c. tx_ret (ts @ [fst c], Some c))
        else tx_ret (ts, None)) s) =
    map_prod (map_sum id public_ensured) public_db
      ((if wanted \<and> us = [] then tx_bind (create_tenant ev 1 name) (\<lambda>c. tx_ret (us @ [fst c], Some c))
        else tx_ret (us, None)) t)"
  proof (cases "wanted \<and> ts = []")
    case True
    with nil niD [OF made [of "[]"] st] show ?thesis by simp
  next
    case False
    with nil eq st show ?thesis by (auto simp: tx_simps public_ensured_def)
  qed
qed

section \<open>The database files\<close>

lemma public_file:
  assumes "public_files fs = public_files gs"
  shows "df_columns (db_file p fs) = df_columns (db_file p gs)"
    "public_db (df_rows (db_file p fs)) = public_db (df_rows (db_file p gs))"
    "map_of fs p = None \<longleftrightarrow> map_of gs p = None"
  using fun_cong [OF assms, of p]
  by (auto simp: public_files_def db_file_def split: option.splits)

lemma public_files_put: "public_files (map_put p f fs) = (public_files fs)(p \<mapsto> (df_columns f, public_db (df_rows f)))"
  by (auto simp: public_files_def fun_eq_iff)

lemma create_table_public:
  "df_columns f = df_columns g \<Longrightarrow> public_db (df_rows f) = public_db (df_rows g) \<Longrightarrow>
   df_columns (create_table t f) = df_columns (create_table t g) \<and>
   public_db (df_rows (create_table t f)) = public_db (df_rows (create_table t g))"
  by (simp add: create_table_def)

lemma drop_tables_public:
  "df_columns f = df_columns g \<Longrightarrow> public_db (df_rows f) = public_db (df_rows g) \<Longrightarrow>
   df_columns (drop_tables f) = df_columns (drop_tables g) \<and>
   public_db (df_rows (drop_tables f)) = public_db (df_rows (drop_tables g))"
  by (simp add: drop_tables_def public_db_def)

lemma public_files_put_cong:
  "public_files fs = public_files gs \<Longrightarrow> df_columns f = df_columns g \<Longrightarrow>
   public_db (df_rows f) = public_db (df_rows g) \<Longrightarrow> public_files (map_put p f fs) = public_files (map_put p g gs)"
  by (simp only: public_files_put)

lemma ni_put_file:
  assumes "\<And>f g. df_columns f = df_columns g \<Longrightarrow> public_db (df_rows f) = public_db (df_rows g) \<Longrightarrow>
     df_columns (h f) = df_columns (h g) \<and> public_db (df_rows (h f)) = public_db (df_rows (h g))"
  shows "noninterfering public_files id (tx_exec e (\<lambda>fs. Some ((), map_put p (h (db_file q fs)) fs)))"
proof (rule ni_exec)
  fix fs gs assume eq: "public_files fs = public_files gs"
  have "df_columns (h (db_file q fs)) = df_columns (h (db_file q gs)) \<and>
      public_db (df_rows (h (db_file q fs))) = public_db (df_rows (h (db_file q gs)))"
    using public_file(1,2) [OF eq, of q] by (rule assms)
  then have "public_files (map_put p (h (db_file q fs)) fs) = public_files (map_put p (h (db_file q gs)) gs)"
    using public_files_put_cong [OF eq] by blast
  then show "map_option (map_prod id public_files) (Some ((), map_put p (h (db_file q fs)) fs)) =
      map_option (map_prod id public_files) (Some ((), map_put p (h (db_file q gs)) gs))"
    by (simp only: option.map map_prod_simp)
qed

lemma update_file_ni [ni]:
  "noninterfering public_files id (update_file path (create_table t))"
  "noninterfering public_files id (update_file path drop_tables)"
  "noninterfering public_files id (update_file path (\<lambda>_. f))"
  unfolding update_file_def
  by (intro ni_put_file create_table_public drop_tables_public conjI refl; assumption)+

lemma tableHasColumn_ni [ni]: "noninterfering public_files id (tableHasColumn b path t c)"
proof -
  have "noninterfering public_files id (tx_query (\<lambda>fs. table_has_column t c (db_file path fs)))"
  proof (rule ni_query)
    fix fs gs assume "public_files fs = public_files gs"
    from public_file(1) [OF this, of path]
    show "id (table_has_column t c (db_file path fs)) = id (table_has_column t c (db_file path gs))"
      by (simp only: table_has_column_def)
  qed
  then show ?thesis unfolding tableHasColumn_def by (rule ni_call)
qed

lemma legacy_loop_ni [ni]: "noninterfering public_files id (legacy_loop flt n path cs)"
proof (induction cs arbitrary: n)
  case (Cons c cs)
  then show ?case by (cases c) (auto intro!: ni)
qed (simp add: ni)

lemma create_loop_ni [ni]: "noninterfering public_files id (create_loop flt n path ts)"
  by (induction ts arbitrary: n) (auto intro!: ni)

lemma vacuum_into_ni [ni]: "noninterfering public_files id (vacuum_into flt path)"
proof -
  have "noninterfering public_files id
      (tx_exec ''sql'' (\<lambda>fs. Some ((), map_put (backup_path path) (db_file path fs) fs)))"
    using ni_put_file [of "\<lambda>f. f"] by simp
  then show ?thesis unfolding vacuum_into_def by (auto intro!: ni)
qed

lemma Open_ni: "noninterfering public_files id (Open flt path)"
proof -
  have "noninterfering public_files id (tx_query (\<lambda>fs. map_of fs (backup_path path) \<noteq> None))"
  proof (rule ni_query)
    fix fs gs assume "public_files fs = public_files gs"
    from public_file(3) [OF this, of "backup_path path"]
    show "id (map_of fs (backup_path path) \<noteq> None) = id (map_of gs (backup_path path) \<noteq> None)" by simp
  qed
  then show ?thesis
    unfolding Open_def migrateLegacySecureSchema_def backupLegacySecureSchema_def hasLegacySecureSchema_def
    by (intro ni)
qed

section \<open>Commands\<close>

text \<open>A command is discreet when alike worlds give the same exit code, the same output and alike worlds.\<close>

definition discreet :: "(world \<Rightarrow> outcome) \<Rightarrow> bool" where
  "discreet F \<longleftrightarrow>
     (\<forall>w1 w2. alike w1 w2 \<longrightarrow> (case (F w1, F w2) of ((c1, o1, w1'), (c2, o2, w2')) \<Rightarrow> c1 = c2 \<and> o1 = o2 \<and> alike w1' w2'))"

named_theorems disc

lemma discreetI:
  "(\<And>w1 w2. alike w1 w2 \<Longrightarrow> \<exists>c out w1' w2'. F w1 = (c, out, w1') \<and> F w2 = (c, out, w2') \<and> alike w1' w2') \<Longrightarrow> discreet F"
  unfolding discreet_def by fastforce

lemma discreetD:
  "discreet F \<Longrightarrow> alike w1 w2 \<Longrightarrow> \<exists>c out w1' w2'. F w1 = (c, out, w1') \<and> F w2 = (c, out, w2') \<and> alike w1' w2'"
  unfolding discreet_def by (cases "F w1"; cases "F w2") fastforce

lemma discreet_basic [disc]:
  "discreet (fail_code c)" "discreet (Pair c \<circ> Pair out)" "discreet (\<lambda>w. (c, out, w))"
  "discreet (\<lambda>w. fail_code c w)"
  by (simp_all add: discreet_def fail_code_def)

lemma discreet_if [disc]: "discreet F \<Longrightarrow> discreet G \<Longrightarrow> discreet (\<lambda>w. if b then F w else G w)"
  by (cases b) simp_all

lemma discreet_option [disc]:
  "discreet F \<Longrightarrow> (\<And>x. discreet (G x)) \<Longrightarrow> discreet (\<lambda>w. case v of None \<Rightarrow> F w | Some x \<Rightarrow> G x w)"
  by (cases v) simp_all

lemma discreet_Save [disc]: "discreet (\<lambda>w. (c, out, Save path cfg w))"
  by (auto simp: discreet_def alike_def world_view_def Save_def)

lemma discreet_open [disc]:
  assumes "\<And>cfg. discreet (k cfg)"
  shows "discreet (\<lambda>w. openTenantService ev configPath w k)"
proof (rule discreetI)
  fix w1 w2 assume al: "alike w1 w2"
  then have load: "Load configPath w1 = Load configPath w2"
    by (simp add: alike_def world_view_def Load_def)
  show "\<exists>c out w1' w2'. openTenantService ev configPath w1 k = (c, out, w1') \<and>
      openTenantService ev configPath w2 k = (c, out, w2') \<and> alike w1' w2'"
  proof (cases "Load configPath w1")
    case None
    with load al show ?thesis by (auto simp: openTenantService_def fail_code_def)
  next
    case (Some cfg)
    obtain r1 fs r2 gs where op: "Open (ce_open ev) (cf_StatePath cfg) (wd_stores w1) = (r1, fs)"
      "Open (ce_open ev) (cf_StatePath cfg) (wd_stores w2) = (r2, gs)" by (metis surj_pair)
    have "map_prod (map_sum id id) public_files (r1, fs) = map_prod (map_sum id id) public_files (r2, gs)"
      unfolding op [symmetric] by (rule niD [OF Open_ni]) (use al in \<open>simp add: alike_def world_view_def\<close>)
    then have r: "r1 = r2" and al': "alike (w1\<lparr>wd_stores := fs\<rparr>) (w2\<lparr>wd_stores := gs\<rparr>)"
      using al by (simp_all add: alike_def world_view_def sum.map_id)
    show ?thesis
      using Some load op r al' discreetD [OF assms al', of cfg]
      by (cases r1) (auto simp: openTenantService_def fail_code_def)
  qed
qed

lemma on_db_ni:
  assumes "noninterfering public_db g m" "alike w1 w2"
  shows "\<exists>r1 r2 w1' w2'. on_db path m w1 = (r1, w1') \<and> on_db path m w2 = (r2, w2') \<and>
     map_sum id g r1 = map_sum id g r2 \<and> alike w1' w2'"
proof -
  let ?f = "db_file path (wd_stores w1)" and ?g = "db_file path (wd_stores w2)"
  have eq: "public_files (wd_stores w1) = public_files (wd_stores w2)"
    using assms(2) by (simp add: alike_def world_view_def)
  obtain r1 d1 r2 d2 where m: "m (df_rows ?f) = (r1, d1)" "m (df_rows ?g) = (r2, d2)" by (metis surj_pair)
  have "map_prod (map_sum id g) public_db (r1, d1) = map_prod (map_sum id g) public_db (r2, d2)"
    unfolding m [symmetric] by (rule niD [OF assms(1) public_file(2) [OF eq]])
  then have res: "map_sum id g r1 = map_sum id g r2" "public_db d1 = public_db d2" by simp_all
  have "public_files (map_put path (?f\<lparr>df_rows := d1\<rparr>) (wd_stores w1)) =
      public_files (map_put path (?g\<lparr>df_rows := d2\<rparr>) (wd_stores w2))"
    by (rule public_files_put_cong [OF eq]) (simp_all add: public_file(1) [OF eq] res)
  with assms(2) m res show ?thesis
    by (auto simp: on_db_def Let_def alike_def world_view_def)
qed

lemma discreet_service:
  assumes "noninterfering public_db g m"
    and "\<And>x y w1 w2. g x = g y \<Longrightarrow> alike w1 w2 \<Longrightarrow> f x w1 = f y w2"
  shows "discreet (on_service cfg m f)"
proof (rule discreetI)
  fix w1 w2 assume al: "alike w1 w2"
  from on_db_ni [OF assms(1) al] obtain r1 r2 v1 v2 where
    db: "on_db (cf_StatePath cfg) m w1 = (r1, v1)" "on_db (cf_StatePath cfg) m w2 = (r2, v2)"
    and r: "map_sum id g r1 = map_sum id g r2" and al': "alike v1 v2" by blast
  show "\<exists>c out w1' w2'. on_service cfg m f w1 = (c, out, w1') \<and> on_service cfg m f w2 = (c, out, w2') \<and> alike w1' w2'"
  proof (cases r1)
    case (Inl e)
    with r obtain e' where "r2 = Inl e'" by (cases r2) auto
    with Inl db al' show ?thesis by (simp add: on_service_def fail_code_def)
  next
    case (Inr x)
    with r obtain y where y: "r2 = Inr y" "g x = g y" by (cases r2) auto
    from assms(2) [OF y(2) al'] have "f x v1 = f y v2" .
    with Inr y(1) db al' show ?thesis
      by (cases "f y v2") (auto simp: on_service_def fail_code_def)
  qed
qed

text \<open>What is printed depends on the view only.\<close>

lemma public_map:
  assumes "map public_tenant ts = map public_tenant us" and "\<And>t. F t = G (public_tenant t)"
  shows "map F ts = map F us"
proof -
  have "map F ts = map G (map public_tenant ts)" for ts by (simp add: assms(2))
  with assms(1) show ?thesis by metis
qed

lemma localInfo_public:
  assumes "map public_tenant ts = map public_tenant us" "alike w1 w2"
  shows "localInfoFromConfig ev w1 p cfg ts secret = localInfoFromConfig ev w2 p cfg us secret"
proof -
  have "map (\<lambda>t. \<lparr>lto_TenantID = TenantID t, lto_DisplayName = DisplayName t, lto_Enabled = Enabled t\<rparr>) ts =
      map (\<lambda>t. \<lparr>lto_TenantID = TenantID t, lto_DisplayName = DisplayName t, lto_Enabled = Enabled t\<rparr>) us"
    using assms(1)
    by (rule public_map [where G = "\<lambda>(i, n, e, c). \<lparr>lto_TenantID = i, lto_DisplayName = n, lto_Enabled = e\<rparr>"])
      (simp add: public_tenant_def)
  moreover have "wd_pems w1 = wd_pems w2" using assms(2) by (simp add: alike_def world_view_def)
  ultimately show ?thesis by (simp only: localInfoFromConfig_def)
qed

lemma info_lines_public:
  assumes "map public_tenant ts = map public_tenant us"
  shows "info_lines ev p cfg ts created = info_lines ev p cfg us created"
proof -
  obtain host port where e: "publicEndpoint cfg = (host, port)" by force
  let ?secret = "\<lambda>i. (case created of
           Some (c, secret) \<Rightarrow>
             if i = TenantID c then [''tenantSecret='' @ secret, ''tenantSecretSource=created''] else []
         | None \<Rightarrow> if i = [] then [''tenantSecret='', ''tenantSecretSource=created''] else [])"
  let ?F = "\<lambda>i n e. [[], ''tenantId='' @ i, ''displayName='' @ n, ''enabled='' @ bool_text e,
         ''connectionRelayHost='' @ host, ''connectionRelayPort='' @ Itoa port] @ ?secret i"
  have "map (\<lambda>t. ?F (TenantID t) (DisplayName t) (Enabled t)) ts = map (\<lambda>t. ?F (TenantID t) (DisplayName t) (Enabled t)) us"
    using assms by (rule public_map [where G = "\<lambda>(i, n, e, c). ?F i n e"]) (simp add: public_tenant_def)
  moreover have "length ts = length us" using map_eq_imp_length_eq [OF assms] .
  ultimately show ?thesis unfolding info_lines_def e Let_def prod.case by (simp only:)
qed

lemma discreet_ensured:
  assumes "\<And>ts us created w1 w2. map public_tenant ts = map public_tenant us \<Longrightarrow> alike w1 w2 \<Longrightarrow>
     f ts created w1 = f us created w2"
  shows "discreet (on_service cfg (ensure_tenant ev b name) (\<lambda>(ts, created). f ts created))"
proof (rule discreet_service [OF ensure_tenant_ni])
  fix x y :: "tenant list \<times> (tenant \<times> string) option" and w1 w2
  assume eq: "public_ensured x = public_ensured y" and al: "alike w1 w2"
  obtain ts us c where "x = (ts, c)" "y = (us, c)" "map public_tenant ts = map public_tenant us"
    using eq by (cases x; cases y) (auto simp: public_ensured_def)
  with assms [OF this(3) al, of c] show "(case x of (ts, created) \<Rightarrow> f ts created) w1 = (case y of (ts, created) \<Rightarrow> f ts created) w2"
    by simp
qed

lemma runInfo_discreet [disc]: "discreet (runInfo ev args)"
proof -
  let ?secret = "\<lambda>created. case created of None \<Rightarrow> None
     | Some c \<Rightarrow> if TenantID (fst c) \<noteq> [] then Some (secret_output c) else None"
  have "discreet (on_service cfg (ensure_tenant ev b name) (\<lambda>(ts, created) w1.
        if j then info_json (localInfoFromConfig ev w1 p cfg ts (?secret created))
        else Some (map Line (info_lines ev p cfg ts created))))" for cfg b name j p
  proof (rule discreet_ensured)
    fix ts us created w1 w2 assume pub: "map public_tenant ts = map public_tenant us" and al: "alike w1 w2"
    show "(if j then info_json (localInfoFromConfig ev w1 p cfg ts (?secret created))
        else Some (map Line (info_lines ev p cfg ts created))) =
      (if j then info_json (localInfoFromConfig ev w2 p cfg us (?secret created))
        else Some (map Line (info_lines ev p cfg us created)))"
      by (simp only: localInfo_public [OF pub al] info_lines_public [OF pub])
  qed
  then show ?thesis
    unfolding runInfo_def Let_def
    by (intro disc)
qed

lemma discreet_on_tenant:
  assumes "\<And>tid. noninterfering public_db g (m tid)" and "\<And>tid cfg x y. g x = g y \<Longrightarrow> f tid cfg x = f tid cfg y"
  shows "discreet (on_tenant ev args m f)"
proof -
  have "discreet (on_service cfg (m tid) (\<lambda>x _. Some (map Line (f tid cfg x))))" for tid cfg
    by (rule discreet_service [OF assms(1)]) (use assms(2) in metis)
  then show ?thesis unfolding on_tenant_def Let_def by (intro disc)
qed

lemma runTenant_discreet [disc]: "discreet (runTenant ev args)"
proof -
  have "discreet (on_service cfg (create_tenant ev 0 name) (\<lambda>(t, secret) _.
      Some [Line (''tenantId='' @ TenantID t), Line (''tenantSecret='' @ secret)]))" for cfg name
    by (rule discreet_service [OF create_tenant_ni]) (simp split: prod.splits)
  then have create: "discreet (runTenantCreate ev rest)" for rest
    unfolding runTenantCreate_def Let_def by (intro disc)
  have "map (\<lambda>t. Line (list_line t)) ts = map (\<lambda>t. Line (list_line t)) us"
    if "map public_tenant ts = map public_tenant us" for ts us
    using that by (rule public_map [where G = "\<lambda>(i, n, e, c). Line (i @ [CHR 0x09] @ n @ [CHR 0x09] @
        (if e then ''enabled'' else ''disabled''))"]) (simp add: list_line_def public_tenant_def)
  then have "discreet (on_service cfg (ListTenants (ce_flt ev 0)) (\<lambda>ts _. Some (map (\<lambda>t. Line (list_line t)) ts)))" for cfg
    by (intro discreet_service [OF ListTenants_ni]) blast
  then have list: "discreet (runTenantList ev rest)" for rest
    unfolding runTenantList_def by (intro disc)
  have show': "discreet (runTenantShow ev rest)" "discreet (runTenantPrintConnection ev rest)" for rest
    unfolding runTenantShow_def runTenantPrintConnection_def
    by (intro discreet_on_tenant [OF GetTenant_ni]; simp add: public_tenant_def)+
  have set: "discreet (runTenantSetEnabled ev rest b)" for rest b
    unfolding runTenantSetEnabled_def by (intro discreet_on_tenant [OF SetEnabled_ni]) simp
  have rotate: "discreet (runTenantRotateSecret ev rest)" for rest
    unfolding runTenantRotateSecret_def by (intro discreet_on_tenant [OF RotateSecret_ni]) simp
  show ?thesis
    unfolding runTenant_def by (cases args) (simp_all add: disc create list show' set rotate)
qed

lemma embed_tls_alike:
  assumes "alike w1 w2"
  shows "\<exists>r v1 v2. embed_tls ev b p cfg w1 = (r, v1) \<and> embed_tls ev b p cfg w2 = (r, v2) \<and> alike v1 v2"
proof -
  have pems: "wd_pems w1 = wd_pems w2" using assms by (simp add: alike_def world_view_def)
  have "alike (w1\<lparr>wd_pems := fs\<rparr>) (w2\<lparr>wd_pems := fs\<rparr>)" for fs
    using assms by (simp add: alike_def world_view_def)
  with assms show ?thesis
    by (auto simp: embed_tls_def Let_def pems split: option.splits prod.splits sum.splits)
qed

lemma runLocalInit_discreet: "discreet (runLocalInit ev args)"
proof -
  let ?finish = "\<lambda>r w1. case (r, w1) of
            (None, w1) \<Rightarrow> fail_code 1 w1
          | (Some (configPath, cfg1), w1) \<Rightarrow>
              if \<not> ensureParentDir ev configPath \<or> \<not> ensureParentDir ev (cf_StatePath cfg1) \<or> \<not> ce_write ev configPath
              then fail_code 1 w1
              else
                let w2 = Save configPath cfg1 w1 in
                (case info_json (localInfoFromConfig ev w2 configPath cfg1 [] None) of
                   None \<Rightarrow> fail_code 1 w2
                 | Some out \<Rightarrow> (0, out, w2))"
  have ending: "discreet (?finish r)" for r
  proof (rule discreetI)
    fix w1 w2 assume al: "alike w1 w2"
    then have al': "alike (Save p c w1) (Save p c w2)" for p c by (simp add: alike_def world_view_def Save_def)
    from localInfo_public [OF refl al'] have info:
      "localInfoFromConfig ev (Save p c w1) q c' [] None = localInfoFromConfig ev (Save p c w2) q c' [] None" for p c q c' .
    show "\<exists>c out w1' w2'. ?finish r w1 = (c, out, w1') \<and> ?finish r w2 = (c, out, w2') \<and> alike w1' w2'"
      using al al' by (cases r) (auto simp: fail_code_def Let_def info split: option.splits)
  qed
  have "discreet (\<lambda>w. case embed_tls ev b p cfg w of (r, w1) \<Rightarrow> ?finish r w1)" for b p cfg
  proof (rule discreetI)
    fix w1 w2 assume "alike w1 w2"
    from embed_tls_alike [OF this, of ev b p cfg] obtain r v1 v2
      where "embed_tls ev b p cfg w1 = (r, v1)" "embed_tls ev b p cfg w2 = (r, v2)" "alike v1 v2" by blast
    with discreetD [OF ending, of v1 v2 r] show "\<exists>c out w1' w2'.
        (case embed_tls ev b p cfg w1 of (r, w1) \<Rightarrow> ?finish r w1) = (c, out, w1') \<and>
        (case embed_tls ev b p cfg w2 of (r, w1) \<Rightarrow> ?finish r w1) = (c, out, w2') \<and> alike w1' w2'"
      by simp
  qed
  then show ?thesis
    unfolding runLocalInit_def prod.case_eq_if prod.collapse by (intro disc) (simp add: case_prod_beta)
qed

lemma runLocal_discreet [disc]: "discreet (runLocal ev args)"
proof -
  have info: "discreet (runLocalInfo ev rest)" for rest
  proof -
    have "discreet (on_service cfg (ListTenants (ce_flt ev 0)) (\<lambda>ts w1. info_json (localInfoFromConfig ev w1 p cfg ts None)))" for cfg p
      by (rule discreet_service [OF ListTenants_ni]) (rule arg_cong [where f = info_json], rule localInfo_public)
    then show ?thesis unfolding runLocalInfo_def Let_def by (intro disc)
  qed
  have ensure: "discreet (runLocalEnsureTenant ev rest)" for rest
  proof -
    have service: "discreet (on_service cfg (ensure_tenant ev True name) (\<lambda>(ts, created) w2.
        info_json (localInfoFromConfig ev w2 p cfg ts (map_option secret_output created))))" for cfg name p
      by (rule discreet_ensured) (rule arg_cong [where f = info_json], rule localInfo_public)
    have "discreet (\<lambda>w1. if localInfoFromConfig ev w1 p cfg [] None = None then fail_code 1 w1
        else on_service cfg (ensure_tenant ev True name) (\<lambda>(ts, created) w2.
          info_json (localInfoFromConfig ev w2 p cfg ts (map_option secret_output created))) w1)" for cfg name p
    proof (rule discreetI, goal_cases)
      case (1 w1 w2)
      with discreetD [OF service 1] localInfo_public [OF refl 1, of ev p cfg "[]" None] show ?case
        by (simp add: fail_code_def)
    qed
    then show ?thesis unfolding runLocalEnsureTenant_def Let_def by (intro disc)
  qed
  show ?thesis
    unfolding runLocal_def by (cases args) (simp_all add: disc info ensure runLocalInit_discreet)
qed

lemma other_commands_discreet [disc]:
  "discreet (runConfigure ev args)" "discreet (runDebug args)"
  unfolding runConfigure_def runDebug_def Let_def by (intro disc)+

lemma RunWithContext_discreet:
  assumes "args = [] \<or> hd args \<noteq> ''serve''"
  shows "discreet (RunWithContext ev args)"
  unfolding RunWithContext_def using assms by (cases args) (simp_all add: disc)

text \<open>A sequence of commands, each with its own environment: their exit codes and outputs, and the world after.\<close>

fun run_commands :: "(cli_env \<times> string list) list \<Rightarrow> world \<Rightarrow> (int \<times> out_item list) list \<times> world" where
  "run_commands [] w = ([], w)"
| "run_commands ((ev, args) # cmds) w =
     (case RunWithContext ev args w of (code, out, w1) \<Rightarrow>
      case run_commands cmds w1 of (res, w2) \<Rightarrow> ((code, out) # res, w2))"

text \<open>
  C34: The command line reveals no stored secret. Two installations with the same configurations and PEM
  files whose databases have the same tables and the same tenants up to their secret hashes, whatever
  their hosts, devices, invites, claims, challenges and tickets, cannot be told apart by any
  sequence of commands other than \<open>serve\<close>: the same exit codes, the same standard output, and they
  still look alike afterwards.
\<close>

theorem commands_reveal_no_secret:
  assumes "alike w1 w2" "\<forall>(ev, args)\<in>set cmds. args = [] \<or> hd args \<noteq> ''serve''"
  shows "fst (run_commands cmds w1) = fst (run_commands cmds w2) \<and>
    alike (snd (run_commands cmds w1)) (snd (run_commands cmds w2))"
  using assms
proof (induction cmds arbitrary: w1 w2)
  case (Cons cmd cmds)
  obtain ev args where cmd: "cmd = (ev, args)" by force
  with Cons.prems(2) have "discreet (RunWithContext ev args)" by (intro RunWithContext_discreet) simp
  from discreetD [OF this Cons.prems(1)] obtain c out v1 v2
    where "RunWithContext ev args w1 = (c, out, v1)" "RunWithContext ev args w2 = (c, out, v2)" "alike v1 v2"
    by blast
  with Cons.IH [of v1 v2] Cons.prems(2) show ?case
    by (cases "run_commands cmds v1"; cases "run_commands cmds v2") (simp add: cmd)
qed simp

end
