(* ===== verification/Cli_Tenant.thy ===== *)
theory Cli_Tenant
  imports Cli
begin

text \<open>
  Setting up an installation: what \<open>local ensure-tenant\<close> creates, that it does so once, and that the
  configuration \<open>local init\<close> writes is one the server accepts.
\<close>

section \<open>Ensuring a tenant\<close>

definition listed :: "db \<Rightarrow> tenant list" where
  "listed d = map tenant_of_row (sort_key (\<lambda>r. (tn_created_at r, tn_tenant_id r)) (tenants d))"

definition out_tenant :: "tenant \<Rightarrow> local_tenant_output" where
  "out_tenant t = \<lparr>lto_TenantID = TenantID t, lto_DisplayName = DisplayName t, lto_Enabled = Enabled t\<rparr>"

lemma listed_Nil [simp]: "listed d = [] \<longleftrightarrow> tenants d = []"
  by (simp add: listed_def) (metis length_0_conv length_sort)

lemma ensure_tenant_ok:
  "ensure_tenant ev True name d = (Inr (ts, created), d') \<Longrightarrow>
   tenants d \<noteq> [] \<and> created = None \<and> d' = d \<and> ts = listed d \<or>
   tenants d = [] \<and> (\<exists>c. created = Some c \<and> ts = [fst c] \<and> create_tenant ev 1 name d = (Inr c, d'))"
  by (auto simp: ensure_tenant_def ListTenants_def listed_def [symmetric] tx_inv split: if_splits)

lemma localInfo_fields:
  "localInfoFromConfig ev w p cfg ts secret = Some i \<Longrightarrow> li_Tenants i = map out_tenant ts \<and> li_Secret i = secret"
  by (auto simp: localInfoFromConfig_def out_tenant_def [abs_def] Let_def split: prod.splits if_splits sum.splits)

lemma localInfo_None:
  "localInfoFromConfig ev w p cfg ts secret = None \<longleftrightarrow>
   tl_Enabled (cf_TLS cfg) \<and>
   isl (ValidateTLSCertificatePair (ce_cert ev) (tl_CertFile (cf_TLS cfg)) (tl_KeyFile (cf_TLS cfg)) (wd_pems w))"
  by (auto simp: localInfoFromConfig_def Let_def split: prod.splits sum.splits)

abbreviation ensure_flags :: "string list \<Rightarrow> flags option" where
  "ensure_flags args \<equiv> parse_flags [(''config'', StringFlag), (''name'', StringFlag), (''json'', BoolFlag)] args []"

abbreviation config_flag :: "flags \<Rightarrow> string" where
  "config_flag fl \<equiv> flag_value fl ''config'' ''relay-config.json''"

text \<open>The parts of a successful run.\<close>

lemma runLocalEnsureTenant_ok:
  assumes "runLocalEnsureTenant ev args w = (0, out, w')"
  obtains fl cfg fs d d' ts created i where
    "ensure_flags args = Some fl" "flag_set fl ''json''"
    "Load (config_flag fl) w = Some cfg" "Open (ce_open ev) (cf_StatePath cfg) (wd_stores w) = (Inr (), fs)"
    "d = df_rows (db_file (cf_StatePath cfg) fs)"
    "ensure_tenant ev True (flag_value fl ''name'' ''Local'') d = (Inr (ts, created), d')"
    "w' = w\<lparr>wd_stores := map_put (cf_StatePath cfg) ((db_file (cf_StatePath cfg) fs)\<lparr>df_rows := d'\<rparr>) fs\<rparr>"
    "localInfoFromConfig ev w' (config_flag fl) cfg ts (map_option secret_output created) = Some i" "out = [InfoJSON i]"
proof -
  obtain fl where fl: "ensure_flags args = Some fl"
    using assms by (cases "ensure_flags args") (auto simp: runLocalEnsureTenant_def fail_code_def)
  let ?p = "config_flag fl" and ?n = "flag_value fl ''name'' ''Local''"
  note defs = runLocalEnsureTenant_def openTenantService_def fail_code_def Let_def
  have json: "flag_set fl ''json''" using assms fl by (auto simp: defs split: if_splits)
  obtain cfg where cfg: "Load ?p w = Some cfg"
    using assms fl json by (cases "Load ?p w") (auto simp: defs)
  obtain r fs where op: "Open (ce_open ev) (cf_StatePath cfg) (wd_stores w) = (r, fs)" by force
  have r: "r = Inr ()" using assms fl json cfg op by (cases r) (auto simp: defs)
  obtain q d' where en: "ensure_tenant ev True ?n (df_rows (db_file (cf_StatePath cfg) fs)) = (q, d')" by force
  let ?w = "w\<lparr>wd_stores := map_put (cf_StatePath cfg) ((db_file (cf_StatePath cfg) fs)\<lparr>df_rows := d'\<rparr>) fs\<rparr>"
  have on: "on_service cfg (ensure_tenant ev True ?n) (\<lambda>(ts, created) w2.
      info_json (localInfoFromConfig ev w2 ?p cfg ts (map_option secret_output created))) (w\<lparr>wd_stores := fs\<rparr>) = (0, out, w')"
    using assms fl json cfg op r by (auto simp: defs split: if_splits)
  then obtain ts created where q: "q = Inr (ts, created)"
    using en by (cases q) (auto simp: on_service_def on_db_def fail_code_def Let_def)
  with on en obtain i where i: "localInfoFromConfig ev ?w ?p cfg ts (map_option secret_output created) = Some i"
    "out = [InfoJSON i]" "w' = ?w"
    by (auto simp: on_service_def on_db_def fail_code_def Let_def info_json_def split: option.splits)
  show thesis
    using that [of fl cfg fs _ ts created d' i] fl json cfg op r en q i by simp
qed

lemma create_tenant_row:
  assumes "create_tenant ev n name d = (Inr (t, secret), d')" "tenants d = []"
  shows "\<exists>r. tenants d' = [r] \<and> tn_tenant_id r = TenantID t \<and> out_tenant (tenant_of_row r) = out_tenant t \<and>
    VerifySecretHash (ce_crypto ev) (tn_secret_hash r) secret"
  using assms(1)[unfolded create_tenant_def]
proof (rule Create_result)
  fix raw hash
  let ?r = "\<lparr>tn_tenant_id = tenant_uuid raw, tn_display_name = TrimSpace name, tn_enabled = 1,
       tn_secret_hash = hash, tn_created_at = RFC3339Nano (ce_now ev)\<rparr>"
  assume hash: "HashSecret (ce_crypto ev) (ce_rand ev 2) secret = Inr hash"
    and t: "t = \<lparr>TenantID = tenant_uuid raw, DisplayName = TrimSpace name, Enabled = True,
      SecretHash = hash, CreatedAt = ce_now ev\<rparr>"
    and ins: "insert_tenant ?r d = Some ((), d')"
  have "tenants d' = [?r]" using ins assms(2) by (auto simp: insert_tenant_def split: if_splits)
  with t VerifySecret_HashSecret [OF hash] show ?thesis
    by (simp add: out_tenant_def tenant_of_row_def VerifySecretHash_def)
qed

text \<open>A run that ensures a tenant: the listed tenants are those stored, and a new secret is for the only one.\<close>

lemma ensured_state:
  assumes "ensure_tenant ev True name d = (Inr (ts, created), d')"
  shows "tenants d' \<noteq> []" "map out_tenant ts = map out_tenant (listed d')"
    "\<And>t secret. created = Some (t, secret) \<Longrightarrow> \<exists>r. tenants d' = [r] \<and> tn_tenant_id r = TenantID t \<and>
       VerifySecretHash (ce_crypto ev) (tn_secret_hash r) secret"
proof -
  have "tenants d' \<noteq> [] \<and> map out_tenant ts = map out_tenant (listed d') \<and>
    (\<forall>t secret. created = Some (t, secret) \<longrightarrow> (\<exists>r. tenants d' = [r] \<and> tn_tenant_id r = TenantID t \<and>
       VerifySecretHash (ce_crypto ev) (tn_secret_hash r) secret))"
    using ensure_tenant_ok [OF assms]
  proof (elim disjE conjE exE)
    fix c assume c: "created = Some c" "ts = [fst c]" "create_tenant ev 1 name d = (Inr c, d')" "tenants d = []"
    obtain t secret where "c = (t, secret)" by force
    with c create_tenant_row [of ev 1 name d t secret d'] show ?thesis by (auto simp: listed_def)
  qed simp
  then show "tenants d' \<noteq> []" "map out_tenant ts = map out_tenant (listed d')"
    "\<And>t secret. created = Some (t, secret) \<Longrightarrow> \<exists>r. tenants d' = [r] \<and> tn_tenant_id r = TenantID t \<and>
       VerifySecretHash (ce_crypto ev) (tn_secret_hash r) secret"
    by blast+
qed

lemma Open_tenants:
  assumes "Open flt path fs = (res, fs')"
  shows "tenants (df_rows (db_file path fs')) = tenants (df_rows (db_file path fs))"
  using Open_effect(2) [OF assms] by (auto simp: migrated_rows)

text \<open>Without driver faults, a run that succeeded succeeds again.\<close>

lemma ensure_tenant_again:
  assumes "runLocalEnsureTenant ev args w = (0, out, w1)" "ce_open ev = no_faults" "ce_flt ev = (\<lambda>_. no_faults)"
  shows "\<exists>out' w2. runLocalEnsureTenant ev args w1 = (0, out', w2)"
proof -
  from assms(1) obtain fl cfg fs d d' ts created i where run: "ensure_flags args = Some fl" "flag_set fl ''json''"
    "Load (config_flag fl) w = Some cfg" "ensure_tenant ev True (flag_value fl ''name'' ''Local'') d = (Inr (ts, created), d')"
    "w1 = w\<lparr>wd_stores := map_put (cf_StatePath cfg) ((db_file (cf_StatePath cfg) fs)\<lparr>df_rows := d'\<rparr>) fs\<rparr>"
    "localInfoFromConfig ev w1 (config_flag fl) cfg ts (map_option secret_output created) = Some i"
    by (rule runLocalEnsureTenant_ok) blast
  have load: "Load (config_flag fl) w1 = Some cfg" using run(3) by (simp add: run(5) Load_def)
  obtain fs' where op: "Open no_faults (cf_StatePath cfg) (wd_stores w1) = (Inr (), fs')" using Open_no_faults by blast
  let ?e = "df_rows (db_file (cf_StatePath cfg) fs')"
  have "tenants ?e = tenants d'" using Open_tenants [OF op] by (simp add: run(5))
  then have "tenants ?e \<noteq> []" using ensured_state(1) [OF run(4)] by simp
  then have en: "ensure_tenant ev True n ?e = (Inr (listed ?e, None), ?e)" for n
    by (simp add: ensure_tenant_def ListTenants_def listed_def [symmetric] tx_simps assms(3))
  have info: "localInfoFromConfig ev (w1\<lparr>wd_stores := x\<rparr>) p cfg us s \<noteq> None" for x p us s
    using run(6) localInfo_None [of ev "w1\<lparr>wd_stores := x\<rparr>" p cfg us s]
      localInfo_None [of ev w1 "config_flag fl" cfg ts "map_option secret_output created"] by simp
  have "\<exists>out' w2. on_service cfg (ensure_tenant ev True n) (\<lambda>(ts, created) w2.
      info_json (localInfoFromConfig ev w2 p cfg ts (map_option secret_output created))) (w1\<lparr>wd_stores := fs'\<rparr>) = (0, out', w2)"
    for n p
    by (auto simp: on_service_def on_db_def info_json_def en Let_def info split: option.splits)
  then show ?thesis
    using run(1,2) load op by (simp add: runLocalEnsureTenant_def openTenantService_def assms(2) Let_def info)
qed

text \<open>
  C37: \<open>local ensure-tenant\<close> hands out a secret at most once. When it succeeds, the tenants it prints are the
  stored ones and there is at least one; a secret it prints is accepted by the stored hash of the only
  tenant. When it succeeds again with the same arguments, it prints the same tenants and no
  secret, and no tenant has changed.
\<close>

theorem ensure_tenant_once:
  assumes "runLocalEnsureTenant ev args w = (0, out, w1)" "runLocalEnsureTenant ev' args w1 = (0, out', w2)"
  shows "\<exists>path i i'. out = [InfoJSON i] \<and> out' = [InfoJSON i'] \<and> li_Tenants i \<noteq> [] \<and>
    li_Tenants i' = li_Tenants i \<and> li_Secret i' = None \<and>
    (let stored = (\<lambda>w. tenants (df_rows (db_file path (wd_stores w)))) in
     set (map lto_TenantID (li_Tenants i)) = tn_tenant_id ` set (stored w1) \<and> stored w2 = stored w1 \<and>
     (\<forall>s. li_Secret i = Some s \<longrightarrow> (\<exists>r. stored w1 = [r] \<and> tn_tenant_id r = lso_TenantID s \<and>
        VerifySecretHash (ce_crypto ev) (tn_secret_hash r) (lso_Value s))))"
proof -
  from assms(1) obtain fl cfg fs d d' ts created i where
    run: "ensure_flags args = Some fl" "Load (config_flag fl) w = Some cfg"
      "ensure_tenant ev True (flag_value fl ''name'' ''Local'') d = (Inr (ts, created), d')"
      "w1 = w\<lparr>wd_stores := map_put (cf_StatePath cfg) ((db_file (cf_StatePath cfg) fs)\<lparr>df_rows := d'\<rparr>) fs\<rparr>"
      "localInfoFromConfig ev w1 (config_flag fl) cfg ts (map_option secret_output created) = Some i" "out = [InfoJSON i]"
    by (rule runLocalEnsureTenant_ok) blast
  from assms(2) obtain fl' cfg' fs' e e' ts' created' i' where
    run': "ensure_flags args = Some fl'" "Load (config_flag fl') w1 = Some cfg'"
      "Open (ce_open ev') (cf_StatePath cfg') (wd_stores w1) = (Inr (), fs')"
      "e = df_rows (db_file (cf_StatePath cfg') fs')"
      "ensure_tenant ev' True (flag_value fl' ''name'' ''Local'') e = (Inr (ts', created'), e')"
      "w2 = w1\<lparr>wd_stores := map_put (cf_StatePath cfg') ((db_file (cf_StatePath cfg') fs')\<lparr>df_rows := e'\<rparr>) fs'\<rparr>"
      "localInfoFromConfig ev' w2 (config_flag fl') cfg' ts' (map_option secret_output created') = Some i'" "out' = [InfoJSON i']"
    by (rule runLocalEnsureTenant_ok) blast
  have "Load p w1 = Load p w" for p by (simp add: Load_def run(4))
  then have cfg: "cfg' = cfg" using run(1,2) run'(1,2) by simp
  note info = localInfo_fields [OF run(5)] and info' = localInfo_fields [OF run'(7)]
  have stored1: "tenants (df_rows (db_file (cf_StatePath cfg) (wd_stores w1))) = tenants d'" by (simp add: run(4))
  have e: "tenants e = tenants d'"
    using Open_tenants [OF run'(3)] run'(4) stored1 by (simp add: cfg)
  note first = ensured_state [OF run(3)]
  have again: "created' = None" "e' = e" "ts' = listed e"
    using ensure_tenant_ok [OF run'(5)] first(1) e by auto
  have ids: "set (map lto_TenantID (li_Tenants i)) = tn_tenant_id ` set (tenants d')"
    using first(2) by (simp add: info listed_def out_tenant_def tenant_of_row_def image_image)
  have secret: "\<exists>r. tenants d' = [r] \<and> tn_tenant_id r = lso_TenantID s \<and>
      VerifySecretHash (ce_crypto ev) (tn_secret_hash r) (lso_Value s)" if "li_Secret i = Some s" for s
    using that first(3) by (auto simp: info secret_output_def)
  have "listed e = listed d'" by (simp add: listed_def e)
  then have same: "li_Tenants i' = li_Tenants i" "li_Secret i' = None"
    using first(2) by (simp_all add: info info' again)
  have "li_Tenants i \<noteq> []" using first(1,2) by (simp add: info)
  moreover have "tenants (df_rows (db_file (cf_StatePath cfg) (wd_stores w2))) = tenants d'"
    by (simp add: run'(6) cfg again e)
  ultimately show ?thesis
    unfolding Let_def using run(6) run'(8) same stored1 ids secret
    by (intro exI [of _ "cf_StatePath cfg"] exI [of _ i] exI [of _ i']) simp
qed

section \<open>Local configurations\<close>

lemma port_flag_range: "port_flag v c = Some n \<Longrightarrow> 0 \<le> c \<Longrightarrow> c \<le> 65535 \<Longrightarrow> 0 \<le> n \<and> n \<le> 65535"
  by (auto simp: port_flag_def parsePort_def split: if_splits option.splits)

lemma internal_listener_only:
  "cf_InternalListenHost c = cf_InternalListenHost c' \<Longrightarrow> cf_InternalListenPort c = cf_InternalListenPort c' \<Longrightarrow>
   cf_ListenPort c = cf_ListenPort c' \<Longrightarrow> ValidateInternalListener c = ValidateInternalListener c'"
  by (simp only: ValidateInternalListener_def)

lemma local_config_ok:
  assumes "local_config fl = Some cfg"
  shows "0 \<le> cf_ListenPort cfg \<and> cf_ListenPort cfg \<le> 65535 \<and> 0 \<le> cf_PublicPort cfg \<and> cf_PublicPort cfg \<le> 65535"
    "ValidateInternalListener cfg = None" "cf_InternalListenHost cfg \<noteq> [] \<Longrightarrow> flag_set fl ''embedded-tls''"
proof -
  have d: "0 \<le> cf_ListenPort Default" "cf_ListenPort Default \<le> 65535" "0 \<le> cf_PublicPort Default"
    "cf_PublicPort Default \<le> 65535" by (simp_all add: Default_def)
  from assms obtain c listenPort publicPort where
    ports: "port_flag (flag_value fl ''listen-port'' []) (cf_ListenPort Default) = Some listenPort"
      "port_flag (flag_value fl ''public-port'' []) (cf_PublicPort Default) = Some publicPort"
    and ok: "ValidateInternalListener c = None" "cf_InternalListenHost c \<noteq> [] \<longrightarrow> flag_set fl ''embedded-tls''"
    and c: "cf_ListenPort c = listenPort" "cfg = c\<lparr>cf_PublicHost := flag_value fl ''public-host'' [],
      cf_PublicPort := publicPort, cf_PublicTLS := flag_set fl ''public-tls''\<rparr>"
    by (auto simp: local_config_def Let_def split: option.splits if_splits)
  show "0 \<le> cf_ListenPort cfg \<and> cf_ListenPort cfg \<le> 65535 \<and> 0 \<le> cf_PublicPort cfg \<and> cf_PublicPort cfg \<le> 65535"
    using port_flag_range [OF ports(1) d(1,2)] port_flag_range [OF ports(2) d(3,4)] c by simp
  show "ValidateInternalListener cfg = None"
    using ok(1) internal_listener_only [of cfg c] c(2) by simp
  show "flag_set fl ''embedded-tls''" if "cf_InternalListenHost cfg \<noteq> []"
    using ok(2) c(2) that by simp
qed

lemma runLocalInit_ok:
  assumes "runLocalInit ev args w = (0, out, w')"
  obtains fl path cfg cfg0 where "local_config fl = Some cfg0" "wd_configs w' = map_put path cfg (wd_configs w)"
    "cfg = cfg0 \<and> \<not> flag_set fl ''embedded-tls'' \<or>
     flag_set fl ''embedded-tls'' \<and> (\<exists>t. cfg = cfg0\<lparr>cf_TLS := t\<rparr> \<and> tl_Enabled t)"
proof -
  from assms obtain fl cfg0 where fl: "local_config fl = Some cfg0" and
    init: "(case embed_tls ev (flag_set fl ''embedded-tls'') (flag_value fl ''config'' ''relay-config.json'') cfg0 w of
            (None, w1) \<Rightarrow> fail_code 1 w1
          | (Some (configPath, cfg1), w1) \<Rightarrow>
              if \<not> ensureParentDir ev configPath \<or> \<not> ensureParentDir ev (cf_StatePath cfg1) \<or> \<not> ce_write ev configPath
              then fail_code 1 w1
              else
                let w2 = Save configPath cfg1 w1 in
                (case info_json (localInfoFromConfig ev w2 configPath cfg1 [] None) of
                   None \<Rightarrow> fail_code 1 w2
                 | Some out \<Rightarrow> (0, out, w2))) = (0, out, w')"
    by (auto simp: runLocalInit_def fail_code_def split: option.splits if_splits)
  obtain r w1 where em: "embed_tls ev (flag_set fl ''embedded-tls'') (flag_value fl ''config'' ''relay-config.json'') cfg0 w = (r, w1)"
    by force
  with init obtain path cfg where r: "r = Some (path, cfg)" and w': "w' = Save path cfg w1"
    by (cases r) (auto simp: fail_code_def Let_def split: if_splits option.splits)
  have "wd_configs w1 = wd_configs w \<and> (cfg = cfg0 \<and> \<not> flag_set fl ''embedded-tls'' \<or>
     flag_set fl ''embedded-tls'' \<and> (\<exists>t. cfg = cfg0\<lparr>cf_TLS := t\<rparr> \<and> tl_Enabled t))"
    using em r by (auto simp: embed_tls_def Let_def split: if_splits option.splits prod.splits sum.splits)
  with fl w' show thesis by (intro that [of fl cfg0 path cfg]) (simp_all add: Save_def)
qed

text \<open>
  The configuration \<open>local init\<close> writes passes the checks of \<open>Serve\<close>: its ports are in range, its internal
  listener is accepted by \<open>ValidateInternalListener\<close> and comes with TLS on the public one. So a
  relay started with it fails only when its identity, its certificate or a listening address is
  not available. When its strings are valid UTF-8, it reads back as it was written.
\<close>

lemma local_init_config_serves:
  assumes "runLocalInit ev args w = (0, out, w')"
  shows "\<exists>path cfg. wd_configs w' = map_put path cfg (wd_configs w) \<and>
    0 \<le> cf_ListenPort cfg \<and> cf_ListenPort cfg \<le> 65535 \<and> 0 \<le> cf_PublicPort cfg \<and> cf_PublicPort cfg \<le> 65535 \<and>
    ValidateInternalListener cfg = None \<and> (cf_InternalListenHost cfg \<noteq> [] \<longrightarrow> tl_Enabled (cf_TLS cfg)) \<and>
    (\<forall>le s s1. ensureAuth (le_load le) s = (None, s1) \<longrightarrow> (\<forall>c k. le_certificate le c k) \<longrightarrow>
      (\<forall>a. le_listen le a) \<longrightarrow> (\<exists>ls. Serve le cfg s = (Inr ls, ls, s1))) \<and>
    (list_all utf8_valid [cf_ListenHost cfg, cf_InternalListenHost cfg, cf_PublicHost cfg, cf_StatePath cfg,
       tl_CertFile (cf_TLS cfg), tl_KeyFile (cf_TLS cfg)] \<longrightarrow> Load path w' = Some cfg)"
  using assms
proof (rule runLocalInit_ok)
  fix fl path cfg cfg0
  assume loc: "local_config fl = Some cfg0" and w': "wd_configs w' = map_put path cfg (wd_configs w)"
    and cfg: "cfg = cfg0 \<and> \<not> flag_set fl ''embedded-tls'' \<or>
     flag_set fl ''embedded-tls'' \<and> (\<exists>t. cfg = cfg0\<lparr>cf_TLS := t\<rparr> \<and> tl_Enabled t)"
  note ok = local_config_ok [OF loc]
  have valid: "ValidateInternalListener cfg = None"
    using ok(2) cfg internal_listener_only [of cfg cfg0] by auto
  have tls: "cf_InternalListenHost cfg \<noteq> [] \<longrightarrow> tl_Enabled (cf_TLS cfg)" using cfg ok(3) by auto
  have serves: "\<exists>ls. Serve le cfg s = (Inr ls, ls, s1)"
    if "ensureAuth (le_load le) s = (None, s1)" "\<forall>c k. le_certificate le c k" "\<forall>a. le_listen le a" for le s s1
    using that valid tls
    by (auto simp: Serve_def open_listeners_def buildTLSConfig_def net_listen_def tx_catch_def tx_simps Let_def)
  have "Load path w' = Some cfg"
    if "list_all utf8_valid [cf_ListenHost cfg, cf_InternalListenHost cfg, cf_PublicHost cfg, cf_StatePath cfg,
       tl_CertFile (cf_TLS cfg), tl_KeyFile (cf_TLS cfg)]"
    using that by (simp add: Load_def w' json_copy_def unmarshal_quote)
  with w' ok(1) cfg valid tls serves show ?thesis
    by (intro exI [of _ path] exI [of _ cfg]) auto
qed

end
