(* ===== verification/Identity_File.thy ===== *)
theory Identity_File
  imports Security Session
begin

text \<open>
  The relay's identity key on disk (\<open>LoadOrCreateRelayIdentity\<close> of \<open>internal/security/relay_identity.go\<close>):
  read it, or generate it and publish it with an atomic rename. Key generation and the PKCS 8
  encoding (\<open>crypto/ecdsa\<close>, \<open>crypto/x509\<close>) are functions of the environment; \<open>ie_parse\<close> also says whether
  the key is an ECDSA key on P-256. The temporary file is removed on every failure, so only the
  published file is part of the state. \<open>ie_flt\<close> numbers the file operations of the publication.
\<close>

record identity_env =
  ie_read_fails :: bool
  ie_parse :: "bytes \<Rightarrow> (bool \<times> signer) option"
  ie_generate :: "signer option"
  ie_encode :: "signer \<Rightarrow> bytes option"
  ie_flt :: faults

type_synonym identity_files = "(string \<times> bytes) list"

definition parseRelayIdentity :: "identity_env \<Rightarrow> bytes \<Rightarrow> signer result" where
  "parseRelayIdentity ev encoded =
     (case ie_parse ev encoded of
        None \<Rightarrow> Inl ''parse relay identity''
      | Some (p256, key) \<Rightarrow>
          if p256 then Inr key else Inl ''relay identity must be an ECDSA P-256 private key'')"

definition writeIdentityAtomically :: "identity_env \<Rightarrow> string \<Rightarrow> bytes \<Rightarrow> (identity_files, unit) tx" where
  "writeIdentityAtomically ev path encoded =
     tx_call (ie_flt ev 0) ''create relay identity temporary file''
    (tx_call (ie_flt ev 1) ''set relay identity permissions''
    (tx_call (ie_flt ev 2) ''write relay identity''
    (tx_call (ie_flt ev 3) ''sync relay identity''
    (tx_call (ie_flt ev 4) ''close relay identity''
    (tx_call (ie_flt ev 5) ''publish relay identity''
    (tx_bind (tx_exec ''rename'' (\<lambda>fs. Some ((), map_put path encoded fs))) (\<lambda>_.
     tx_call (ie_flt ev 6) ''set published relay identity permissions'' (tx_ret ()))))))))"

definition LoadOrCreateRelayIdentity :: "identity_env \<Rightarrow> string \<Rightarrow> (identity_files, signer) tx" where
  "LoadOrCreateRelayIdentity ev path =
     tx_call (ie_read_fails ev) ''read relay identity''
    (tx_bind (tx_query (\<lambda>fs. map_of fs path)) (\<lambda>stored.
     case stored of
       Some encoded \<Rightarrow> tx_lift (parseRelayIdentity ev encoded)
     | None \<Rightarrow>
         tx_bind (tx_some ''generate relay identity'' (ie_generate ev)) (\<lambda>privateKey.
         tx_bind (tx_some ''encode relay identity'' (ie_encode ev privateKey)) (\<lambda>encoded.
         tx_bind (writeIdentityAtomically ev path encoded) (\<lambda>_. tx_ret privateKey)))))"

section \<open>The identity persists\<close>

lemma LoadOrCreate_files:
  "LoadOrCreateRelayIdentity ev path fs = (res, fs') \<Longrightarrow>
   fs' = fs \<and> (\<forall>sg. res = Inr sg \<longrightarrow> (\<exists>enc. map_of fs path = Some enc \<and> parseRelayIdentity ev enc = Inr sg)) \<or>
   (\<exists>sg enc. map_of fs path = None \<and> ie_generate ev = Some sg \<and> ie_encode ev sg = Some enc \<and>
     fs' = map_put path enc fs \<and> (\<forall>sg'. res = Inr sg' \<longrightarrow> sg' = sg))"
  by (auto simp: LoadOrCreateRelayIdentity_def writeIdentityAtomically_def tx_simps
      split: if_splits option.splits)

text \<open>
  C38: The relay keeps its identity. A stored key is never overwritten and no other file is touched,
  whatever fails; and once a start of the relay has obtained an identity, every later start that can
  read the file obtains the same one, provided that parsing a PKCS 8 encoding gives back the
  P-256 key that was encoded.
\<close>

theorem relay_identity_persists:
  assumes "LoadOrCreateRelayIdentity ev path fs = (res, fs')"
    and "\<And>key enc. ie_encode ev key = Some enc \<Longrightarrow> ie_generate ev = Some key \<Longrightarrow> ie_parse ev enc = Some (True, key)"
  shows "(\<forall>enc. map_of fs path = Some enc \<longrightarrow> fs' = fs) \<and>
    (\<forall>q. q \<noteq> path \<longrightarrow> map_of fs' q = map_of fs q) \<and>
    (\<forall>sg later. res = Inr sg \<longrightarrow> \<not> ie_read_fails later \<longrightarrow> ie_parse later = ie_parse ev \<longrightarrow>
       LoadOrCreateRelayIdentity later path fs' = (Inr sg, fs'))"
proof -
  have stored: "\<exists>enc. map_of fs' path = Some enc \<and> parseRelayIdentity ev enc = Inr sg" if "res = Inr sg" for sg
    using LoadOrCreate_files [OF assms(1)] that assms(2) by (auto simp: parseRelayIdentity_def)
  have "LoadOrCreateRelayIdentity later path fs' = (Inr sg, fs')"
    if "res = Inr sg" "\<not> ie_read_fails later" "ie_parse later = ie_parse ev" for sg later
    using stored [OF that(1)] that(2,3)
    by (auto simp: LoadOrCreateRelayIdentity_def tx_simps parseRelayIdentity_def)
  with LoadOrCreate_files [OF assms(1)] show ?thesis by auto
qed

end
