(* ===== verification/Lifecycle.thy ===== *)
theory Lifecycle
  imports Listeners Relay_Control
begin

text \<open>
  Serving and stopping (\<open>serveBoth\<close>, \<open>serve\<close> and \<open>shutdown\<close> in \<open>internal/relay/server.go\<close>): one HTTP server per
  listener, each with a goroutine that serves and one that waits for the cancellation and shuts it
  down, beside the relay they share. What \<open>net/http\<close> does is in the rules: a server may stop with an error at any
  time, it stops with \<open>ErrServerClosed\<close> once its shutdown was called, and its shutdown returns, with an
  error or without. Steps of the goroutines interleave with each other and with the relay's.
\<close>

section \<open>Goroutines as steps\<close>

abbreviation (input) ErrServerClosed :: string where "ErrServerClosed \<equiv> ''http: Server closed''"

text \<open>
  The goroutine of \<open>serve\<close>: in \<open>Serve\<close> or \<open>ServeTLS\<close>, after it with its error, after its own \<open>cancel\<close>, returned.
  The goroutine that shuts down: waiting for the context, after \<open>beginShutdown\<close>, in the HTTP server's
  \<open>Shutdown\<close>, waiting for the handlers, and its result in the channel \<open>shutdownDone\<close>.
\<close>

datatype serve_phase =
    Listening
  | Stopped "string option"
  | Awaiting "string option"
  | Ended "string option"

datatype watch_phase =
    Watching
  | Begun
  | Closing
  | Draining
  | Reported "string option"

record http_server =
  hs_serve :: serve_phase
  hs_watch :: watch_phase
  hs_cancelled :: bool
  hs_closed :: bool

record lifecycle =
  lc_relay :: relay
  lc_ctx :: bool
  lc_cancelled :: bool
  lc_servers :: "http_server list"
  lc_first :: "(nat \<times> string option) option"
  lc_result :: "string option option"

definition start_lifecycle :: "nat \<Rightarrow> relay \<Rightarrow> lifecycle" where
  "start_lifecycle n r = \<lparr>lc_relay = r, lc_ctx = False, lc_cancelled = False,
     lc_servers = replicate n \<lparr>hs_serve = Listening, hs_watch = Watching, hs_cancelled = False, hs_closed = False\<rparr>,
     lc_first = None, lc_result = None\<rparr>"

definition put_server :: "nat \<Rightarrow> http_server \<Rightarrow> lifecycle \<Rightarrow> lifecycle" where
  "put_server i h c = c\<lparr>lc_servers := (lc_servers c)[i := h]\<rparr>"

definition has_server :: "nat \<Rightarrow> http_server \<Rightarrow> lifecycle \<Rightarrow> bool" where
  "has_server i h c \<longleftrightarrow> i < length (lc_servers c) \<and> lc_servers c ! i = h"

inductive serve_step :: "lifecycle \<Rightarrow> lifecycle \<Rightarrow> bool" where
  fails: "has_server i h c \<Longrightarrow> hs_serve h = Listening \<Longrightarrow> e \<noteq> ErrServerClosed \<Longrightarrow>
    serve_step c (put_server i (h\<lparr>hs_serve := Stopped (Some e)\<rparr>) c)"
| closed: "has_server i h c \<Longrightarrow> hs_serve h = Listening \<Longrightarrow> hs_closed h \<Longrightarrow>
    serve_step c (put_server i (h\<lparr>hs_serve := Stopped (Some ErrServerClosed)\<rparr>) c)"
| cancel: "has_server i h c \<Longrightarrow> hs_serve h = Stopped err \<Longrightarrow>
    serve_step c (put_server i (h\<lparr>hs_serve := Awaiting err, hs_cancelled := True\<rparr>) c)"
| begin_shutdown: "has_server i h c \<Longrightarrow> hs_watch h = Watching \<Longrightarrow> lc_ctx c \<or> lc_cancelled c \<or> hs_cancelled h \<Longrightarrow>
    beginShutdown (rl_server (lc_relay c)) = (cs, s') \<Longrightarrow>
    serve_step c (put_server i (h\<lparr>hs_watch := Begun\<rparr>) (c\<lparr>lc_relay := serving s' (lc_relay c)\<rparr>))"
| http_shutdown: "has_server i h c \<Longrightarrow> hs_watch h = Begun \<Longrightarrow>
    serve_step c (put_server i (h\<lparr>hs_watch := Closing, hs_closed := True\<rparr>) c)"
| shutdown_failed: "has_server i h c \<Longrightarrow> hs_watch h = Closing \<Longrightarrow>
    serve_step c (put_server i (h\<lparr>hs_watch := Reported (Some ''shutdown HTTP server'')\<rparr>) c)"
| shutdown_ok: "has_server i h c \<Longrightarrow> hs_watch h = Closing \<Longrightarrow>
    serve_step c (put_server i (h\<lparr>hs_watch := Draining\<rparr>) c)"
| drained: "has_server i h c \<Longrightarrow> hs_watch h = Draining \<Longrightarrow> sv_webSocketWG (rl_server (lc_relay c)) = 0 \<Longrightarrow>
    serve_step c (put_server i (h\<lparr>hs_watch := Reported None\<rparr>) c)"
| timed_out: "has_server i h c \<Longrightarrow> hs_watch h = Draining \<Longrightarrow>
    serve_step c (put_server i (h\<lparr>hs_watch := Reported (Some ''wait for WebSocket handlers'')\<rparr>) c)"
| returns: "has_server i h c \<Longrightarrow> hs_serve h = Awaiting err \<Longrightarrow> hs_watch h = Reported shutdownErr \<Longrightarrow>
    serve_step c (put_server i (h\<lparr>hs_serve := Ended (serve_result err shutdownErr)\<rparr>) c)"
| single: "length (lc_servers c) = 1 \<Longrightarrow> has_server 0 h c \<Longrightarrow> hs_serve h = Ended res \<Longrightarrow> lc_result c = None \<Longrightarrow>
    serve_step c (c\<lparr>lc_result := Some res\<rparr>)"
| first: "length (lc_servers c) = 2 \<Longrightarrow> has_server i h c \<Longrightarrow> hs_serve h = Ended res \<Longrightarrow> lc_first c = None \<Longrightarrow>
    serve_step c (c\<lparr>lc_first := Some (i, res), lc_cancelled := True\<rparr>)"
| second: "length (lc_servers c) = 2 \<Longrightarrow> lc_first c = Some (j, res1) \<Longrightarrow> i \<noteq> j \<Longrightarrow> has_server i h c \<Longrightarrow>
    hs_serve h = Ended res2 \<Longrightarrow> lc_result c = None \<Longrightarrow>
    serve_step c (c\<lparr>lc_result := Some (serveBoth_result res1 res2)\<rparr>)"

text \<open>The relay's own steps, in which only the servers' goroutines begin the shutdown, and the signal.\<close>

inductive world_step :: "crypto \<Rightarrow> bool \<Rightarrow> lifecycle \<Rightarrow> lifecycle \<Rightarrow> bool" for cr rows_reported where
  relay: "relay_step cr rows_reported (lc_relay c) es r' \<Longrightarrow>
    sv_shutdownOnce (rl_server r') = sv_shutdownOnce (rl_server (lc_relay c)) \<Longrightarrow>
    world_step cr rows_reported c (c\<lparr>lc_relay := r'\<rparr>)"
| signal: "world_step cr rows_reported c (c\<lparr>lc_ctx := True\<rparr>)"

text \<open>A run of both, which counts the steps of the goroutines.\<close>

inductive lifecycle_run :: "crypto \<Rightarrow> bool \<Rightarrow> nat \<Rightarrow> lifecycle \<Rightarrow> lifecycle \<Rightarrow> bool" for cr rows_reported where
  lifecycle_start: "lifecycle_run cr rows_reported 0 c c"
| lifecycle_serve: "lifecycle_run cr rows_reported n c c1 \<Longrightarrow> serve_step c1 c2 \<Longrightarrow> lifecycle_run cr rows_reported (Suc n) c c2"
| lifecycle_world: "lifecycle_run cr rows_reported n c c1 \<Longrightarrow> world_step cr rows_reported c1 c2 \<Longrightarrow> lifecycle_run cr rows_reported n c c2"

inductive_cases world_stepE: "world_step cr rows_reported c c'"

section \<open>The invariant\<close>

definition shutdown_begun :: "lifecycle \<Rightarrow> bool" where
  "shutdown_begun c = sv_shutdownOnce (rl_server (lc_relay c))"

definition server_ok :: "lifecycle \<Rightarrow> http_server \<Rightarrow> bool" where
  "server_ok c h \<longleftrightarrow>
     (hs_watch h \<noteq> Watching \<longrightarrow> shutdown_begun c \<and> (lc_ctx c \<or> lc_cancelled c \<or> hs_cancelled h)) \<and>
     (hs_cancelled h \<longleftrightarrow> (\<exists>e. hs_serve h = Awaiting e \<or> hs_serve h = Ended e)) \<and>
     (hs_closed h \<longleftrightarrow> hs_watch h \<noteq> Watching \<and> hs_watch h \<noteq> Begun) \<and>
     (\<forall>res. hs_serve h = Ended res \<longrightarrow> (\<exists>e. hs_watch h = Reported e \<and> (res = None \<longrightarrow> e = None))) \<and>
     (hs_watch h = Reported None \<longrightarrow> sv_webSocketWG (rl_server (lc_relay c)) = 0)"

definition ended :: "lifecycle \<Rightarrow> nat \<Rightarrow> string option \<Rightarrow> bool" where
  "ended c i res \<longleftrightarrow> i < length (lc_servers c) \<and> hs_serve (lc_servers c ! i) = Ended res"

definition collected_ok :: "lifecycle \<Rightarrow> bool" where
  "collected_ok c \<longleftrightarrow>
     (lc_cancelled c \<longleftrightarrow> lc_first c \<noteq> None) \<and>
     (\<forall>i res. lc_first c = Some (i, res) \<longrightarrow> ended c i res) \<and>
     (\<forall>res. lc_result c = Some res \<longrightarrow>
        (\<forall>i < length (lc_servers c). \<exists>r. ended c i r \<and> (res = None \<longrightarrow> r = None)))"

definition lifecycle_inv :: "lifecycle \<Rightarrow> bool" where
  "lifecycle_inv c \<longleftrightarrow> relay_inv (lc_relay c) \<and> length (lc_servers c) \<in> {1, 2} \<and>
     (\<forall>i < length (lc_servers c). server_ok c (lc_servers c ! i)) \<and>
     (shutdown_begun c \<longrightarrow> (\<exists>i < length (lc_servers c). hs_watch (lc_servers c ! i) \<noteq> Watching)) \<and> collected_ok c"

lemma start_lifecycle_inv: "n \<in> {1, 2} \<Longrightarrow> relay_inv r \<Longrightarrow> \<not> sv_shutdownOnce (rl_server r) \<Longrightarrow> lifecycle_inv (start_lifecycle n r)"
  by (auto simp: lifecycle_inv_def start_lifecycle_def server_ok_def shutdown_begun_def collected_ok_def)

text \<open>What a server's state depends on only grows.\<close>

lemma server_ok_mono:
  assumes "server_ok c h" "shutdown_begun c \<Longrightarrow> shutdown_begun c'" "lc_ctx c \<Longrightarrow> lc_ctx c'" "lc_cancelled c \<Longrightarrow> lc_cancelled c'"
    and "shutdown_begun c \<Longrightarrow> sv_webSocketWG (rl_server (lc_relay c)) = 0 \<Longrightarrow> sv_webSocketWG (rl_server (lc_relay c')) = 0"
  shows "server_ok c' h"
  using assms unfolding server_ok_def by (metis watch_phase.distinct(7))

lemma put_server_sel [simp]:
  "lc_relay (put_server i h c) = lc_relay c" "lc_ctx (put_server i h c) = lc_ctx c"
  "lc_cancelled (put_server i h c) = lc_cancelled c" "lc_first (put_server i h c) = lc_first c"
  "lc_result (put_server i h c) = lc_result c" "lc_servers (put_server i h c) = (lc_servers c)[i := h]"
  by (simp_all add: put_server_def)

lemma server_ok_put [simp]: "server_ok (put_server i h c) = server_ok c"
  by (simp add: server_ok_def shutdown_begun_def fun_eq_iff)

text \<open>One server moves: it must stay well formed, not return to watching, and not change its result.\<close>

lemma inv_put:
  assumes inv: "lifecycle_inv c" and h: "has_server i h c" and ok: "server_ok c h'"
    and keeps: "hs_watch h \<noteq> Watching \<longrightarrow> hs_watch h' \<noteq> Watching" "\<And>res. hs_serve h = Ended res \<Longrightarrow> hs_serve h' = Ended res"
  shows "lifecycle_inv (put_server i h' c)"
proof -
  let ?c = "put_server i h' c"
  have ended: "ended c j res \<Longrightarrow> ended ?c j res" for j res
    using h keeps(2) by (auto simp: ended_def has_server_def nth_list_update)
  have "collected_ok ?c"
    using inv ended unfolding lifecycle_inv_def collected_ok_def by (simp del: not_None_eq) metis
  moreover have "\<forall>j < length (lc_servers ?c). server_ok ?c (lc_servers ?c ! j)"
    using inv ok h by (simp add: lifecycle_inv_def has_server_def nth_list_update)
  moreover have "shutdown_begun ?c \<longrightarrow> (\<exists>j < length (lc_servers ?c). hs_watch (lc_servers ?c ! j) \<noteq> Watching)"
    using inv h keeps(1) unfolding lifecycle_inv_def shutdown_begun_def has_server_def
    by (simp add: nth_list_update) metis
  ultimately show ?thesis using inv by (simp add: lifecycle_inv_def)
qed

lemma inv_has_server: "lifecycle_inv c \<Longrightarrow> has_server i h c \<Longrightarrow> server_ok c h"
  by (auto simp: lifecycle_inv_def has_server_def)

text \<open>After the shutdown began, no handler enters, so the wait group stays at zero.\<close>

lemma conn_step_WG:
  "conn_step r es r' \<Longrightarrow> sv_shuttingDown (rl_server r) \<Longrightarrow> sv_webSocketWG (rl_server r') \<le> sv_webSocketWG (rl_server r)"
proof (induction rule: conn_step.induct)
  case (enter w r flt cs s')
  then show ?case using add_result [of True flt w "rl_server r" True cs s'] by (simp add: beginWebSocket_def)
next
  case (enter_refused w r flt cs s')
  then show ?case using add_result [of True flt w "rl_server r" False cs s'] by (simp add: beginWebSocket_def serving_def leave_def)
next
  case (remove w r cs s')
  then show ?case using remove_result [of w "rl_server r" cs s'] by (simp add: serving_def goto_def)
qed (simp_all add: serving_def goto_def leave_def)

lemma relay_step_WG:
  assumes "relay_step cr rep r es r'" "sv_shuttingDown (rl_server r)"
  shows "sv_webSocketWG (rl_server r') \<le> sv_webSocketWG (rl_server r)"
  using assms
proof (induction rule: relay_step.induct)
  case (conn r es r')
  then show ?case by (intro conn_step_WG)
next
  case (revoke flt t h v r res cs s')
  then show ?case using revoke_result [of flt t h v "rl_server r" res cs s'] by (simp add: serving_def)
next
  case (shutdown r cs s')
  then show ?case using shutdown_result [of "rl_server r" cs s'] by (simp add: serving_def)
qed (auto simp: serving_def goto_def same_sockets_def
    dest!: authenticate_sockets ensureAuth_sockets allowChallenge_sockets)

lemma WG_nonneg: "relay_inv r \<Longrightarrow> 0 \<le> sv_webSocketWG (rl_server r)"
  by (simp add: relay_inv_def handlers_def)

lemma begun_shuttingDown: "relay_inv r \<Longrightarrow> sv_shutdownOnce (rl_server r) \<Longrightarrow> sv_shuttingDown (rl_server r)"
  by (simp add: relay_inv_def registries_ok_def)

text \<open>The relay moves, or the context is cancelled.\<close>

lemma inv_grow:
  assumes inv: "lifecycle_inv c" and r: "relay_inv r'"
    and "sv_shutdownOnce (rl_server r') = shutdown_begun c"
    and WG: "shutdown_begun c \<Longrightarrow> sv_webSocketWG (rl_server r') \<le> sv_webSocketWG (rl_server (lc_relay c))"
  shows "lifecycle_inv (c\<lparr>lc_relay := r', lc_ctx := b \<or> lc_ctx c\<rparr>)"
proof -
  let ?c = "c\<lparr>lc_relay := r', lc_ctx := b \<or> lc_ctx c\<rparr>"
  have "server_ok ?c h" if "server_ok c h" for h
    using that assms(3) WG WG_nonneg [OF r] by (elim server_ok_mono) (auto simp: shutdown_begun_def)
  moreover have "collected_ok ?c = collected_ok c" by (simp add: collected_ok_def ended_def)
  ultimately show ?thesis using inv r assms(3) by (simp add: lifecycle_inv_def shutdown_begun_def)
qed

lemma inv_begin_shutdown:
  assumes inv: "lifecycle_inv c" and h: "has_server i h c" "hs_watch h = Watching" "lc_ctx c \<or> lc_cancelled c \<or> hs_cancelled h"
    and b: "beginShutdown (rl_server (lc_relay c)) = (cs, s')"
  shows "lifecycle_inv (put_server i (h\<lparr>hs_watch := Begun\<rparr>) (c\<lparr>lc_relay := serving s' (lc_relay c)\<rparr>))"
    (is "lifecycle_inv (put_server i ?h ?c)")
proof -
  note res = shutdown_result [OF b]
  have r: "relay_inv (lc_relay ?c)"
    using inv b by (auto simp: lifecycle_inv_def intro: relay_step_inv relay_step.shutdown)
  have begun: "shutdown_begun ?c" using res by (simp add: shutdown_begun_def serving_def)
  have mono: "server_ok ?c g" if "server_ok c g" for g
    using that res begun by (elim server_ok_mono) (simp_all add: serving_def)
  have "server_ok ?c ?h"
    using inv_has_server [OF inv h(1)] h(2,3) begun by (auto simp: server_ok_def)
  moreover have "ended (put_server i ?h ?c) j res \<longleftrightarrow> ended c j res" for j res
    using h(1) by (auto simp: ended_def has_server_def nth_list_update)
  ultimately show ?thesis
    using inv h(1) mono r begun unfolding lifecycle_inv_def collected_ok_def
    by (auto simp: has_server_def nth_list_update)
qed

lemma server_ok_only:
  "lc_relay c' = lc_relay c \<Longrightarrow> lc_ctx c' = lc_ctx c \<Longrightarrow> lc_cancelled c' = lc_cancelled c \<Longrightarrow> server_ok c' = server_ok c"
  by (simp add: server_ok_def shutdown_begun_def fun_eq_iff)

lemma inv_collect:
  assumes inv: "lifecycle_inv c" and "collected_ok c'" and "lc_cancelled c \<longrightarrow> lc_cancelled c'"
    and "lc_relay c' = lc_relay c" "lc_ctx c' = lc_ctx c" "lc_servers c' = lc_servers c"
  shows "lifecycle_inv c'"
proof -
  have "server_ok c' h" if "server_ok c h" for h
    using that assms by (elim server_ok_mono) (simp_all add: shutdown_begun_def)
  with assms show ?thesis by (simp add: lifecycle_inv_def shutdown_begun_def)
qed

lemma inv_collected: "lifecycle_inv c \<Longrightarrow> collected_ok c"
  by (simp add: lifecycle_inv_def)

lemma inv_move:
  assumes "lifecycle_inv c" "has_server i h c" "server_ok c h \<Longrightarrow> server_ok c h'"
    and "hs_watch h \<noteq> Watching \<longrightarrow> hs_watch h' \<noteq> Watching" "\<And>res. hs_serve h = Ended res \<Longrightarrow> hs_serve h' = Ended res"
  shows "lifecycle_inv (put_server i h' c)"
  using assms inv_put [of c i h h'] inv_has_server [of c i h] by blast

lemma serve_result_None: "serve_result err shutdownErr = None \<Longrightarrow> shutdownErr = None"
  by (simp add: serve_result_def split: if_splits)

lemma serve_step_inv: "serve_step c c' \<Longrightarrow> lifecycle_inv c \<Longrightarrow> lifecycle_inv c'"
proof (induction rule: serve_step.induct)
  case (begin_shutdown i h c cs s')
  then show ?case by (intro inv_begin_shutdown)
next
  case (returns i h c err shutdownErr)
  from returns(4,1) show ?case
  proof (rule inv_move)
    show "server_ok c (h\<lparr>hs_serve := Ended (serve_result err shutdownErr)\<rparr>)" if "server_ok c h"
      using that returns(2,3) by (simp add: server_ok_def) (metis serve_result_None)
  qed (simp_all add: returns(2))
next
  case (single c h res)
  have "collected_ok (c\<lparr>lc_result := Some res\<rparr>)"
    using inv_collected [OF single(5)] single(1-3) unfolding collected_ok_def has_server_def
    by (simp add: ended_def)
  with single(5) show ?case by (rule inv_collect) simp_all
next
  case (first c i h res)
  have "collected_ok (c\<lparr>lc_first := Some (i, res), lc_cancelled := True\<rparr>)"
    using inv_collected [OF first(5)] first(2,3) unfolding collected_ok_def has_server_def
    by (simp add: ended_def)
  with first(5) show ?case by (rule inv_collect) simp_all
next
  case (second c j res1 i h res2)
  note col = inv_collected [OF second(7)]
  have ended: "ended c j res1" "ended c i res2"
    using col second(2,4,5) by (simp_all add: collected_ok_def ended_def has_server_def)
  have both: "k = i \<or> k = j" if "k < length (lc_servers c)" for k
    using that second(1,3) ended by (auto simp: ended_def)
  have "collected_ok (c\<lparr>lc_result := Some (serveBoth_result res1 res2)\<rparr>)"
    unfolding collected_ok_def
  proof (intro conjI allI impI)
    fix res k assume "lc_result (c\<lparr>lc_result := Some (serveBoth_result res1 res2)\<rparr>) = Some res"
      "k < length (lc_servers (c\<lparr>lc_result := Some (serveBoth_result res1 res2)\<rparr>))"
    with both [of k] ended show "\<exists>r. ended (c\<lparr>lc_result := Some (serveBoth_result res1 res2)\<rparr>) k r \<and> (res = None \<longrightarrow> r = None)"
      by (auto simp: ended_def serveBoth_result_def)
  qed (use col in \<open>auto simp: collected_ok_def ended_def\<close>)
  with second(7) show ?case by (rule inv_collect) simp_all
qed (rule inv_move, assumption, assumption, (auto simp: server_ok_def)[1], simp, simp)+

lemma world_step_inv:
  assumes "world_step cr rep c c'" "lifecycle_inv c"
  shows "lifecycle_inv c'"
  using assms(1)
proof (cases rule: world_step.cases)
  case (relay es r')
  have r: "relay_inv (lc_relay c)" using assms(2) by (simp add: lifecycle_inv_def)
  have "lifecycle_inv (c\<lparr>lc_relay := r', lc_ctx := False \<or> lc_ctx c\<rparr>)"
    using relay assms(2) relay_step_inv [OF relay(2) r] relay_step_WG [OF relay(2)] begun_shuttingDown [OF r]
    by (intro inv_grow) (auto simp: shutdown_begun_def)
  with relay(1) show ?thesis by simp
next
  case signal
  have "lifecycle_inv (c\<lparr>lc_relay := lc_relay c, lc_ctx := True \<or> lc_ctx c\<rparr>)"
    using assms(2) by (intro inv_grow) (auto simp: lifecycle_inv_def shutdown_begun_def)
  with signal show ?thesis by simp
qed

lemma lifecycle_run_trans:
  "lifecycle_run cr rep m c1 c2 \<Longrightarrow> lifecycle_run cr rep n c c1 \<Longrightarrow> lifecycle_run cr rep (n + m) c c2"
  by (induction rule: lifecycle_run.induct) (auto intro: lifecycle_run.intros)

lemma serve_steps_run: "serve_step\<^sup>*\<^sup>* c1 c2 \<Longrightarrow> lifecycle_run cr rep n c c1 \<Longrightarrow> \<exists>m. lifecycle_run cr rep m c c2"
  by (induction rule: rtranclp_induct) (blast intro: lifecycle_run.lifecycle_serve)+

lemma serve_steps_servers: "serve_step\<^sup>*\<^sup>* c c' \<Longrightarrow> length (lc_servers c') = length (lc_servers c)"
proof (induction rule: rtranclp_induct)
  case (step c1 c2)
  from step(2) have "length (lc_servers c2) = length (lc_servers c1)" by cases simp_all
  with step(3) show ?case by simp
qed simp

lemma lifecycle_run_inv: "lifecycle_run cr rep n c c' \<Longrightarrow> lifecycle_inv c \<Longrightarrow> lifecycle_inv c'"
  by (induction rule: lifecycle_run.induct) (auto intro: serve_step_inv world_step_inv)

definition started :: "crypto \<Rightarrow> bool \<Rightarrow> lifecycle \<Rightarrow> bool" where
  "started cr rows_reported c \<longleftrightarrow>
     (\<exists>listeners n maxMessageBytes attempts d. listeners \<in> {1, 2} \<and>
        lifecycle_run cr rows_reported n (start_lifecycle listeners (start_relay maxMessageBytes attempts d)) c)"

lemma started_inv: "started cr rep c \<Longrightarrow> lifecycle_inv c"
  unfolding started_def
  by (elim exE conjE) (rule lifecycle_run_inv, assumption, intro start_lifecycle_inv start_inv,
      simp_all add: start_relay_def NewServerWithStore_def NewServer_def)

section \<open>Serving ends\<close>

primrec serve_left :: "serve_phase \<Rightarrow> nat" where
  "serve_left Listening = 3"
| "serve_left (Stopped e) = 2"
| "serve_left (Awaiting e) = 1"
| "serve_left (Ended e) = 0"

primrec watch_left :: "watch_phase \<Rightarrow> nat" where
  "watch_left Watching = 4"
| "watch_left Begun = 3"
| "watch_left Closing = 2"
| "watch_left Draining = 1"
| "watch_left (Reported e) = 0"

definition server_left :: "http_server \<Rightarrow> nat" where
  "server_left h = serve_left (hs_serve h) + watch_left (hs_watch h)"

definition steps_left :: "lifecycle \<Rightarrow> nat" where
  "steps_left c = sum_list (map server_left (lc_servers c)) +
     (if lc_first c = None then 1 else 0) + (if lc_result c = None then 1 else 0)"

lemma put_server_left:
  assumes "has_server i h c" "server_left h' < server_left h"
  shows "steps_left (put_server i h' c) < steps_left c"
proof -
  have i: "i < length (map server_left (lc_servers c))" "map server_left (lc_servers c) ! i = server_left h"
    using assms(1) by (auto simp: has_server_def)
  have "server_left h \<le> sum_list (map server_left (lc_servers c))"
    using i elem_le_sum_list [of i "map server_left (lc_servers c)"] by simp
  then show ?thesis
    using assms(2) i by (simp add: steps_left_def map_update sum_list_update del: nth_map length_map)
qed

lemma serve_step_left: "serve_step c c' \<Longrightarrow> steps_left c' < steps_left c"
proof (induction rule: serve_step.induct)
  case (begin_shutdown i h c cs s')
  let ?c = "c\<lparr>lc_relay := serving s' (lc_relay c)\<rparr>"
  have "has_server i h ?c" using begin_shutdown(1) by (simp add: has_server_def)
  moreover have "server_left (h\<lparr>hs_watch := Begun\<rparr>) < server_left h"
    using begin_shutdown(2) by (simp add: server_left_def)
  ultimately have "steps_left (put_server i (h\<lparr>hs_watch := Begun\<rparr>) ?c) < steps_left ?c" by (rule put_server_left)
  then show ?case by (simp add: steps_left_def)
qed (auto intro!: put_server_left simp: server_left_def, auto simp: steps_left_def)

text \<open>The reasons to stop: the signal, or a server that no longer listens. They stay.\<close>

definition stopping :: "lifecycle \<Rightarrow> bool" where
  "stopping c \<longleftrightarrow> lc_ctx c \<or> (\<exists>h\<in>set (lc_servers c). hs_serve h \<noteq> Listening)"

lemma stopping_put:
  assumes "stopping c" "has_server i h c" "hs_serve h \<noteq> Listening \<longrightarrow> hs_serve h' \<noteq> Listening"
  shows "stopping (put_server i h' c)"
proof (cases "lc_ctx c")
  case False
  with assms(1) obtain j where j: "j < length (lc_servers c)" "hs_serve (lc_servers c ! j) \<noteq> Listening"
    by (auto simp: stopping_def in_set_conv_nth)
  with assms(2,3) have "hs_serve ((lc_servers c)[i := h'] ! j) \<noteq> Listening"
    by (cases "i = j") (simp_all add: has_server_def)
  with j(1) show ?thesis by (auto simp: stopping_def intro!: bexI [of _ "(lc_servers c)[i := h'] ! j"] nth_mem)
qed (simp add: stopping_def)

lemma stopping_stays: "serve_step c c' \<Longrightarrow> stopping c \<Longrightarrow> stopping c'"
proof (induction rule: serve_step.induct)
  case (begin_shutdown i h c cs s')
  then have "stopping (c\<lparr>lc_relay := serving s' (lc_relay c)\<rparr>)" by (simp add: stopping_def)
  with begin_shutdown(1) show ?case by (intro stopping_put [where h = h]) (auto simp: has_server_def)
qed (auto intro!: stopping_put, auto simp: stopping_def)

text \<open>A server can move, unless it waits for a reason to stop or has ended.\<close>

lemma server_progress:
  assumes inv: "lifecycle_inv c" and h: "has_server i h c" and live: "\<And>r. hs_serve h \<noteq> Ended r"
    and reason: "hs_serve h \<noteq> Listening \<or> lc_ctx c \<or> lc_cancelled c"
  shows "\<exists>c'. serve_step c c'"
proof (cases "hs_watch h")
  case Watching
  obtain cs s' where b: "beginShutdown (rl_server (lc_relay c)) = (cs, s')" by force
  show ?thesis
  proof (cases "\<exists>e. hs_serve h = Stopped e")
    case True
    with h show ?thesis by (blast intro: serve_step.cancel)
  next
    case False
    with live reason inv_has_server [OF inv h] have "lc_ctx c \<or> lc_cancelled c \<or> hs_cancelled h"
      by (cases "hs_serve h") (auto simp: server_ok_def)
    with h Watching b show ?thesis by (blast intro: serve_step.begin_shutdown)
  qed
next
  case (Reported e)
  then have "hs_closed h" using inv_has_server [OF inv h] by (simp add: server_ok_def)
  with h Reported live show ?thesis
    by (cases "hs_serve h") (blast intro: serve_step.intros)+
qed (use h in \<open>blast intro: serve_step.intros\<close>)+

lemma serve_progress:
  assumes inv: "lifecycle_inv c" and "stopping c" "lc_result c = None"
  shows "\<exists>c'. serve_step c c'"
proof (cases "\<exists>i h. has_server i h c \<and> (\<forall>r. hs_serve h \<noteq> Ended r) \<and> (hs_serve h \<noteq> Listening \<or> lc_ctx c \<or> lc_cancelled c)")
  case True
  with server_progress [OF inv] show ?thesis by blast
next
  case False
  have two: "length (lc_servers c) = 1 \<or> length (lc_servers c) = 2" using inv by (simp add: lifecycle_inv_def)
  have rest: "(\<exists>r. hs_serve (lc_servers c ! i) = Ended r) \<or> hs_serve (lc_servers c ! i) = Listening \<and> \<not> lc_ctx c \<and> \<not> lc_cancelled c"
    if "i < length (lc_servers c)" for i
    using False that unfolding has_server_def by blast
  have "\<exists>i r. i < length (lc_servers c) \<and> hs_serve (lc_servers c ! i) = Ended r"
  proof (cases "lc_ctx c")
    case True
    moreover have "0 < length (lc_servers c)" using two by auto
    ultimately show ?thesis using rest by blast
  next
    case no: False
    with assms(2) obtain i where "i < length (lc_servers c)" "hs_serve (lc_servers c ! i) \<noteq> Listening"
      by (auto simp: stopping_def in_set_conv_nth)
    with rest show ?thesis by blast
  qed
  then obtain i r where i: "i < length (lc_servers c)" "hs_serve (lc_servers c ! i) = Ended r" by blast
  show ?thesis
  proof (cases "length (lc_servers c) = 1")
    case True
    with i assms(3) show ?thesis by (intro exI) (rule serve_step.single [of c "lc_servers c ! 0"], auto simp: has_server_def)
  next
    case False
    with two have len: "length (lc_servers c) = 2" by simp
    show ?thesis
    proof (cases "lc_first c")
      case None
      with len i show ?thesis by (intro exI) (rule serve_step.first [of c i "lc_servers c ! i"], auto simp: has_server_def)
    next
      case (Some jr)
      obtain j res where jr: "jr = (j, res)" by force
      have c: "lc_cancelled c" using inv_collected [OF inv] Some by (simp add: collected_ok_def)
      have "j < 2" using len inv_collected [OF inv] Some jr by (simp add: collected_ok_def ended_def)
      then have k: "1 - j < length (lc_servers c)" "1 - j \<noteq> j" using len by presburger+
      with rest [of "1 - j"] c obtain r' where "hs_serve (lc_servers c ! (1 - j)) = Ended r'" by auto
      with len Some jr k assms(3) show ?thesis
        by (intro exI) (rule serve_step.second [of c j res "1 - j" "lc_servers c ! (1 - j)"], auto simp: has_server_def)
    qed
  qed
qed

lemma serve_reaches_result:
  "lifecycle_inv c \<Longrightarrow> stopping c \<Longrightarrow> \<exists>c'. serve_step\<^sup>*\<^sup>* c c' \<and> lc_result c' \<noteq> None"
proof (induction "steps_left c" arbitrary: c rule: less_induct)
  case less
  show ?case
  proof (cases "lc_result c")
    case None
    obtain c1 where c1: "serve_step c c1" using serve_progress [OF less.prems None] by blast
    from less.hyps [OF serve_step_left [OF c1] serve_step_inv [OF c1 less.prems(1)] stopping_stays [OF c1 less.prems(2)]]
    show ?thesis using c1 by (metis converse_rtranclp_into_rtranclp)
  qed blast
qed

lemma world_step_left: "world_step cr rep c c' \<Longrightarrow> steps_left c' = steps_left c \<and> (stopping c \<longrightarrow> stopping c')"
  by (elim world_stepE) (simp_all add: steps_left_def stopping_def)

lemma lifecycle_run_steps:
  "lifecycle_run cr rep n c c' \<Longrightarrow> stopping c \<Longrightarrow> stopping c' \<and> steps_left c' + n \<le> steps_left c"
proof (induction rule: lifecycle_run.induct)
  case (lifecycle_serve n c c1 c2)
  with serve_step_left [of c1 c2] stopping_stays [of c1 c2] show ?case by simp
next
  case (lifecycle_world n c c1 c2)
  with world_step_left [of cr rep c1 c2] show ?case by simp
qed simp

lemma steps_left_bound: "steps_left c \<le> 7 * length (lc_servers c) + 2"
proof -
  have "server_left h \<le> 7" for h by (cases "hs_serve h"; cases "hs_watch h") (simp_all add: server_left_def)
  then have "sum_list (map server_left hs) \<le> 7 * length hs" for hs
    by (induction hs) (simp_all add: add_le_mono)
  from this [of "lc_servers c"] show ?thesis by (simp add: steps_left_def)
qed

text \<open>
  C23: \<open>Serve\<close> returns. Once it is cancelled or one of its HTTP servers has stopped, its goroutines
  take at most seven steps per listener and two more, whatever their order and whatever the relay does
  meanwhile; they can always move until \<open>Serve\<close> has a result, so none waits for another forever.
\<close>

theorem serve_returns:
  assumes "started cr rep c" "stopping c" "lifecycle_run cr rep n c c'"
  shows "n \<le> 7 * length (lc_servers c) + 2 \<and>
    (lc_result c' = None \<longrightarrow> (\<exists>c2. serve_step c' c2)) \<and> (\<exists>c2. serve_step\<^sup>*\<^sup>* c' c2 \<and> lc_result c2 \<noteq> None)"
proof -
  note st = lifecycle_run_steps [OF assms(3,2)] lifecycle_run_inv [OF assms(3) started_inv [OF assms(1)]]
  have "n \<le> 7 * length (lc_servers c) + 2" using st steps_left_bound [of c] by linarith
  with st show ?thesis using serve_progress serve_reaches_result by blast
qed

lemma begun_iff: "lifecycle_inv c \<Longrightarrow> shutdown_begun c \<longleftrightarrow> sv_shuttingDown (rl_server (lc_relay c))"
  by (simp add: lifecycle_inv_def relay_inv_def registries_ok_def shutdown_begun_def)

lemma inv_server_set: "lifecycle_inv c \<Longrightarrow> h \<in> set (lc_servers c) \<Longrightarrow> server_ok c h"
  by (auto simp: lifecycle_inv_def in_set_conv_nth)

text \<open>The shutdown has a reason.\<close>

lemma begun_stopping:
  assumes inv: "lifecycle_inv c" and begun: "shutdown_begun c"
  shows "stopping c"
proof -
  obtain k where k: "k < length (lc_servers c)" "hs_watch (lc_servers c ! k) \<noteq> Watching"
    using inv begun unfolding lifecycle_inv_def by blast
  have ok: "server_ok c (lc_servers c ! k)" using inv k(1) by (simp add: lifecycle_inv_def)
  with k(2) consider "lc_ctx c" | "lc_cancelled c" | "hs_cancelled (lc_servers c ! k)" by (auto simp: server_ok_def)
  then show ?thesis
  proof cases
    case 2
    with inv_collected [OF inv] obtain i r where "ended c i r" by (auto simp: collected_ok_def)
    then show ?thesis by (auto simp: stopping_def ended_def intro!: bexI [of _ "lc_servers c ! i"])
  next
    case 3
    with ok k(1) show ?thesis by (auto simp: stopping_def server_ok_def intro!: bexI [of _ "lc_servers c ! k"])
  qed (simp add: stopping_def)
qed

text \<open>The result is there only after every server reported the end of its shutdown.\<close>

lemma result_ended:
  assumes inv: "lifecycle_inv c" and res: "lc_result c = Some res"
  shows "\<forall>h\<in>set (lc_servers c). \<exists>r. hs_serve h = Ended r"
    and "shutdown_begun c" "res = None \<Longrightarrow> sv_webSocketWG (rl_server (lc_relay c)) = 0"
proof -
  have all: "\<exists>r. hs_serve h = Ended r \<and> (res = None \<longrightarrow> r = None)" if "h \<in> set (lc_servers c)" for h
    using that inv_collected [OF inv] res by (force simp: collected_ok_def ended_def in_set_conv_nth)
  then show "\<forall>h\<in>set (lc_servers c). \<exists>r. hs_serve h = Ended r" by meson
  have "lc_servers c \<noteq> []" using inv by (auto simp: lifecycle_inv_def)
  then obtain h where h: "h \<in> set (lc_servers c)" by (cases "lc_servers c") auto
  show "shutdown_begun c" "res = None \<Longrightarrow> sv_webSocketWG (rl_server (lc_relay c)) = 0"
    using all [OF h] inv_server_set [OF inv h] by (auto simp: server_ok_def)
qed

text \<open>
  C24: What stopping means. The shutdown begins only after the signal or the end of one of the HTTP
  servers. When \<open>Serve\<close> has returned, every HTTP server has ended, no socket is registered and none
  can enter any more; and when it has returned without error, the wait group is at zero: every
  WebSocket handler that had entered has finished.
\<close>

theorem serve_stopped_clean:
  assumes "started cr rep c"
  shows "(sv_shuttingDown (rl_server (lc_relay c)) \<longrightarrow> stopping c) \<and>
    (\<forall>res. lc_result c = Some res \<longrightarrow>
      (\<forall>h\<in>set (lc_servers c). \<exists>r. hs_serve h = Ended r) \<and> registered (rl_server (lc_relay c)) = {} \<and>
      (\<forall>flt w. \<not> fst (beginWebSocket flt w (rl_server (lc_relay c)))) \<and>
      (res = None \<longrightarrow> sv_webSocketWG (rl_server (lc_relay c)) = 0 \<and> (\<forall>(w, p)\<in>set (rl_conns (lc_relay c)). p = Accepted)))"
proof -
  note inv = started_inv [OF assms]
  let ?s = "rl_server (lc_relay c)"
  have reg: "registries_ok ?s" and WG: "sv_webSocketWG ?s = handlers (rl_conns (lc_relay c))"
    using inv by (simp_all add: lifecycle_inv_def relay_inv_def)
  have empty: "registered ?s = {} \<and> \<not> fst (beginWebSocket flt w ?s)" if "shutdown_begun c" for flt w
    using that reg begun_iff [OF inv]
    by (simp add: registries_ok_def registered_def beginWebSocket_def addSessionWithLifecycle_def)
  have "p = Accepted" if "sv_webSocketWG ?s = 0" "(w, p) \<in> set (rl_conns (lc_relay c))" for w p
    using that WG by (auto simp: handlers_def filter_empty_conv)
  with empty result_ended [OF inv] begun_stopping [OF inv] begun_iff [OF inv] show ?thesis by blast
qed

end
