(* ===== verification/Demo_Cli.thy ===== *)
theory Demo_Cli
  imports Cli_Secrecy Cli_Tenant Identity_File Lifecycle Demo
begin

text \<open>
  Concrete installations on which the statements about the files and the command line are instantiated.
\<close>

definition demo_cert :: cert_env where
  "demo_cert = \<lparr>ke_generate = (\<lambda>_. Some (''K'', ''C'')), ke_pair = (\<lambda>c k. Some [c]), ke_crypto = demo_crypto,
     ke_mkdir_fails = (\<lambda>_. False), ke_create_fails = (\<lambda>_. False), ke_write_fails = (\<lambda>_. False),
     ke_close_fails = (\<lambda>_. False)\<rparr>"

definition demo_listen :: listen_env where
  "demo_listen = \<lparr>le_load = Inr demo_signer, le_certificate = (\<lambda>_ _. True), le_listen = (\<lambda>_. True)\<rparr>"

definition demo_cli :: cli_env where
  "demo_cli = \<lparr>ce_Version = ''dev'', ce_mkdir = (\<lambda>_. True), ce_write = (\<lambda>_. True), ce_abs = Some,
     ce_cert = demo_cert, ce_open = no_faults, ce_cancelled = False, ce_listen = demo_listen,
     ce_serving = (\<lambda>_ d. (None, d)), ce_crypto = demo_crypto,
     ce_rand = (\<lambda>_. demo_rand (CHR ''a'')), ce_now = 0, ce_flt = (\<lambda>_. no_faults)\<rparr>"

definition demo_world :: "db \<Rightarrow> world" where
  "demo_world d = \<lparr>wd_configs = [(''c'', Default)],
     wd_stores = [(''relay-state.db'', \<lparr>df_columns = schema_columns, df_rows = d\<rparr>)], wd_pems = []\<rparr>"

definition demo_ensure :: "string list" where
  "demo_ensure = [''--config'', ''c'', ''-json'', ''--name=Home'']"

lemma demo_ensure_flags:
  "ensure_flags demo_ensure = Some [(''name'', ''Home''), (''json'', ''true''), (''config'', ''c'')]"
  by code_simp

lemma demo_cli_open: "ce_open demo_cli = no_faults"
  by (simp add: demo_cli_def)

lemma demo_load: "Load ''c'' (demo_world d) = Some Default"
  by code_simp

lemma demo_trim_Home: "TrimSpace ''Home'' = ''Home''"
  by code_simp

lemma demo_create_tenant:
  assumes "tenants d = []"
  shows "\<exists>c d'. create_tenant demo_cli 1 ''Home'' d = (Inr c, d')"
proof -
  obtain h where "HashSecret demo_crypto (demo_rand (CHR ''a'')) (EncodeToString (replicate 32 (CHR ''a''))) = Inr h"
    using demo_hash by blast
  then show ?thesis
    using assms by (simp add: create_tenant_def Create_def Let_def tx_simps demo_secret demo_trim_Home insert_tenant_def
        demo_rand_def demo_cli_def cong: tx_bind_weak_cong)
qed

lemma demo_ensure_first: "\<exists>out w1. runLocalEnsureTenant demo_cli demo_ensure (demo_world empty_db) = (0, out, w1)"
proof -
  obtain fs where op: "Open no_faults ''relay-state.db'' (wd_stores (demo_world empty_db)) = (Inr (), fs)"
    using Open_no_faults by blast
  have none: "tenants (df_rows (db_file ''relay-state.db'' fs)) = []"
    using Open_tenants [OF op] by (simp add: demo_world_def db_file_def empty_db_def)
  then obtain c d' where "create_tenant demo_cli 1 ''Home'' (df_rows (db_file ''relay-state.db'' fs)) = (Inr c, d')"
    using demo_create_tenant by blast
  with none have en: "ensure_tenant demo_cli True ''Home'' (df_rows (db_file ''relay-state.db'' fs)) = (Inr ([fst c], Some c), d')"
    by (simp add: ensure_tenant_def ListTenants_def tx_simps demo_cli_def)
  have path: "cf_StatePath Default = ''relay-state.db''" "\<not> tl_Enabled (cf_TLS Default)" by (simp_all add: Default_def)
  have info: "localInfoFromConfig demo_cli w p Default ts secret \<noteq> None" for w p ts secret
    by (simp add: localInfo_None path del: not_None_eq)
  have "\<exists>out w1. on_service Default (ensure_tenant demo_cli True ''Home'') (\<lambda>(ts, created) w2.
      info_json (localInfoFromConfig demo_cli w2 p Default ts (map_option secret_output created)))
      ((demo_world empty_db)\<lparr>wd_stores := fs\<rparr>) = (0, out, w1)" for p
    by (auto simp: on_service_def on_db_def info_json_def path en Let_def info split: option.splits)
  then show ?thesis
    using op by (simp add: runLocalEnsureTenant_def openTenantService_def demo_ensure_flags demo_load path
        flag_value_def flag_set_def Let_def info demo_cli_open)
qed

theorem ensure_tenant_once_witness:
  "\<exists>out w1 out' w2 i i'. runLocalEnsureTenant demo_cli demo_ensure (demo_world empty_db) = (0, out, w1) \<and>
     runLocalEnsureTenant demo_cli demo_ensure w1 = (0, out', w2) \<and> out = [InfoJSON i] \<and> out' = [InfoJSON i'] \<and>
     li_Tenants i \<noteq> [] \<and> li_Tenants i' = li_Tenants i \<and> li_Secret i' = None"
proof -
  obtain out w1 where first: "runLocalEnsureTenant demo_cli demo_ensure (demo_world empty_db) = (0, out, w1)"
    using demo_ensure_first by blast
  moreover obtain out' w2 where again: "runLocalEnsureTenant demo_cli demo_ensure w1 = (0, out', w2)"
    using ensure_tenant_again [OF first] by (auto simp: demo_cli_def)
  ultimately show ?thesis using ensure_tenant_once [OF first again] by blast
qed

definition demo_tenant_db :: "string \<Rightarrow> db" where
  "demo_tenant_db hash = empty_db\<lparr>tenants := [\<lparr>tn_tenant_id = ''t'', tn_display_name = ''T'', tn_enabled = 1,
     tn_secret_hash = hash, tn_created_at = []\<rparr>]\<rparr>"

definition demo_commands :: "(cli_env \<times> string list) list" where
  "demo_commands = [(demo_cli, [''info'', ''-config'', ''c'']), (demo_cli, [''tenant'', ''list'', ''-config'', ''c''])]"

theorem commands_reveal_no_secret_witness:
  "demo_world (demo_tenant_db ''x'') \<noteq> demo_world (demo_tenant_db ''y'') \<and>
   fst (run_commands demo_commands (demo_world (demo_tenant_db ''x''))) =
   fst (run_commands demo_commands (demo_world (demo_tenant_db ''y'')))"
proof -
  have "alike (demo_world (demo_tenant_db ''x'')) (demo_world (demo_tenant_db ''y''))"
    by (simp add: alike_def world_view_def demo_world_def demo_tenant_db_def public_files_def public_db_def
        public_row_def empty_db_def fun_eq_iff)
  moreover have "demo_world (demo_tenant_db ''x'') \<noteq> demo_world (demo_tenant_db ''y'')"
    by (simp add: demo_world_def demo_tenant_db_def empty_db_def)
  moreover have "\<forall>(ev, args)\<in>set demo_commands. args = [] \<or> hd args \<noteq> ''serve''"
    by (simp add: demo_commands_def)
  ultimately show ?thesis
    using commands_reveal_no_secret [of "demo_world (demo_tenant_db ''x'')" "demo_world (demo_tenant_db ''y'')"
        demo_commands] by simp
qed

definition demo_config :: config where
  "demo_config = Default\<lparr>cf_InternalListenHost := ''127.0.0.1'', cf_InternalListenPort := 38444,
     cf_TLS := \<lparr>tl_Enabled = True, tl_CertFile = ''C'', tl_KeyFile = ''K''\<rparr>\<rparr>"

theorem Serve_listeners_witness:
  "\<exists>ls s'. Serve demo_listen demo_config (NewServer 1 1) = (Inr ls, ls, s') \<and> length ls = 2 \<and> ln_tls (hd ls) \<noteq> None"
proof -
  have "ValidateInternalListener demo_config = None" by code_simp
  then obtain ls s' where run: "Serve demo_listen demo_config (NewServer 1 1) = (Inr ls, ls, s')" and two: "length ls = 2"
    by (simp add: Serve_def ensureAuth_def NewServer_def demo_listen_def open_listeners_def buildTLSConfig_def
        net_listen_def tx_catch_def demo_config_def Default_def tx_simps Let_def)
  with Serve_listeners [OF run] show ?thesis by (auto simp: Let_def length_Suc_conv)
qed

definition demo_legacy :: dbfiles where
  "demo_legacy = [(''p'', \<lparr>df_columns = [(''tenants'', [''tenant_id'']), (''hosts'', [''host_public_key''])],
     df_rows = demo_db\<rparr>)]"

theorem Open_keeps_tenants_witness:
  "\<exists>fs'. Open no_faults ''p'' demo_legacy = (Inr (), fs') \<and> tenants (df_rows (db_file ''p'' fs')) = tenants demo_db \<and>
     hosts (df_rows (db_file ''p'' fs')) = [] \<and> map_of fs' (backup_path ''p'') = Some (db_file ''p'' demo_legacy)"
proof -
  obtain fs' where run: "Open no_faults ''p'' demo_legacy = (Inr (), fs')" using Open_no_faults by blast
  have f: "df_rows (db_file ''p'' demo_legacy) = demo_db" "legacy_schema (db_file ''p'' demo_legacy)"
    "map_of demo_legacy (backup_path ''p'') = None"
    by (simp_all add: demo_legacy_def db_file_def legacy_schema_def legacy_checks_def table_has_column_def backup_path_def)
  have hosts: "hosts (df_rows (db_file ''p'' fs')) = []"
    using Open_effect(2) [OF run] f(2) by (auto simp: migrated_def drop_tables_def)
  then have "df_rows (db_file ''p'' fs') \<noteq> df_rows (db_file ''p'' demo_legacy)" by (auto simp: f demo_db_def)
  with Open_keeps_tenants [OF run] run hosts f show ?thesis by auto
qed

definition demo_identity :: identity_env where
  "demo_identity = \<lparr>ie_read_fails = False, ie_parse = (\<lambda>_. Some (True, demo_signer)), ie_generate = Some demo_signer,
     ie_encode = (\<lambda>_. Some ''K''), ie_flt = no_faults\<rparr>"

theorem relay_identity_persists_witness:
  "\<exists>fs'. LoadOrCreateRelayIdentity demo_identity ''p'' [] = (Inr demo_signer, fs') \<and>
     LoadOrCreateRelayIdentity demo_identity ''p'' fs' = (Inr demo_signer, fs')"
proof -
  obtain fs' where run: "LoadOrCreateRelayIdentity demo_identity ''p'' [] = (Inr demo_signer, fs')"
    by (simp add: LoadOrCreateRelayIdentity_def demo_identity_def writeIdentityAtomically_def tx_simps)
  have "LoadOrCreateRelayIdentity demo_identity ''p'' fs' = (Inr demo_signer, fs')"
    using relay_identity_persists [OF run] by (simp add: demo_identity_def)
  with run show ?thesis by blast
qed

text \<open>Two listeners and the signal.\<close>

definition demo_signalled :: lifecycle where
  "demo_signalled = (start_lifecycle 2 (start_relay 1 1 empty_db))\<lparr>lc_ctx := True\<rparr>"

lemma demo_signalled_run:
  "lifecycle_run demo_crypto True 0 (start_lifecycle 2 (start_relay 1 1 empty_db)) demo_signalled"
  unfolding demo_signalled_def
  by (rule lifecycle_run.lifecycle_world [OF lifecycle_run.lifecycle_start world_step.signal])

lemma demo_started: "lifecycle_run demo_crypto True n demo_signalled c \<Longrightarrow> started demo_crypto True c"
  unfolding started_def using lifecycle_run_trans [OF _ demo_signalled_run] by blast

lemma demo_stopping: "stopping demo_signalled"
  by (simp add: stopping_def demo_signalled_def)

theorem serve_returns_witness:
  "lc_result demo_signalled = None \<and> (\<exists>c. serve_step\<^sup>*\<^sup>* demo_signalled c \<and> lc_result c \<noteq> None)"
proof -
  have "lc_result demo_signalled = None" by (simp add: demo_signalled_def start_lifecycle_def)
  with serve_returns [OF demo_started [OF lifecycle_run.lifecycle_start] demo_stopping lifecycle_run.lifecycle_start]
  show ?thesis by blast
qed

theorem serve_stopped_clean_witness:
  "\<exists>c res. started demo_crypto True c \<and> lc_result c = Some res \<and> length (lc_servers c) = 2 \<and>
     (\<forall>h\<in>set (lc_servers c). \<exists>r. hs_serve h = Ended r) \<and> registered (rl_server (lc_relay c)) = {}"
proof -
  have "started demo_crypto True demo_signalled" by (rule demo_started [OF lifecycle_run.lifecycle_start])
  from serve_reaches_result [OF started_inv [OF this] demo_stopping]
  obtain c res where c: "serve_step\<^sup>*\<^sup>* demo_signalled c" "lc_result c = Some res" by auto
  then obtain n where run: "lifecycle_run demo_crypto True n demo_signalled c"
    using serve_steps_run lifecycle_run.lifecycle_start by metis
  have two: "length (lc_servers c) = 2"
    using serve_steps_servers [OF c(1)] by (simp add: demo_signalled_def start_lifecycle_def)
  have clean: "(\<forall>h\<in>set (lc_servers c). \<exists>r. hs_serve h = Ended r) \<and> registered (rl_server (lc_relay c)) = {}"
    using serve_stopped_clean [OF demo_started [OF run]] c(2) by (simp only: option.inject simp_thms) (elim conjE)
  show ?thesis by (intro exI [of _ c] exI [of _ res] conjI demo_started [OF run] c(2) two clean [THEN conjunct1] clean [THEN conjunct2])
qed

end
