(* ===== verification/Spec2Isabelle.thy ===== *)
theory Spec2Isabelle
  imports Demo_Pairing Demo_Relay Demo_Cli
begin

text \<open>
  MyCodex Relay: a verification development.

  \<^bold>\<open>The program.\<close> The relay (module \<open>github.com/mycodex/mycodex-relay\<close>) connects Windows hosts with
  mobile devices that belong to a tenant. Hosts enrol under a tenant with its secret; devices are
  paired with a host through an invite and a claim the host approves; hosts and devices prove
  possession of their keys by signing a challenge of the relay and obtain one-time tickets; with a
  ticket they call the HTTP API or open a WebSocket; and the relay routes end-to-end encrypted
  frames between the two sockets of a device binding. A command line sets up configurations, TLS
  identities and tenants and starts the server. Persistent state is a SQLite database, a
  configuration file and key files; the state in memory is the registries of connected sockets, the
  challenge limiter and the identity.

  \<^bold>\<open>Theories and sources.\<close>

  \<^item> \<open>Prelude\<close>: byte strings, 64-bit wrap-around, tables as lists of rows, the error-and-state monad of
    service operations with transactions, and the locale \<open>tx_order\<close>: a reflexive and transitive relation
    on states that every statement of an operation obeys is obeyed by its every run. It is interpreted
    for each contract of the store.
  \<^item> \<open>GoStrings\<close>, \<open>Base64\<close>, \<open>GoTime\<close>, \<open>Json\<close>: what the code uses of Go's \<open>strings\<close>, \<open>strconv\<close>,
    \<open>unicode/utf8\<close>, \<open>encoding/base64\<close>, \<open>time\<close> and \<open>encoding/json\<close>, with round trips.
  \<^item> \<open>Canonical\<close> (\<open>internal/protocol/canonical.go\<close>): length-prefixed transcripts, SEC1 points, raw
    signatures. SHA-256 and the ECDSA equation are the parameter \<open>crypto\<close>.
  \<^item> \<open>Store\<close> (\<open>internal/store/schema.go\<close>): a record per table, the database \<open>db\<close>, its integrity \<open>db_inv\<close>
    and the statements the services execute.
  \<^item> \<open>Security\<close> (\<open>internal/security/secrets.go\<close>, \<open>relay_identity.go\<close>): tokens, salted secret hashes, log
    redaction, the relay's signer.
  \<^item> \<open>Tenant\<close>, \<open>Host\<close>, \<open>Auth\<close>, \<open>Pairing\<close>, \<open>Pairing_Lifecycle\<close> (\<open>internal/tenant\<close>, \<open>internal/host\<close>,
    \<open>internal/auth\<close>, \<open>internal/pairing\<close>): one function per service operation, transactions, SQL conditions
    and driver calls included, and what each does on success and on failure.
  \<^item> \<open>Services\<close>: runs of the services, any sequence of calls with any clock, randomness, arguments and
    driver faults, and the invariants of such runs.
  \<^item> \<open>Envelope\<close>, \<open>Frames\<close> (\<open>internal/protocol/envelope.go\<close>): the frame parser; what it accepts is exactly
    described by \<open>frame_ok\<close>, and printed frames fit the limit set on the socket.
  \<^item> \<open>Session\<close> (\<open>internal/session/registry.go\<close>): Go maps, sessions, keys; the locale \<open>routing_key\<close> is
    interpreted for host keys and for device keys.
  \<^item> \<open>Server\<close>, \<open>Limiter\<close> (\<open>internal/relay/server.go\<close>, \<open>auth_handlers.go\<close>): the server's state and every
    operation on it, and the challenge limit per source address.
  \<^item> \<open>Relay_Run\<close>: the relay as a state machine. A WebSocket handler goes through the phases accepted,
    serving, writing, returning, removed; each step is one critical section of the server's lock or one
    action of the handler; runs interleave handlers, service calls, revocations and the shutdown in any
    order, and record what is sent and closed.
  \<^item> \<open>Relay_Control\<close>: bindings of connected devices, revocation, shutdown, and the refinement of the
    keyed registries to a table of routes. A second, instrumented run keeps the sockets the relay has
    closed, to tell which steps of handlers need no client.
  \<^item> \<open>Lifecycle\<close> (\<open>serveBoth\<close>, \<open>serve\<close>, \<open>shutdown\<close> in \<open>server.go\<close>): the goroutines of the one or two HTTP
    servers and of their shutdown as a step relation beside the relay's, with one step between two
    points at which a goroutine may wait.
  \<^item> \<open>Handlers\<close>, \<open>Handlers_Run\<close> (\<open>auth_handlers.go\<close>, \<open>pairing_handlers.go\<close>): the HTTP API, one function per
    handler, as runs of that state machine.
  \<^item> \<open>Database\<close> (\<open>internal/store/store.go\<close>), \<open>Identity_File\<close> (\<open>internal/security/relay_identity.go\<close>),
    \<open>Certificates\<close> (\<open>internal/security/certificate.go\<close>): the files: opening and migrating the database,
    the relay's identity key, the embedded TLS identity.
  \<^item> \<open>Config\<close> (\<open>internal/config/config.go\<close>), \<open>Listeners\<close> (\<open>Serve\<close> and its helpers in \<open>server.go\<close>): the
    configuration, the check that an internal listener is on a loopback address, and which
    listeners a server opens.
  \<^item> \<open>Cli\<close>, \<open>Cli_Secrecy\<close>, \<open>Cli_Tenant\<close> (\<open>internal/cli\<close>): flags and commands as functions on a world of files,
    what their output reveals, and the commands that set up an installation.
  \<^item> \<open>Demo\<close>, \<open>Demo_Pairing\<close>, \<open>Demo_Relay\<close>, \<open>Demo_Cli\<close>: concrete instances of the theorems with hypotheses.

  \<^bold>\<open>What is shown.\<close> Authentication: a ticket is issued only to who signs a stored challenge with the
  registered key, works once, and for its scope only; transcripts are injective and domain separated.
  Pairing: an invite yields at most one approved claim, claims settle once, approvals are idempotent,
  failures leave no trace, identities stay pinned, revocation takes effect. Relaying: a frame goes
  only from a socket to its peer, unchanged and well formed; whoever is connected is bound; sockets
  and the wait group agree; the shutdown terminates and \<open>Serve\<close> returns, without error only when no handler is left; the registries implement routes by binding as
  long as identifiers have no slash, and a theorem shows what happens when they do. API: replies carry
  public codes only, host operations need their ticket, the challenge rate is bounded. Files and
  commands: opening a database loses no tenant, identities are created whole and kept, a listener
  without TLS is on loopback when there is one with TLS, the configuration \<open>local init\<close> writes is one
  the server accepts, and no command reveals a stored secret.

  \<^bold>\<open>Modelling choices.\<close> Errors are strings as in the code; \<open>Inl\<close> is an error. Clock readings, random
  bytes, driver faults (by number of the driver call within an operation), the outcome of loading the
  identity and of socket writes are arguments, so theorems hold for all of them. Integers are
  unbounded where the code's bounds keep them in range and \<open>wrap64\<close> where a difference can wrap.
  No definition needs fuel: recursion is structural or has a measure. A service
  operation is one step of a run, also when it is not a transaction: in the code its statements, which
  the store's one connection orders, may interleave with those of other operations. The contracts
  behind the invariants of runs (single use, pinned identities, settled claims, keys and references)
  are proved statement by statement and composed, so they do not rest on that. Requests
  arrive with parsed query, header and path, and JSON bodies are decoded values, too large or invalid.

  Files are maps from paths, so a path names one file. A configuration file is the value it was
  written from, read back through the model of JSON strings; a JSON object on standard output is the
  record that is printed.

  \<^bold>\<open>Not modelled.\<close> SQLite itself, \<open>net\<close>, \<open>net/http\<close> and \<open>crypto/tls\<close> (their outcomes are arguments of \<open>Serve\<close>
  and rules of \<open>serve_step\<close>: a server ends with an error at any time or once it is shut down, and its
  shutdown returns, which \<open>shutdownTimeout\<close> sees to), key generation and the X.509, PKCS 8 and PEM
  encodings, the JSON syntax of the configuration file, messages on standard error, and \<open>main\<close> with its signals: calls into the
  operating system and libraries with no logic of the relay's own.
\<close>

end
